(* ===== verification/Prelude.thy ===== *)
theory Prelude
  imports Main "HOL-Library.Word" "HOL-Library.Sublist"
begin

text \<open>
  Shared ground of the development: the outcome of a C computation (a value, or a memory fault
  where the C program has undefined behaviour), the state monad with faults that the components
  are written in, generic facts on lists, and the collections of rules the proofs draw on.
\<close>

section \<open>Outcomes of a C computation\<close>

text \<open>
  A C function either returns or runs into undefined behaviour. Every buffer access of the model
  is checked, and an access outside the object is a value of \<open>fault\<close>, never an arbitrary result.
\<close>

datatype fault =
    OobRead        \<comment> \<open>read outside an array\<close>
  | OobWrite       \<comment> \<open>write outside an array\<close>
  | NullDeref      \<comment> \<open>access through a null pointer\<close>
  | Unterminated   \<comment> \<open>string function run off the end of an array\<close>
  | BadFormat      \<comment> \<open>printf arguments that do not fit the format\<close>

type_synonym ('s, 'a) comp = "'s \<Rightarrow> fault + ('a \<times> 's)"

definition ret :: "'a \<Rightarrow> ('s, 'a) comp" where
  "ret a = (\<lambda>s. Inr (a, s))"

definition crash :: "fault \<Rightarrow> ('s, 'a) comp" where
  "crash f = (\<lambda>s. Inl f)"

definition bind :: "('s, 'a) comp \<Rightarrow> ('a \<Rightarrow> ('s, 'b) comp) \<Rightarrow> ('s, 'b) comp" where
  "bind m k = (\<lambda>s. case m s of Inl f \<Rightarrow> Inl f | Inr (a, t) \<Rightarrow> k a t)"

definition get :: "('s \<Rightarrow> 'a) \<Rightarrow> ('s, 'a) comp" where
  "get g = (\<lambda>s. Inr (g s, s))"

definition modify :: "('s \<Rightarrow> 's) \<Rightarrow> ('s, unit) comp" where
  "modify g = (\<lambda>s. Inr ((), g s))"

named_theorems exec_simps \<open>rules that run the monad forwards on a state\<close>
named_theorems frame_rules \<open>a computation relates its start state to its end state\<close>

lemma ret_run [exec_simps]: "ret a s = Inr (a, s)"
  by (simp add: ret_def)

lemma crash_run [exec_simps]: "crash f s = Inl f"
  by (simp add: crash_def)

lemma get_run [exec_simps]: "get g s = Inr (g s, s)"
  by (simp add: get_def)

lemma modify_run [exec_simps]: "modify g s = Inr ((), g s)"
  by (simp add: modify_def)

lemma bind_run [exec_simps]:
  "bind m k s = (case m s of Inl f \<Rightarrow> Inl f | Inr (a, t) \<Rightarrow> k a t)"
  by (simp add: bind_def)

lemma bind_ret [simp]: "bind (ret a) k = k a"
  by (simp add: bind_def ret_def)

lemma bind_ret_right [simp]: "bind m ret = m"
  by (rule ext) (auto simp: bind_def ret_def split: sum.splits)

lemma bind_assoc: "bind (bind m f) g = bind m (\<lambda>a. bind (f a) g)"
  by (rule ext) (auto simp: bind_def split: sum.splits)

lemma bind_eq_Inr:
  "bind m k s = Inr (b, u) \<longleftrightarrow> (\<exists>a t. m s = Inr (a, t) \<and> k a t = Inr (b, u))"
  by (auto simp: bind_def split: sum.splits)

lemma bind_eq_Inl:
  "bind m k s = Inl f \<longleftrightarrow> m s = Inl f \<or> (\<exists>a t. m s = Inr (a, t) \<and> k a t = Inl f)"
  by (auto simp: bind_def split: sum.splits)

section \<open>Total correctness and frames\<close>

text \<open>
  \<open>runs m s Q\<close>: from \<open>s\<close> the computation returns, without a fault, a value and a state that
  satisfy \<open>Q\<close>. \<open>keeps R m\<close>: whenever it returns, start and end state are related by \<open>R\<close>.
\<close>

definition runs :: "('s, 'a) comp \<Rightarrow> 's \<Rightarrow> ('a \<Rightarrow> 's \<Rightarrow> bool) \<Rightarrow> bool" where
  "runs m s Q = (case m s of Inl f \<Rightarrow> False | Inr (a, t) \<Rightarrow> Q a t)"

definition keeps :: "('s \<Rightarrow> 's \<Rightarrow> bool) \<Rightarrow> ('s, 'a) comp \<Rightarrow> bool" where
  "keeps R m \<longleftrightarrow> (\<forall>s a t. m s = Inr (a, t) \<longrightarrow> R s t)"

lemma runs_ret [simp]: "runs (ret a) s Q = Q a s"
  by (simp add: runs_def ret_def)

lemma runs_crash [simp]: "\<not> runs (crash f) s Q"
  by (simp add: runs_def crash_def)

lemma runs_get [simp]: "runs (get g) s Q = Q (g s) s"
  by (simp add: runs_def get_def)

lemma runs_modify [simp]: "runs (modify g) s Q = Q () (g s)"
  by (simp add: runs_def modify_def)

lemma runs_bind [simp]: "runs (bind m k) s Q = runs m s (\<lambda>a t. runs (k a) t Q)"
  by (auto simp: runs_def bind_def split: sum.splits)

lemma runs_mono: "runs m s P \<Longrightarrow> (\<And>a t. P a t \<Longrightarrow> Q a t) \<Longrightarrow> runs m s Q"
  by (auto simp: runs_def split: sum.splits)

lemma runsD: "runs m s Q \<Longrightarrow> m s = Inr (a, t) \<Longrightarrow> Q a t"
  by (simp add: runs_def)

lemma runsE:
  assumes "runs m s Q"
  obtains a t where "m s = Inr (a, t)" and "Q a t"
  using assms by (auto simp: runs_def split: sum.splits)

lemma keepsD: "keeps R m \<Longrightarrow> m s = Inr (a, t) \<Longrightarrow> R s t"
  by (simp add: keeps_def)

lemma keeps_runs: "keeps R m \<Longrightarrow> runs m s Q \<Longrightarrow> runs m s (\<lambda>a t. R s t \<and> Q a t)"
  by (auto simp: runs_def keeps_def split: sum.splits)

text \<open>
  Rules that keep what led to a branch: the first computation of a sequence may be described by
  another relation \<open>S\<close> that \<open>R\<close> absorbs.
\<close>

lemma keeps_after:
  assumes "keeps S m" and "\<And>s t u. S s t \<Longrightarrow> R t u \<Longrightarrow> R s u"
    and "\<And>a s t. m s = Inr (a, t) \<Longrightarrow> keeps R (k a)"
  shows "keeps R (bind m k)"
  unfolding keeps_def
proof (intro allI impI)
  fix s b u
  assume "bind m k s = Inr (b, u)"
  then obtain a t where m: "m s = Inr (a, t)" and k: "k a t = Inr (b, u)"
    by (auto simp: bind_eq_Inr)
  from m have "S s t" by (rule keepsD [OF assms(1)])
  moreover from assms(3) [OF m] k have "R t u" by (rule keepsD)
  ultimately show "R s u" by (rule assms(2))
qed

lemma keeps_ifI: "(b \<Longrightarrow> keeps R m) \<Longrightarrow> (\<not> b \<Longrightarrow> keeps R n) \<Longrightarrow> keeps R (if b then m else n)"
  by simp

lemma keeps_optionI:
  "(v = None \<Longrightarrow> keeps R m) \<Longrightarrow> (\<And>x. v = Some x \<Longrightarrow> keeps R (k x)) \<Longrightarrow>
   keeps R (case v of None \<Rightarrow> m | Some x \<Rightarrow> k x)"
  by (cases v) simp_all

lemma keeps_sumI:
  "(\<And>x. v = Inl x \<Longrightarrow> keeps R (f x)) \<Longrightarrow> (\<And>y. v = Inr y \<Longrightarrow> keeps R (g y)) \<Longrightarrow>
   keeps R (case v of Inl x \<Rightarrow> f x | Inr y \<Rightarrow> g y)"
  by (cases v) simp_all

lemma keeps_prodI: "(\<And>x y. v = (x, y) \<Longrightarrow> keeps R (f x y)) \<Longrightarrow> keeps R (case v of (x, y) \<Rightarrow> f x y)"
  by (cases v) simp

lemma keeps_crashI: "keeps R (crash f)"
  by (simp add: keeps_def crash_def)

lemma keeps_mono: "keeps S m \<Longrightarrow> (\<And>s t. S s t \<Longrightarrow> R s t) \<Longrightarrow> keeps R m"
  by (auto simp: keeps_def)

lemmas keeps_branches = keeps_ifI keeps_optionI keeps_sumI keeps_prodI keeps_crashI

section \<open>Memory safety\<close>

text \<open>A computation is safe when it has no fault from any state.\<close>

definition safe :: "('s, 'a) comp \<Rightarrow> bool" where
  "safe m \<longleftrightarrow> (\<forall>s. \<exists>a t. m s = Inr (a, t))"

named_theorems safe_rules \<open>computations without a fault\<close>

lemma safe_ret [safe_rules]: "safe (ret a)"
  by (simp add: safe_def ret_def)

lemma safe_get [safe_rules]: "safe (get g)"
  by (simp add: safe_def get_def)

lemma safe_modify [safe_rules]: "safe (modify g)"
  by (simp add: safe_def modify_def)

lemma safe_bind:
  assumes "safe m" and "\<And>a s t. m s = Inr (a, t) \<Longrightarrow> safe (k a)"
  shows "safe (bind m k)"
  unfolding safe_def
proof
  fix s
  obtain a t where m: "m s = Inr (a, t)" using assms(1) unfolding safe_def by blast
  with assms(2) [OF m] show "\<exists>b u. bind m k s = Inr (b, u)"
    by (simp add: bind_run safe_def)
qed

lemma safe_ifI: "(b \<Longrightarrow> safe m) \<Longrightarrow> (\<not> b \<Longrightarrow> safe n) \<Longrightarrow> safe (if b then m else n)"
  by simp

lemma safe_optionI:
  "(v = None \<Longrightarrow> safe m) \<Longrightarrow> (\<And>x. v = Some x \<Longrightarrow> safe (k x)) \<Longrightarrow>
   safe (case v of None \<Rightarrow> m | Some x \<Rightarrow> k x)"
  by (cases v) simp_all

lemma safe_sumI:
  "(\<And>x. v = Inl x \<Longrightarrow> safe (f x)) \<Longrightarrow> (\<And>y. v = Inr y \<Longrightarrow> safe (g y)) \<Longrightarrow>
   safe (case v of Inl x \<Rightarrow> f x | Inr y \<Rightarrow> g y)"
  by (cases v) simp_all

lemma safe_prodI: "(\<And>x y. v = (x, y) \<Longrightarrow> safe (f x y)) \<Longrightarrow> safe (case v of (x, y) \<Rightarrow> f x y)"
  by (cases v) simp

lemma safe_letI: "(\<And>x. x = v \<Longrightarrow> safe (f x)) \<Longrightarrow> safe (let x = v in f x)"
  by simp

lemmas safe_branches = safe_bind safe_ifI safe_optionI safe_sumI safe_prodI safe_letI

lemma safe_runs: "safe m \<Longrightarrow> runs m s (\<lambda>_ _. True)"
  by (auto simp: safe_def runs_def split: sum.splits) (metis sum.distinct(1))

text \<open>
  Partial correctness from a given state: whenever the computation returns, its value and end state
  satisfy \<open>Q\<close>. The rules below make the simplifier a generator of verification conditions.
\<close>

definition whenever :: "('s, 'a) comp \<Rightarrow> 's \<Rightarrow> ('a \<Rightarrow> 's \<Rightarrow> bool) \<Rightarrow> bool" where
  "whenever m s Q \<longleftrightarrow> (\<forall>a t. m s = Inr (a, t) \<longrightarrow> Q a t)"

named_theorems vc_simps \<open>rules that turn a claim on a computation into one on states\<close>

lemma whenever_ret [vc_simps]: "whenever (ret a) s Q = Q a s"
  by (simp add: whenever_def ret_def)

lemma whenever_crash [vc_simps]: "whenever (crash f) s Q"
  by (simp add: whenever_def crash_def)

lemma whenever_get [vc_simps]: "whenever (get g) s Q = Q (g s) s"
  by (simp add: whenever_def get_def)

lemma whenever_modify [vc_simps]: "whenever (modify g) s Q = Q () (g s)"
  by (simp add: whenever_def modify_def)

lemma whenever_bind [vc_simps]: "whenever (bind m k) s Q = whenever m s (\<lambda>a t. whenever (k a) t Q)"
  by (auto simp: whenever_def bind_eq_Inr)

lemma whenever_mono: "whenever m s P \<Longrightarrow> (\<And>a t. P a t \<Longrightarrow> Q a t) \<Longrightarrow> whenever m s Q"
  by (auto simp: whenever_def)

lemma wheneverD: "whenever m s Q \<Longrightarrow> m s = Inr (a, t) \<Longrightarrow> Q a t"
  by (simp add: whenever_def)

lemma whenever_keeps: "keeps R m \<Longrightarrow> (\<And>a t. R s t \<Longrightarrow> Q a t) \<Longrightarrow> whenever m s Q"
  by (auto simp: whenever_def keeps_def)

text \<open>Every value a computation returns satisfies \<open>P\<close>.\<close>

definition yields :: "('a \<Rightarrow> bool) \<Rightarrow> ('s, 'a) comp \<Rightarrow> bool" where
  "yields P m \<longleftrightarrow> (\<forall>s a t. m s = Inr (a, t) \<longrightarrow> P a)"

lemma yieldsD: "yields P m \<Longrightarrow> m s = Inr (a, t) \<Longrightarrow> P a"
  unfolding yields_def by blast

lemma yields_ret: "P a \<Longrightarrow> yields P (ret a)"
  by (simp add: yields_def ret_def)

lemma yields_crash: "yields P (crash f)"
  by (simp add: yields_def crash_def)

lemma yields_bind:
  "(\<And>a s t. m s = Inr (a, t) \<Longrightarrow> yields P (k a)) \<Longrightarrow> yields P (bind m k)"
  unfolding yields_def bind_eq_Inr by blast

lemma yields_if: "(b \<Longrightarrow> yields P m) \<Longrightarrow> (\<not> b \<Longrightarrow> yields P n) \<Longrightarrow> yields P (if b then m else n)"
  by simp

lemma yields_case_option:
  "(v = None \<Longrightarrow> yields P m) \<Longrightarrow> (\<And>x. v = Some x \<Longrightarrow> yields P (k x)) \<Longrightarrow>
   yields P (case v of None \<Rightarrow> m | Some x \<Rightarrow> k x)"
  by (cases v) simp_all

lemma yields_case_sum:
  "(\<And>x. v = Inl x \<Longrightarrow> yields P (f x)) \<Longrightarrow> (\<And>y. v = Inr y \<Longrightarrow> yields P (g y)) \<Longrightarrow>
   yields P (case v of Inl x \<Rightarrow> f x | Inr y \<Rightarrow> g y)"
  by (cases v) simp_all

lemma yields_case_prod: "(\<And>x y. v = (x, y) \<Longrightarrow> yields P (f x y)) \<Longrightarrow> yields P (case v of (x, y) \<Rightarrow> f x y)"
  by (cases v) simp

lemmas yields_intros =
  yields_ret yields_crash yields_bind yields_if yields_case_option yields_case_sum yields_case_prod

text \<open>Every fault of the computation is one of those that \<open>P\<close> describes.\<close>

definition may :: "(fault \<Rightarrow> bool) \<Rightarrow> ('s, 'a) comp \<Rightarrow> bool" where
  "may P m \<longleftrightarrow> (\<forall>s f. m s = Inl f \<longrightarrow> P f)"

lemma mayD: "may P m \<Longrightarrow> m s = Inl f \<Longrightarrow> P f"
  unfolding may_def by blast

lemma may_safe: "safe m \<Longrightarrow> may P m"
  unfolding may_def safe_def by (metis sum.distinct(1))

lemma may_crash: "P f \<Longrightarrow> may P (crash f)"
  by (simp add: may_def crash_def)

lemma may_bind: "may P m \<Longrightarrow> (\<And>a s t. m s = Inr (a, t) \<Longrightarrow> may P (k a)) \<Longrightarrow> may P (bind m k)"
  unfolding may_def bind_eq_Inl by blast

lemma may_bindY: "may P m \<Longrightarrow> yields Q m \<Longrightarrow> (\<And>a. Q a \<Longrightarrow> may P (k a)) \<Longrightarrow> may P (bind m k)"
  unfolding may_def yields_def bind_eq_Inl by blast

lemma may_if: "(b \<Longrightarrow> may P m) \<Longrightarrow> (\<not> b \<Longrightarrow> may P n) \<Longrightarrow> may P (if b then m else n)"
  by simp

lemma may_case_option:
  "(v = None \<Longrightarrow> may P m) \<Longrightarrow> (\<And>x. v = Some x \<Longrightarrow> may P (k x)) \<Longrightarrow>
   may P (case v of None \<Rightarrow> m | Some x \<Rightarrow> k x)"
  by (cases v) simp_all

lemma may_case_prod: "(\<And>x y. v = (x, y) \<Longrightarrow> may P (f x y)) \<Longrightarrow> may P (case v of (x, y) \<Rightarrow> f x y)"
  by (cases v) simp

lemmas may_intros = may_bind may_if may_case_option may_case_prod
  safe_ret [THEN may_safe] safe_get [THEN may_safe] safe_modify [THEN may_safe]

text \<open>
  A frame is a reflexive and transitive relation on states. Whatever a frame relates, sequential
  composition, branching and case distinctions relate too; each frame of the development is an
  interpretation of this locale.
\<close>

locale frame =
  fixes R :: "'s \<Rightarrow> 's \<Rightarrow> bool"
  assumes frame_refl: "R s s"
    and frame_trans: "R s t \<Longrightarrow> R t u \<Longrightarrow> R s u"
begin

lemma keeps_ret: "keeps R (ret a)"
  by (simp add: keeps_def ret_def frame_refl)

lemma keeps_crash: "keeps R (crash f)"
  by (simp add: keeps_def crash_def)

lemma keeps_get: "keeps R (get g)"
  by (simp add: keeps_def get_def frame_refl)

lemma keeps_modify: "(\<And>s. R s (g s)) \<Longrightarrow> keeps R (modify g)"
  by (simp add: keeps_def modify_def)

lemma keeps_bind: "keeps R m \<Longrightarrow> (\<And>a. keeps R (k a)) \<Longrightarrow> keeps R (bind m k)"
  by (auto simp: keeps_def bind_eq_Inr) (blast intro: frame_trans)

lemma keeps_if: "keeps R m \<Longrightarrow> keeps R n \<Longrightarrow> keeps R (if b then m else n)"
  by simp

lemma keeps_case_option:
  "keeps R m \<Longrightarrow> (\<And>x. keeps R (k x)) \<Longrightarrow> keeps R (case v of None \<Rightarrow> m | Some x \<Rightarrow> k x)"
  by (cases v) simp_all

lemma keeps_case_sum:
  "(\<And>x. keeps R (f x)) \<Longrightarrow> (\<And>y. keeps R (g y)) \<Longrightarrow>
   keeps R (case v of Inl x \<Rightarrow> f x | Inr y \<Rightarrow> g y)"
  by (cases v) simp_all

lemma keeps_case_prod: "(\<And>x y. keeps R (f x y)) \<Longrightarrow> keeps R (case v of (x, y) \<Rightarrow> f x y)"
  by (cases v) simp

lemma keeps_let: "(\<And>x. keeps R (f x)) \<Longrightarrow> keeps R (let x = v in f x)"
  by simp

lemmas keeps_intros =
  keeps_ret keeps_crash keeps_get keeps_bind keeps_if keeps_case_option keeps_case_sum
  keeps_case_prod keeps_let

end

section \<open>Lists\<close>

lemma takeWhile_append_stop:
  "(\<And>x. x \<in> set xs \<Longrightarrow> P x) \<Longrightarrow> \<not> P y \<Longrightarrow> takeWhile P (xs @ y # ys) = xs"
  by (induction xs) auto

lemma dropWhile_append_stop:
  "(\<And>x. x \<in> set xs \<Longrightarrow> P x) \<Longrightarrow> \<not> P y \<Longrightarrow> dropWhile P (xs @ y # ys) = y # ys"
  by (induction xs) auto

lemma takeWhile_all: "(\<And>x. x \<in> set xs \<Longrightarrow> P x) \<Longrightarrow> takeWhile P xs = xs"
  by (induction xs) auto

lemma list4E:
  assumes "length xs = 4"
  obtains a b c d where "xs = [a, b, c, d]"
  using assms by (auto simp: numeral_eq_Suc length_Suc_conv)

end
