(* ===== verification/Clib.thy ===== *)
theory Clib
  imports Prelude
begin

text \<open>
  The part of the C library the program uses, on strings as character lists: character classes
  in the C locale, comparisons, searches, number conversions, and the printf formatter. A C string
  is the list of its characters before the terminating NUL; \<open>cstr\<close> reads one out of an array.
\<close>

section \<open>Characters and bytes\<close>

type_synonym byte = "8 word"

abbreviation NUL :: char where "NUL \<equiv> CHR 0x00"
abbreviation CR :: char where "CR \<equiv> CHR 0x0D"
abbreviation LF :: char where "LF \<equiv> CHR 0x0A"

definition chr :: "byte \<Rightarrow> char" where
  "chr b = char_of (unat b)"

definition ord :: "char \<Rightarrow> byte" where
  "ord c = word_of_nat (of_char c)"

lemma chr_ord [simp]: "chr (ord c) = c"
  by (simp add: chr_def ord_def unat_of_nat)

lemma ord_chr [simp]: "ord (chr b) = b"
proof -
  have "unat b mod 256 = unat b"
    using unsigned_less [of b, where ?'a = nat] by simp
  then show ?thesis
    by (simp add: chr_def ord_def)
qed

lemma map_chr_ord [simp]: "map chr (map ord s) = s"
  by (simp add: comp_def)

lemma map_ord_chr [simp]: "map ord (map chr b) = b"
  by (simp add: comp_def)

definition isspace :: "char \<Rightarrow> bool" where
  "isspace c \<longleftrightarrow> c = CHR '' '' \<or> c = CHR 0x09 \<or> c = CHR 0x0A \<or> c = CHR 0x0B \<or> c = CHR 0x0C
     \<or> c = CHR 0x0D"

definition isdigit :: "char \<Rightarrow> bool" where
  "isdigit c \<longleftrightarrow> c \<in> set ''0123456789''"

definition islower :: "char \<Rightarrow> bool" where
  "islower c \<longleftrightarrow> c \<in> set ''abcdefghijklmnopqrstuvwxyz''"

definition isxdigit :: "char \<Rightarrow> bool" where
  "isxdigit c \<longleftrightarrow> c \<in> set ''0123456789abcdefABCDEF''"

definition tolower :: "char \<Rightarrow> char" where
  "tolower c = (let n = (of_char c :: nat) in if 65 \<le> n \<and> n \<le> 90 then char_of (n + 32) else c)"

lemma not_isspace_NUL [simp]: "\<not> isspace NUL"
  by (simp add: isspace_def)

section \<open>Strings in arrays\<close>

text \<open>The C string that starts at index \<open>p\<close> of an array; none when no NUL follows.\<close>

definition cstr :: "char list \<Rightarrow> nat \<Rightarrow> string option" where
  "cstr buf p =
     (if NUL \<in> set (drop p buf) then Some (takeWhile (\<lambda>c. c \<noteq> NUL) (drop p buf)) else None)"

definition cstring :: "string \<Rightarrow> bool" where
  "cstring s \<longleftrightarrow> NUL \<notin> set s"

text \<open>What a string function sees of a NUL-terminated character sequence.\<close>

definition upto_NUL :: "char list \<Rightarrow> string" where
  "upto_NUL cs = takeWhile (\<lambda>c. c \<noteq> NUL) cs"

lemma cstring_upto_NUL [simp]: "cstring (upto_NUL cs)"
  by (auto simp: cstring_def upto_NUL_def dest: set_takeWhileD)

lemma upto_NUL_id: "cstring s \<Longrightarrow> upto_NUL s = s"
  by (auto simp: cstring_def upto_NUL_def intro!: takeWhile_all)

lemma cstr_terminated: "cstring s \<Longrightarrow> length pre = p \<Longrightarrow> cstr (pre @ s @ NUL # post) p = Some s"
  by (auto simp: cstr_def cstring_def intro!: takeWhile_append_stop)

lemma cstr_SomeD:
  assumes "cstr buf p = Some s"
  shows "cstring s" and "p + length s < length buf" and "take (length s) (drop p buf) = s"
proof -
  let ?P = "\<lambda>c. c \<noteq> NUL"
  from assms have mem: "NUL \<in> set (drop p buf)" and s: "s = takeWhile ?P (drop p buf)"
    by (auto simp: cstr_def split: if_splits)
  show "cstring s"
    unfolding s cstring_def using set_takeWhileD by fastforce
  have "length s < length (drop p buf)"
  proof (rule ccontr)
    assume "\<not> length s < length (drop p buf)"
    then have "takeWhile ?P (drop p buf) = drop p buf"
      unfolding s by (metis takeWhile_eq_take take_all not_less)
    with mem show False
      using set_takeWhileD by fastforce
  qed
  then show "p + length s < length buf"
    by simp
  show "take (length s) (drop p buf) = s"
    unfolding s by (metis takeWhile_eq_take)
qed

section \<open>Comparison and search\<close>

text \<open>
  The source only tests the results of \<open>strcmp\<close>, \<open>strncmp\<close> and \<open>strncasecmp\<close> against zero; the
  model is that test. Two C strings agree up to \<open>n\<close> characters or the terminator exactly when
  their first \<open>n\<close> characters are equal as lists.
\<close>

definition strncmp_eq :: "string \<Rightarrow> string \<Rightarrow> nat \<Rightarrow> bool" where
  "strncmp_eq a b n \<longleftrightarrow> take n a = take n b"

definition strncasecmp_eq :: "string \<Rightarrow> string \<Rightarrow> nat \<Rightarrow> bool" where
  "strncasecmp_eq a b n \<longleftrightarrow> map tolower (take n a) = map tolower (take n b)"

fun strchr :: "string \<Rightarrow> char \<Rightarrow> nat option" where
  "strchr [] c = None"
| "strchr (x # xs) c = (if x = c then Some 0 else map_option Suc (strchr xs c))"

fun strstr :: "string \<Rightarrow> string \<Rightarrow> nat option" where
  "strstr [] n = (if n = [] then Some 0 else None)"
| "strstr (x # xs) n = (if prefix n (x # xs) then Some 0 else map_option Suc (strstr xs n))"

lemma strchr_None [simp]: "strchr s c = None \<longleftrightarrow> c \<notin> set s"
  by (induction s) auto

lemma strchr_Some: "strchr s c = Some i \<longleftrightarrow> i < length s \<and> s ! i = c \<and> c \<notin> set (take i s)"
proof (induction s arbitrary: i)
  case (Cons x s)
  then show ?case by (cases i) auto
qed simp

lemma strstr_SomeD:
  "strstr s n = Some i \<Longrightarrow> i \<le> length s \<and> prefix n (drop i s) \<and> (\<forall>j<i. \<not> prefix n (drop j s))"
proof (induction s arbitrary: i)
  case (Cons x s)
  show ?case
  proof (cases "prefix n (x # s)")
    case True
    with Cons.prems show ?thesis by simp
  next
    case False
    with Cons.prems obtain k where k: "strstr s n = Some k" "i = Suc k" by auto
    from Cons.IH [OF k(1)] k(2) False show ?thesis
      by (auto simp: less_Suc_eq_0_disj)
  qed
qed (auto split: if_splits)

lemma strstr_bound: "strstr s n = Some i \<Longrightarrow> i + length n \<le> length s"
  by (drule strstr_SomeD) (auto dest: prefix_length_le)

text \<open>The first occurrence, when the text before it cannot contain the start of one.\<close>

lemma strstr_first:
  assumes "c \<notin> set pre"
  shows "strstr (pre @ (c # n) @ post) (c # n) = Some (length pre)"
  using assms by (induction pre) auto

lemma strstr_skip:
  assumes "\<And>j. j < length pre \<Longrightarrow> \<not> prefix n (drop j pre @ s)"
  shows "strstr (pre @ s) n = map_option (\<lambda>i. length pre + i) (strstr s n)"
  using assms
proof (induction pre)
  case (Cons x pre)
  from Cons.prems [of 0] have no: "\<not> prefix n (x # pre @ s)" by simp
  have "\<And>j. j < length pre \<Longrightarrow> \<not> prefix n (drop j pre @ s)"
    using Cons.prems [of "Suc j" for j] by simp
  from Cons.IH [OF this] no show ?case
    by (cases "strstr s n") simp_all
next
  case Nil
  show ?case by (cases "strstr s n") simp_all
qed

section \<open>Numbers\<close>

definition digit_char :: "nat \<Rightarrow> char" where
  "digit_char d = ''0123456789abcdef'' ! (d mod 16)"

fun dec :: "nat \<Rightarrow> string" where
  "dec n = (if n < 10 then [digit_char n] else dec (n div 10) @ [digit_char (n mod 10)])"

declare dec.simps [simp del]

fun hex :: "nat \<Rightarrow> string" where
  "hex n = (if n < 16 then [digit_char n] else hex (n div 16) @ [digit_char (n mod 16)])"

declare hex.simps [simp del]

definition dec_int :: "int \<Rightarrow> string" where
  "dec_int i = (if i < 0 then CHR ''-'' # dec (nat (- i)) else dec (nat i))"

text \<open>\<open>%0wlx\<close>: hexadecimal, padded with zeros to the width.\<close>

definition hex_pad :: "nat \<Rightarrow> nat \<Rightarrow> string" where
  "hex_pad w n = replicate (w - length (hex n)) CHR ''0'' @ hex n"

lemma digit_char_xdigit: "digit_char d \<in> set ''0123456789abcdef''"
proof -
  have "d mod 16 < length ''0123456789abcdef''" by simp
  then show ?thesis unfolding digit_char_def by (rule nth_mem)
qed

lemma hex_digits: "set (hex n) \<subseteq> set ''0123456789abcdef''"
proof (induction n rule: hex.induct)
  case (1 n)
  then show ?case
    using digit_char_xdigit by (subst hex.simps) simp
qed

lemma length_hex: "0 < w \<Longrightarrow> n < 16 ^ w \<Longrightarrow> length (hex n) \<le> w"
proof (induction n arbitrary: w rule: hex.induct)
  case (1 n)
  show ?case
  proof (cases "n < 16")
    case True
    with "1.prems" show ?thesis by (subst hex.simps) simp
  next
    case False
    from "1.prems" False obtain v where w: "w = Suc v" "0 < v"
      by (cases w; cases "w - 1") auto
    have "n div 16 < 16 ^ v"
      using "1.prems"(2) by (simp add: w(1) less_mult_imp_div_less mult.commute)
    with "1.IH" [OF False w(2)] show ?thesis
      using False w(1) by (subst hex.simps) simp
  qed
qed

lemma length_hex_pad: "0 < w \<Longrightarrow> n < 16 ^ w \<Longrightarrow> length (hex_pad w n) = w"
  using length_hex [of w n] by (simp add: hex_pad_def)

lemma hex_pad_digits: "set (hex_pad w n) \<subseteq> set ''0123456789abcdef''"
  using hex_digits [of n] by (auto simp: hex_pad_def)

text \<open>\<open>atoi\<close> is \<open>strtol\<close> in base ten: blanks, a sign, digits; the 32-bit result saturates.\<close>

fun digits_val :: "nat \<Rightarrow> string \<Rightarrow> nat" where
  "digits_val acc [] = acc"
| "digits_val acc (c # cs) =
     (if isdigit c then digits_val (acc * 10 + (of_char c - 48)) cs else acc)"

definition clamp32 :: "int \<Rightarrow> int" where
  "clamp32 i = max (- (2 ^ 31)) (min (2 ^ 31 - 1) i)"

definition atoi :: "string \<Rightarrow> int" where
  "atoi s = (case dropWhile isspace s of
       [] \<Rightarrow> 0
     | c # cs \<Rightarrow>
         if c = CHR ''-'' then clamp32 (- int (digits_val 0 cs))
         else if c = CHR ''+'' then clamp32 (int (digits_val 0 cs))
         else clamp32 (int (digits_val 0 (c # cs))))"

lemma atoi_range: "- (2 ^ 31) \<le> atoi s \<and> atoi s < 2 ^ 31"
  by (auto simp: atoi_def clamp32_def split: list.splits)

section \<open>Formatted output\<close>

datatype arg =
    Astr "string option"   \<comment> \<open>a string argument, none for a null pointer\<close>
  | Aint int
  | Auint nat

text \<open>
  The conversions the source uses: \<open>%s\<close>, \<open>%d\<close>, \<open>%u\<close>, \<open>%lu\<close>, \<open>%zu\<close> and \<open>%%\<close>. The result is none when an
  argument is missing or of another type, which is undefined in C. glibc prints a null string as
  \<open>(null)\<close>.
\<close>

fun cformat :: "string \<Rightarrow> arg list \<Rightarrow> string option" where
  "cformat [] xs = Some []"
| "cformat (c # f) xs =
     (if c \<noteq> CHR ''%'' then map_option ((#) c) (cformat f xs)
      else case f of
        [] \<Rightarrow> None
      | d # g \<Rightarrow>
          if d = CHR ''%'' then map_option ((#) d) (cformat g xs)
          else if d = CHR ''s'' then
            (case xs of
               Astr a # ys \<Rightarrow>
                 map_option ((@) (case a of None \<Rightarrow> ''(null)'' | Some x \<Rightarrow> x)) (cformat g ys)
             | _ \<Rightarrow> None)
          else if d = CHR ''d'' then
            (case xs of Aint i # ys \<Rightarrow> map_option ((@) (dec_int i)) (cformat g ys) | _ \<Rightarrow> None)
          else if d = CHR ''u'' then
            (case xs of Auint n # ys \<Rightarrow> map_option ((@) (dec n)) (cformat g ys) | _ \<Rightarrow> None)
          else if d = CHR ''l'' \<or> d = CHR ''z'' then
            (case g of
               e # h \<Rightarrow>
                 if e = CHR ''u'' then
                   (case xs of Auint n # ys \<Rightarrow> map_option ((@) (dec n)) (cformat h ys) | _ \<Rightarrow> None)
                 else None
             | [] \<Rightarrow> None)
          else None)"

end
