(* ===== verification/World.thy ===== *)
theory World
  imports Clib
begin

text \<open>
  The state of the daemon and its surroundings. The operating system is a parameter: a record
  \<open>os\<close> of functions that say what each system call returns, given the number of calls made so far
  and its arguments. Quantifying over \<open>os\<close> covers every behaviour of the kernel, the network and the
  other processes. The record \<open>world\<close> holds the static variables of the program and the trace of its
  visible actions.
\<close>

section \<open>Addresses and interfaces\<close>

definition AF_INET :: int where [simp]: "AF_INET = 2"
definition AF_INET6 :: int where [simp]: "AF_INET6 = 10"
definition AF_NETLINK :: int where [simp]: "AF_NETLINK = 16"

definition SOCK_STREAM :: int where [simp]: "SOCK_STREAM = 1"
definition SOCK_DGRAM :: int where [simp]: "SOCK_DGRAM = 2"
definition SOCK_RAW :: int where [simp]: "SOCK_RAW = 3"

definition EINVAL :: int where [simp]: "EINVAL = 22"
definition ENOMEM :: int where [simp]: "ENOMEM = 12"
definition EADDRNOTAVAIL :: int where [simp]: "EADDRNOTAVAIL = 99"
definition EADDRINUSE :: int where [simp]: "EADDRINUSE = 98"
definition EINTR :: int where [simp]: "EINTR = 4"

text \<open>
  The union \<open>_saddr_t\<close>: the family, the port as stored (network byte order) and the address bytes,
  four for IPv4 and sixteen for IPv6. The bytes of a netlink address are its groups.
\<close>

record saddr =
  ss_family :: int
  sin_port :: "16 word"
  sin_addr :: "byte list"

definition addr_size :: "int \<Rightarrow> nat" where
  "addr_size fam = (if fam = AF_INET then 4 else if fam = AF_INET6 then 16 else 0)"

definition wf_saddr :: "saddr \<Rightarrow> bool" where
  "wf_saddr sa \<longleftrightarrow> length (sin_addr sa) = addr_size (ss_family sa)"

record ifaddrs =
  ifa_name :: string
  ifa_flags :: "32 word"
  ifa_addr :: "saddr option"
  ifa_netmask :: "saddr option"

section \<open>Endpoints and services\<close>

text \<open>The function pointers of \<open>struct service\<close>, by the name of the function they hold.\<close>

datatype init_fn = Wsd_init | Llmnr_init
datatype recv_fn = Wsd_recv | Llmnr_recv | Netlink_recv
datatype exit_fn = Wsd_exit | Llmnr_exit

record service =
  name :: string
  sv_family :: int
  sv_type :: int
  sv_protocol :: int
  port_name :: "string option"
  port_num :: "16 word"
  mcast_addr :: "string option"
  nl_groups :: "32 word"
  sv_init :: "init_fn option"
  sv_recv :: "recv_fn option"
  sv_exit :: "exit_fn option"

text \<open>
  \<open>struct endpoint\<close>, without its list link and its two error fields: the fields \<open>errstr\<close> and
  \<open>_errno\<close> of the endpoint a function works on are \<open>ep_errstr\<close> and \<open>ep_errno\<close> of the world.
\<close>

datatype mreq =
    No_mreq                            \<comment> \<open>all bytes zero\<close>
  | Ip_mreq "byte list" "byte list"    \<comment> \<open>group, address of the interface\<close>
  | Ipv6_mreq "byte list" nat          \<comment> \<open>group, index of the interface\<close>

record endpoint =
  ifname :: string
  service :: service
  family :: int
  type :: int
  protocol :: int
  port :: "16 word"
  sock :: int
  mlen :: nat
  llen :: nat
  mcast :: saddr
  local :: saddr
  mreq :: mreq
  mreqlen :: nat

section \<open>Visible actions\<close>

datatype event =
    Ev_socket int int int int              \<comment> \<open>family, type, protocol; descriptor or -1\<close>
  | Ev_setsockopt int string int           \<comment> \<open>descriptor, option, result\<close>
  | Ev_membership int string mreq int     \<comment> \<open>the options that join or leave a group\<close>
  | Ev_bind int saddr int
  | Ev_listen int int
  | Ev_accept int int                      \<comment> \<open>listening descriptor; new descriptor or -1\<close>
  | Ev_close int
  | Ev_recv int int                        \<comment> \<open>descriptor; length or -1\<close>
  | Ev_send int "byte list"
  | Ev_sendto int "byte list" saddr
  | Ev_usleep nat
  | Ev_syslog string

text \<open>What arrives on an accepted connection: segments of bytes, or an error (a time-out).\<close>

datatype rx_item = Seg "byte list" | Rx_err int

record os =
  os_alloc :: "nat \<Rightarrow> bool"
  os_stack :: "nat \<Rightarrow> nat \<Rightarrow> byte"
  os_time :: "nat \<Rightarrow> 32 word"
  os_random :: "nat \<Rightarrow> nat"
  os_http_date :: "nat \<Rightarrow> string"
  os_file :: "nat \<Rightarrow> string \<Rightarrow> int + string"
  os_popen :: "nat \<Rightarrow> string \<Rightarrow> int + string"
  os_gethostname :: "nat \<Rightarrow> int + string"
  os_getifaddrs :: "nat \<Rightarrow> int + ifaddrs list"
  os_recvfrom :: "nat \<Rightarrow> int \<Rightarrow> int + (byte list \<times> saddr)"
  os_accept :: "nat \<Rightarrow> int \<Rightarrow> int + (int \<times> saddr \<times> rx_item list)"
  os_send :: "nat \<Rightarrow> int \<Rightarrow> byte list \<Rightarrow> int + nat"
  os_sendto :: "nat \<Rightarrow> int \<Rightarrow> byte list \<Rightarrow> saddr \<Rightarrow> int + nat"
  os_getservbyname :: "nat \<Rightarrow> string \<Rightarrow> string \<Rightarrow> 16 word option"
  os_if_nametoindex :: "nat \<Rightarrow> string \<Rightarrow> nat"
  os_socket :: "nat \<Rightarrow> int \<Rightarrow> int \<Rightarrow> int \<Rightarrow> int + int"
  os_setsockopt :: "nat \<Rightarrow> int \<Rightarrow> string \<Rightarrow> int"
  os_bind :: "nat \<Rightarrow> int \<Rightarrow> saddr \<Rightarrow> int"
  os_listen :: "nat \<Rightarrow> int \<Rightarrow> int"
  os_sigaction :: "nat \<Rightarrow> int \<Rightarrow> int"
  os_fork :: "nat \<Rightarrow> int + int"
  os_select :: "nat \<Rightarrow> int list \<Rightarrow> int + int list"

text \<open>One line of the table \<open>bootinfo\<close> of wsd.c.\<close>

record bootent =
  key :: string
  dflt :: string
  val :: "string option"

record world =
  calls :: nat                       \<comment> \<open>system and library calls made so far\<close>
  trace :: "event list"              \<comment> \<open>visible actions, oldest first\<close>
  errno :: int
  ep_errstr :: "string option"       \<comment> \<open>\<open>ep->errstr\<close>\<close>
  ep_errno :: int                    \<comment> \<open>\<open>ep->_errno\<close>\<close>
  rx :: "rx_item list"               \<comment> \<open>still to be received on the accepted connection\<close>
  wsd_instance :: "32 word"
  wsd_sequence :: string
  wsd_endpoint :: string
  seeded :: bool
  rand48 :: "48 word"
  msg_no :: "32 word"
  netbiosname :: "string option"
  workgroup :: "string option"
  hostname :: string
  bootinfo :: "bootent list"
  getresp_inited :: bool
  endpointlen :: nat
  restart :: int

type_synonym 'a M = "(world, 'a) comp"

section \<open>System calls\<close>

definition sys :: "(nat \<Rightarrow> 'a) \<Rightarrow> 'a M" where
  "sys f = (\<lambda>w. Inr (f (calls w), w\<lparr>calls := Suc (calls w)\<rparr>))"

definition emit :: "event \<Rightarrow> unit M" where
  "emit e = modify (\<lambda>w. w\<lparr>trace := trace w @ [e]\<rparr>)"

definition set_errno :: "int \<Rightarrow> unit M" where
  "set_errno e = modify (\<lambda>w. w\<lparr>errno := e\<rparr>)"

text \<open>Whether an allocation succeeds. A failed one sets \<open>errno\<close>.\<close>

definition alloc :: "os \<Rightarrow> bool M" where
  "alloc os = bind (sys (os_alloc os)) (\<lambda>ok. if ok then ret True
     else bind (set_errno ENOMEM) (\<lambda>_. ret False))"

text \<open>A call that fails with an error number: the number goes to \<open>errno\<close>.\<close>

definition failing :: "(nat \<Rightarrow> int + 'a) \<Rightarrow> 'a option M" where
  "failing f = bind (sys f) (\<lambda>r. case r of
       Inl e \<Rightarrow> bind (set_errno e) (\<lambda>_. ret None)
     | Inr a \<Rightarrow> ret (Some a))"

text \<open>\<open>ep->errstr = s; ep->_errno = errno;\<close>\<close>

definition set_err :: "string \<Rightarrow> unit M" where
  "set_err s = modify (\<lambda>w. w\<lparr>ep_errstr := Some s, ep_errno := errno w\<rparr>)"

text \<open>\<open>ep->errstr = s;\<close> alone.\<close>

definition set_errstr :: "string \<Rightarrow> unit M" where
  "set_errstr s = modify (\<lambda>w. w\<lparr>ep_errstr := Some s\<rparr>)"

definition sys_sendto :: "os \<Rightarrow> int \<Rightarrow> byte list \<Rightarrow> saddr \<Rightarrow> int M" where
  "sys_sendto os fd bs sa =
     bind (failing (\<lambda>n. os_sendto os n fd bs sa)) (\<lambda>r.
     bind (emit (Ev_sendto fd bs sa)) (\<lambda>_.
     ret (case r of None \<Rightarrow> - 1 | Some k \<Rightarrow> int k)))"

definition sys_send :: "os \<Rightarrow> int \<Rightarrow> byte list \<Rightarrow> int M" where
  "sys_send os fd bs =
     bind (failing (\<lambda>n. os_send os n fd bs)) (\<lambda>r.
     bind (emit (Ev_send fd bs)) (\<lambda>_.
     ret (case r of None \<Rightarrow> - 1 | Some k \<Rightarrow> int k)))"

definition sys_close :: "int \<Rightarrow> unit M" where
  "sys_close fd = emit (Ev_close fd)"

text \<open>
  A call that returns 0, or -1 with an error number in \<open>errno\<close>; the surroundings give the number, 0
  for success.
\<close>

definition sys_status :: "(nat \<Rightarrow> int) \<Rightarrow> int M" where
  "sys_status f = bind (sys f) (\<lambda>e. if e = 0 then ret 0 else bind (set_errno e) (\<lambda>_. ret (- 1)))"

definition sys_setsockopt :: "os \<Rightarrow> int \<Rightarrow> string \<Rightarrow> int M" where
  "sys_setsockopt os fd opt =
     bind (sys_status (\<lambda>n. os_setsockopt os n fd opt)) (\<lambda>r.
     bind (emit (Ev_setsockopt fd opt r)) (\<lambda>_. ret r))"

definition sys_membership :: "os \<Rightarrow> int \<Rightarrow> string \<Rightarrow> mreq \<Rightarrow> int M" where
  "sys_membership os fd opt mr =
     bind (sys_status (\<lambda>n. os_setsockopt os n fd opt)) (\<lambda>r.
     bind (emit (Ev_membership fd opt mr r)) (\<lambda>_. ret r))"

definition sys_bind :: "os \<Rightarrow> int \<Rightarrow> saddr \<Rightarrow> int M" where
  "sys_bind os fd sa =
     bind (sys_status (\<lambda>n. os_bind os n fd sa)) (\<lambda>r.
     bind (emit (Ev_bind fd sa r)) (\<lambda>_. ret r))"

definition sys_listen :: "os \<Rightarrow> int \<Rightarrow> int M" where
  "sys_listen os fd =
     bind (sys_status (\<lambda>n. os_listen os n fd)) (\<lambda>r.
     bind (emit (Ev_listen fd r)) (\<lambda>_. ret r))"

definition sys_socket :: "os \<Rightarrow> int \<Rightarrow> int \<Rightarrow> int \<Rightarrow> int M" where
  "sys_socket os fam ty pr =
     bind (failing (\<lambda>n. os_socket os n fam ty pr)) (\<lambda>r.
     let fd = (case r of None \<Rightarrow> - 1 | Some fd \<Rightarrow> fd) in
     bind (emit (Ev_socket fam ty pr fd)) (\<lambda>_. ret fd))"

text \<open>
  \<open>recvfrom\<close> into a buffer of \<open>n\<close> bytes: a longer datagram is cut off at \<open>n\<close>.
\<close>

definition sys_recvfrom :: "os \<Rightarrow> int \<Rightarrow> nat \<Rightarrow> (byte list \<times> saddr) option M" where
  "sys_recvfrom os fd n =
     bind (failing (\<lambda>k. os_recvfrom os k fd)) (\<lambda>r.
     case r of
       None \<Rightarrow> bind (emit (Ev_recv fd (- 1))) (\<lambda>_. ret None)
     | Some (bs, sa) \<Rightarrow>
         bind (emit (Ev_recv fd (int (length (take n bs))))) (\<lambda>_. ret (Some (take n bs, sa))))"

text \<open>
  \<open>accept\<close> fixes what the peer will send: \<open>rx\<close> becomes its input. \<open>recv\<close> takes at most \<open>n\<close> bytes of
  the next segment and leaves the rest; at the end of the input it returns the empty list.
\<close>

definition sys_accept :: "os \<Rightarrow> int \<Rightarrow> (int \<times> saddr) option M" where
  "sys_accept os fd =
     bind (failing (\<lambda>k. os_accept os k fd)) (\<lambda>r.
     case r of
       None \<Rightarrow> bind (emit (Ev_accept fd (- 1))) (\<lambda>_. ret None)
     | Some (c, sa, items) \<Rightarrow>
         bind (emit (Ev_accept fd c)) (\<lambda>_.
         bind (modify (\<lambda>w. w\<lparr>rx := items\<rparr>)) (\<lambda>_. ret (Some (c, sa)))))"

fun rx_take :: "nat \<Rightarrow> rx_item list \<Rightarrow> (int + byte list) \<times> rx_item list" where
  "rx_take n [] = (Inr [], [])"
| "rx_take n (Rx_err e # items) = (Inl e, items)"
| "rx_take n (Seg bs # items) =
     (Inr (take n bs), if length bs \<le> n then items else Seg (drop n bs) # items)"

definition sys_recv :: "os \<Rightarrow> int \<Rightarrow> nat \<Rightarrow> byte list option M" where
  "sys_recv os fd n =
     bind (get (\<lambda>w. rx_take n (rx w))) (\<lambda>(r, items).
     bind (modify (\<lambda>w. w\<lparr>rx := items\<rparr>)) (\<lambda>_.
     case r of
       Inl e \<Rightarrow> bind (set_errno e) (\<lambda>_. bind (emit (Ev_recv fd (- 1))) (\<lambda>_. ret None))
     | Inr bs \<Rightarrow> bind (emit (Ev_recv fd (int (length bs)))) (\<lambda>_. ret (Some bs))))"

section \<open>Frames\<close>

text \<open>The trace only ever grows.\<close>

definition extends :: "world \<Rightarrow> world \<Rightarrow> bool" where
  "extends s t \<longleftrightarrow> prefix (trace s) (trace t)"

text \<open>The action list added between two states.\<close>

definition added :: "world \<Rightarrow> world \<Rightarrow> event list" where
  "added s t = drop (length (trace s)) (trace t)"

text \<open>Nothing visible happened, and nothing asked for a restart.\<close>

definition silent :: "world \<Rightarrow> world \<Rightarrow> bool" where
  "silent s t \<longleftrightarrow> trace t = trace s \<and> restart t = restart s"

text \<open>
  Only bookkeeping happened: call counter, error numbers and the random generator. Every other
  static, the input and the trace are as before.
\<close>

definition steady :: "world \<Rightarrow> world \<Rightarrow> bool" where
  "steady s t \<longleftrightarrow>
     trace t = trace s \<and> rx t = rx s \<and> wsd_instance t = wsd_instance s \<and>
     wsd_sequence t = wsd_sequence s \<and> wsd_endpoint t = wsd_endpoint s \<and> msg_no t = msg_no s \<and>
     netbiosname t = netbiosname s \<and> workgroup t = workgroup s \<and> hostname t = hostname s \<and>
     bootinfo t = bootinfo s \<and> getresp_inited t = getresp_inited s \<and>
     endpointlen t = endpointlen s \<and> restart t = restart s"

interpretation ext: frame extends
  by unfold_locales (auto simp: extends_def)

interpretation sil: frame silent
  by unfold_locales (auto simp: silent_def)

interpretation std: frame steady
  by unfold_locales (auto simp: steady_def)

lemma steadyD:
  assumes "steady s t"
  shows "trace t = trace s" "rx t = rx s" "wsd_instance t = wsd_instance s"
    "wsd_sequence t = wsd_sequence s" "wsd_endpoint t = wsd_endpoint s" "msg_no t = msg_no s"
    "netbiosname t = netbiosname s" "workgroup t = workgroup s" "hostname t = hostname s"
    "bootinfo t = bootinfo s" "getresp_inited t = getresp_inited s" "endpointlen t = endpointlen s"
    "restart t = restart s"
  using assms by (simp_all add: steady_def)

lemma silent_extends: "silent s t \<Longrightarrow> extends s t"
  by (simp add: silent_def extends_def)

lemma keeps_silent_extends: "keeps silent m \<Longrightarrow> keeps extends m"
  by (auto simp: keeps_def intro: silent_extends)

lemma sys_run [exec_simps]: "sys f w = Inr (f (calls w), w\<lparr>calls := Suc (calls w)\<rparr>)"
  by (simp add: sys_def)

text \<open>Updates of different fields in a fixed order, so that equal states are equal terms.\<close>

lemma world_order [exec_simps]:
  shows
    "calls_update f0 (errno_update f1 w) = errno_update f1 (calls_update f0 w)"
    "calls_update f0 (ep_errstr_update f2 w) = ep_errstr_update f2 (calls_update f0 w)"
    "calls_update f0 (ep_errno_update f3 w) = ep_errno_update f3 (calls_update f0 w)"
    "calls_update f0 (rx_update f4 w) = rx_update f4 (calls_update f0 w)"
    "calls_update f0 (wsd_instance_update f5 w) = wsd_instance_update f5 (calls_update f0 w)"
    "calls_update f0 (wsd_sequence_update f6 w) = wsd_sequence_update f6 (calls_update f0 w)"
    "calls_update f0 (wsd_endpoint_update f7 w) = wsd_endpoint_update f7 (calls_update f0 w)"
    "calls_update f0 (seeded_update f8 w) = seeded_update f8 (calls_update f0 w)"
    "calls_update f0 (rand48_update f9 w) = rand48_update f9 (calls_update f0 w)"
    "calls_update f0 (msg_no_update f10 w) = msg_no_update f10 (calls_update f0 w)"
    "calls_update f0 (netbiosname_update f11 w) = netbiosname_update f11 (calls_update f0 w)"
    "calls_update f0 (workgroup_update f12 w) = workgroup_update f12 (calls_update f0 w)"
    "calls_update f0 (hostname_update f13 w) = hostname_update f13 (calls_update f0 w)"
    "calls_update f0 (bootinfo_update f14 w) = bootinfo_update f14 (calls_update f0 w)"
    "calls_update f0 (getresp_inited_update f15 w) = getresp_inited_update f15 (calls_update f0 w)"
    "calls_update f0 (endpointlen_update f16 w) = endpointlen_update f16 (calls_update f0 w)"
    "calls_update f0 (restart_update f17 w) = restart_update f17 (calls_update f0 w)"
    "calls_update f0 (trace_update f18 w) = trace_update f18 (calls_update f0 w)"
    "errno_update f1 (ep_errstr_update f2 w) = ep_errstr_update f2 (errno_update f1 w)"
    "errno_update f1 (ep_errno_update f3 w) = ep_errno_update f3 (errno_update f1 w)"
    "errno_update f1 (rx_update f4 w) = rx_update f4 (errno_update f1 w)"
    "errno_update f1 (wsd_instance_update f5 w) = wsd_instance_update f5 (errno_update f1 w)"
    "errno_update f1 (wsd_sequence_update f6 w) = wsd_sequence_update f6 (errno_update f1 w)"
    "errno_update f1 (wsd_endpoint_update f7 w) = wsd_endpoint_update f7 (errno_update f1 w)"
    "errno_update f1 (seeded_update f8 w) = seeded_update f8 (errno_update f1 w)"
    "errno_update f1 (rand48_update f9 w) = rand48_update f9 (errno_update f1 w)"
    "errno_update f1 (msg_no_update f10 w) = msg_no_update f10 (errno_update f1 w)"
    "errno_update f1 (netbiosname_update f11 w) = netbiosname_update f11 (errno_update f1 w)"
    "errno_update f1 (workgroup_update f12 w) = workgroup_update f12 (errno_update f1 w)"
    "errno_update f1 (hostname_update f13 w) = hostname_update f13 (errno_update f1 w)"
    "errno_update f1 (bootinfo_update f14 w) = bootinfo_update f14 (errno_update f1 w)"
    "errno_update f1 (getresp_inited_update f15 w) = getresp_inited_update f15 (errno_update f1 w)"
    "errno_update f1 (endpointlen_update f16 w) = endpointlen_update f16 (errno_update f1 w)"
    "errno_update f1 (restart_update f17 w) = restart_update f17 (errno_update f1 w)"
    "errno_update f1 (trace_update f18 w) = trace_update f18 (errno_update f1 w)"
    "ep_errstr_update f2 (ep_errno_update f3 w) = ep_errno_update f3 (ep_errstr_update f2 w)"
    "ep_errstr_update f2 (rx_update f4 w) = rx_update f4 (ep_errstr_update f2 w)"
    "ep_errstr_update f2 (wsd_instance_update f5 w) = wsd_instance_update f5 (ep_errstr_update f2 w)"
    "ep_errstr_update f2 (wsd_sequence_update f6 w) = wsd_sequence_update f6 (ep_errstr_update f2 w)"
    "ep_errstr_update f2 (wsd_endpoint_update f7 w) = wsd_endpoint_update f7 (ep_errstr_update f2 w)"
    "ep_errstr_update f2 (seeded_update f8 w) = seeded_update f8 (ep_errstr_update f2 w)"
    "ep_errstr_update f2 (rand48_update f9 w) = rand48_update f9 (ep_errstr_update f2 w)"
    "ep_errstr_update f2 (msg_no_update f10 w) = msg_no_update f10 (ep_errstr_update f2 w)"
    "ep_errstr_update f2 (netbiosname_update f11 w) = netbiosname_update f11 (ep_errstr_update f2 w)"
    "ep_errstr_update f2 (workgroup_update f12 w) = workgroup_update f12 (ep_errstr_update f2 w)"
    "ep_errstr_update f2 (hostname_update f13 w) = hostname_update f13 (ep_errstr_update f2 w)"
    "ep_errstr_update f2 (bootinfo_update f14 w) = bootinfo_update f14 (ep_errstr_update f2 w)"
    "ep_errstr_update f2 (getresp_inited_update f15 w) = getresp_inited_update f15 (ep_errstr_update f2 w)"
    "ep_errstr_update f2 (endpointlen_update f16 w) = endpointlen_update f16 (ep_errstr_update f2 w)"
    "ep_errstr_update f2 (restart_update f17 w) = restart_update f17 (ep_errstr_update f2 w)"
    "ep_errstr_update f2 (trace_update f18 w) = trace_update f18 (ep_errstr_update f2 w)"
    "ep_errno_update f3 (rx_update f4 w) = rx_update f4 (ep_errno_update f3 w)"
    "ep_errno_update f3 (wsd_instance_update f5 w) = wsd_instance_update f5 (ep_errno_update f3 w)"
    "ep_errno_update f3 (wsd_sequence_update f6 w) = wsd_sequence_update f6 (ep_errno_update f3 w)"
    "ep_errno_update f3 (wsd_endpoint_update f7 w) = wsd_endpoint_update f7 (ep_errno_update f3 w)"
    "ep_errno_update f3 (seeded_update f8 w) = seeded_update f8 (ep_errno_update f3 w)"
    "ep_errno_update f3 (rand48_update f9 w) = rand48_update f9 (ep_errno_update f3 w)"
    "ep_errno_update f3 (msg_no_update f10 w) = msg_no_update f10 (ep_errno_update f3 w)"
    "ep_errno_update f3 (netbiosname_update f11 w) = netbiosname_update f11 (ep_errno_update f3 w)"
    "ep_errno_update f3 (workgroup_update f12 w) = workgroup_update f12 (ep_errno_update f3 w)"
    "ep_errno_update f3 (hostname_update f13 w) = hostname_update f13 (ep_errno_update f3 w)"
    "ep_errno_update f3 (bootinfo_update f14 w) = bootinfo_update f14 (ep_errno_update f3 w)"
    "ep_errno_update f3 (getresp_inited_update f15 w) = getresp_inited_update f15 (ep_errno_update f3 w)"
    "ep_errno_update f3 (endpointlen_update f16 w) = endpointlen_update f16 (ep_errno_update f3 w)"
    "ep_errno_update f3 (restart_update f17 w) = restart_update f17 (ep_errno_update f3 w)"
    "ep_errno_update f3 (trace_update f18 w) = trace_update f18 (ep_errno_update f3 w)"
    "rx_update f4 (wsd_instance_update f5 w) = wsd_instance_update f5 (rx_update f4 w)"
    "rx_update f4 (wsd_sequence_update f6 w) = wsd_sequence_update f6 (rx_update f4 w)"
    "rx_update f4 (wsd_endpoint_update f7 w) = wsd_endpoint_update f7 (rx_update f4 w)"
    "rx_update f4 (seeded_update f8 w) = seeded_update f8 (rx_update f4 w)"
    "rx_update f4 (rand48_update f9 w) = rand48_update f9 (rx_update f4 w)"
    "rx_update f4 (msg_no_update f10 w) = msg_no_update f10 (rx_update f4 w)"
    "rx_update f4 (netbiosname_update f11 w) = netbiosname_update f11 (rx_update f4 w)"
    "rx_update f4 (workgroup_update f12 w) = workgroup_update f12 (rx_update f4 w)"
    "rx_update f4 (hostname_update f13 w) = hostname_update f13 (rx_update f4 w)"
    "rx_update f4 (bootinfo_update f14 w) = bootinfo_update f14 (rx_update f4 w)"
    "rx_update f4 (getresp_inited_update f15 w) = getresp_inited_update f15 (rx_update f4 w)"
    "rx_update f4 (endpointlen_update f16 w) = endpointlen_update f16 (rx_update f4 w)"
    "rx_update f4 (restart_update f17 w) = restart_update f17 (rx_update f4 w)"
    "rx_update f4 (trace_update f18 w) = trace_update f18 (rx_update f4 w)"
    "wsd_instance_update f5 (wsd_sequence_update f6 w) = wsd_sequence_update f6 (wsd_instance_update f5 w)"
    "wsd_instance_update f5 (wsd_endpoint_update f7 w) = wsd_endpoint_update f7 (wsd_instance_update f5 w)"
    "wsd_instance_update f5 (seeded_update f8 w) = seeded_update f8 (wsd_instance_update f5 w)"
    "wsd_instance_update f5 (rand48_update f9 w) = rand48_update f9 (wsd_instance_update f5 w)"
    "wsd_instance_update f5 (msg_no_update f10 w) = msg_no_update f10 (wsd_instance_update f5 w)"
    "wsd_instance_update f5 (netbiosname_update f11 w) = netbiosname_update f11 (wsd_instance_update f5 w)"
    "wsd_instance_update f5 (workgroup_update f12 w) = workgroup_update f12 (wsd_instance_update f5 w)"
    "wsd_instance_update f5 (hostname_update f13 w) = hostname_update f13 (wsd_instance_update f5 w)"
    "wsd_instance_update f5 (bootinfo_update f14 w) = bootinfo_update f14 (wsd_instance_update f5 w)"
    "wsd_instance_update f5 (getresp_inited_update f15 w) = getresp_inited_update f15 (wsd_instance_update f5 w)"
    "wsd_instance_update f5 (endpointlen_update f16 w) = endpointlen_update f16 (wsd_instance_update f5 w)"
    "wsd_instance_update f5 (restart_update f17 w) = restart_update f17 (wsd_instance_update f5 w)"
    "wsd_instance_update f5 (trace_update f18 w) = trace_update f18 (wsd_instance_update f5 w)"
    "wsd_sequence_update f6 (wsd_endpoint_update f7 w) = wsd_endpoint_update f7 (wsd_sequence_update f6 w)"
    "wsd_sequence_update f6 (seeded_update f8 w) = seeded_update f8 (wsd_sequence_update f6 w)"
    "wsd_sequence_update f6 (rand48_update f9 w) = rand48_update f9 (wsd_sequence_update f6 w)"
    "wsd_sequence_update f6 (msg_no_update f10 w) = msg_no_update f10 (wsd_sequence_update f6 w)"
    "wsd_sequence_update f6 (netbiosname_update f11 w) = netbiosname_update f11 (wsd_sequence_update f6 w)"
    "wsd_sequence_update f6 (workgroup_update f12 w) = workgroup_update f12 (wsd_sequence_update f6 w)"
    "wsd_sequence_update f6 (hostname_update f13 w) = hostname_update f13 (wsd_sequence_update f6 w)"
    "wsd_sequence_update f6 (bootinfo_update f14 w) = bootinfo_update f14 (wsd_sequence_update f6 w)"
    "wsd_sequence_update f6 (getresp_inited_update f15 w) = getresp_inited_update f15 (wsd_sequence_update f6 w)"
    "wsd_sequence_update f6 (endpointlen_update f16 w) = endpointlen_update f16 (wsd_sequence_update f6 w)"
    "wsd_sequence_update f6 (restart_update f17 w) = restart_update f17 (wsd_sequence_update f6 w)"
    "wsd_sequence_update f6 (trace_update f18 w) = trace_update f18 (wsd_sequence_update f6 w)"
    "wsd_endpoint_update f7 (seeded_update f8 w) = seeded_update f8 (wsd_endpoint_update f7 w)"
    "wsd_endpoint_update f7 (rand48_update f9 w) = rand48_update f9 (wsd_endpoint_update f7 w)"
    "wsd_endpoint_update f7 (msg_no_update f10 w) = msg_no_update f10 (wsd_endpoint_update f7 w)"
    "wsd_endpoint_update f7 (netbiosname_update f11 w) = netbiosname_update f11 (wsd_endpoint_update f7 w)"
    "wsd_endpoint_update f7 (workgroup_update f12 w) = workgroup_update f12 (wsd_endpoint_update f7 w)"
    "wsd_endpoint_update f7 (hostname_update f13 w) = hostname_update f13 (wsd_endpoint_update f7 w)"
    "wsd_endpoint_update f7 (bootinfo_update f14 w) = bootinfo_update f14 (wsd_endpoint_update f7 w)"
    "wsd_endpoint_update f7 (getresp_inited_update f15 w) = getresp_inited_update f15 (wsd_endpoint_update f7 w)"
    "wsd_endpoint_update f7 (endpointlen_update f16 w) = endpointlen_update f16 (wsd_endpoint_update f7 w)"
    "wsd_endpoint_update f7 (restart_update f17 w) = restart_update f17 (wsd_endpoint_update f7 w)"
    "wsd_endpoint_update f7 (trace_update f18 w) = trace_update f18 (wsd_endpoint_update f7 w)"
    "seeded_update f8 (rand48_update f9 w) = rand48_update f9 (seeded_update f8 w)"
    "seeded_update f8 (msg_no_update f10 w) = msg_no_update f10 (seeded_update f8 w)"
    "seeded_update f8 (netbiosname_update f11 w) = netbiosname_update f11 (seeded_update f8 w)"
    "seeded_update f8 (workgroup_update f12 w) = workgroup_update f12 (seeded_update f8 w)"
    "seeded_update f8 (hostname_update f13 w) = hostname_update f13 (seeded_update f8 w)"
    "seeded_update f8 (bootinfo_update f14 w) = bootinfo_update f14 (seeded_update f8 w)"
    "seeded_update f8 (getresp_inited_update f15 w) = getresp_inited_update f15 (seeded_update f8 w)"
    "seeded_update f8 (endpointlen_update f16 w) = endpointlen_update f16 (seeded_update f8 w)"
    "seeded_update f8 (restart_update f17 w) = restart_update f17 (seeded_update f8 w)"
    "seeded_update f8 (trace_update f18 w) = trace_update f18 (seeded_update f8 w)"
    "rand48_update f9 (msg_no_update f10 w) = msg_no_update f10 (rand48_update f9 w)"
    "rand48_update f9 (netbiosname_update f11 w) = netbiosname_update f11 (rand48_update f9 w)"
    "rand48_update f9 (workgroup_update f12 w) = workgroup_update f12 (rand48_update f9 w)"
    "rand48_update f9 (hostname_update f13 w) = hostname_update f13 (rand48_update f9 w)"
    "rand48_update f9 (bootinfo_update f14 w) = bootinfo_update f14 (rand48_update f9 w)"
    "rand48_update f9 (getresp_inited_update f15 w) = getresp_inited_update f15 (rand48_update f9 w)"
    "rand48_update f9 (endpointlen_update f16 w) = endpointlen_update f16 (rand48_update f9 w)"
    "rand48_update f9 (restart_update f17 w) = restart_update f17 (rand48_update f9 w)"
    "rand48_update f9 (trace_update f18 w) = trace_update f18 (rand48_update f9 w)"
    "msg_no_update f10 (netbiosname_update f11 w) = netbiosname_update f11 (msg_no_update f10 w)"
    "msg_no_update f10 (workgroup_update f12 w) = workgroup_update f12 (msg_no_update f10 w)"
    "msg_no_update f10 (hostname_update f13 w) = hostname_update f13 (msg_no_update f10 w)"
    "msg_no_update f10 (bootinfo_update f14 w) = bootinfo_update f14 (msg_no_update f10 w)"
    "msg_no_update f10 (getresp_inited_update f15 w) = getresp_inited_update f15 (msg_no_update f10 w)"
    "msg_no_update f10 (endpointlen_update f16 w) = endpointlen_update f16 (msg_no_update f10 w)"
    "msg_no_update f10 (restart_update f17 w) = restart_update f17 (msg_no_update f10 w)"
    "msg_no_update f10 (trace_update f18 w) = trace_update f18 (msg_no_update f10 w)"
    "netbiosname_update f11 (workgroup_update f12 w) = workgroup_update f12 (netbiosname_update f11 w)"
    "netbiosname_update f11 (hostname_update f13 w) = hostname_update f13 (netbiosname_update f11 w)"
    "netbiosname_update f11 (bootinfo_update f14 w) = bootinfo_update f14 (netbiosname_update f11 w)"
    "netbiosname_update f11 (getresp_inited_update f15 w) = getresp_inited_update f15 (netbiosname_update f11 w)"
    "netbiosname_update f11 (endpointlen_update f16 w) = endpointlen_update f16 (netbiosname_update f11 w)"
    "netbiosname_update f11 (restart_update f17 w) = restart_update f17 (netbiosname_update f11 w)"
    "netbiosname_update f11 (trace_update f18 w) = trace_update f18 (netbiosname_update f11 w)"
    "workgroup_update f12 (hostname_update f13 w) = hostname_update f13 (workgroup_update f12 w)"
    "workgroup_update f12 (bootinfo_update f14 w) = bootinfo_update f14 (workgroup_update f12 w)"
    "workgroup_update f12 (getresp_inited_update f15 w) = getresp_inited_update f15 (workgroup_update f12 w)"
    "workgroup_update f12 (endpointlen_update f16 w) = endpointlen_update f16 (workgroup_update f12 w)"
    "workgroup_update f12 (restart_update f17 w) = restart_update f17 (workgroup_update f12 w)"
    "workgroup_update f12 (trace_update f18 w) = trace_update f18 (workgroup_update f12 w)"
    "hostname_update f13 (bootinfo_update f14 w) = bootinfo_update f14 (hostname_update f13 w)"
    "hostname_update f13 (getresp_inited_update f15 w) = getresp_inited_update f15 (hostname_update f13 w)"
    "hostname_update f13 (endpointlen_update f16 w) = endpointlen_update f16 (hostname_update f13 w)"
    "hostname_update f13 (restart_update f17 w) = restart_update f17 (hostname_update f13 w)"
    "hostname_update f13 (trace_update f18 w) = trace_update f18 (hostname_update f13 w)"
    "bootinfo_update f14 (getresp_inited_update f15 w) = getresp_inited_update f15 (bootinfo_update f14 w)"
    "bootinfo_update f14 (endpointlen_update f16 w) = endpointlen_update f16 (bootinfo_update f14 w)"
    "bootinfo_update f14 (restart_update f17 w) = restart_update f17 (bootinfo_update f14 w)"
    "bootinfo_update f14 (trace_update f18 w) = trace_update f18 (bootinfo_update f14 w)"
    "getresp_inited_update f15 (endpointlen_update f16 w) = endpointlen_update f16 (getresp_inited_update f15 w)"
    "getresp_inited_update f15 (restart_update f17 w) = restart_update f17 (getresp_inited_update f15 w)"
    "getresp_inited_update f15 (trace_update f18 w) = trace_update f18 (getresp_inited_update f15 w)"
    "endpointlen_update f16 (restart_update f17 w) = restart_update f17 (endpointlen_update f16 w)"
    "endpointlen_update f16 (trace_update f18 w) = trace_update f18 (endpointlen_update f16 w)"
    "restart_update f17 (trace_update f18 w) = trace_update f18 (restart_update f17 w)"
  by simp_all

lemma emit_run [exec_simps]: "emit e w = Inr ((), w\<lparr>trace := trace w @ [e]\<rparr>)"
  by (simp add: emit_def modify_def)

lemma set_errno_run [exec_simps]: "set_errno e w = Inr ((), w\<lparr>errno := e\<rparr>)"
  by (simp add: set_errno_def modify_def)

lemma set_err_run [exec_simps]:
  "set_err s w = Inr ((), w\<lparr>ep_errstr := Some s, ep_errno := errno w\<rparr>)"
  by (simp add: set_err_def modify_def)

lemma set_errstr_run [exec_simps]: "set_errstr s w = Inr ((), w\<lparr>ep_errstr := Some s\<rparr>)"
  by (simp add: set_errstr_def modify_def)

lemma runs_sys [simp]: "runs (sys f) w Q = Q (f (calls w)) (w\<lparr>calls := Suc (calls w)\<rparr>)"
  by (simp add: runs_def sys_def)

lemma silent_sys [frame_rules]: "keeps silent (sys f)"
  by (simp add: keeps_def sys_def silent_def)

lemma silent_set_errno [frame_rules]: "keeps silent (set_errno e)"
  by (simp add: keeps_def set_errno_def modify_def silent_def)

lemma silent_set_err [frame_rules]: "keeps silent (set_err s)"
  by (simp add: keeps_def set_err_def modify_def silent_def)

lemma silent_set_errstr [frame_rules]: "keeps silent (set_errstr s)"
  by (simp add: keeps_def set_errstr_def modify_def silent_def)

lemma silent_alloc [frame_rules]: "keeps silent (alloc os)"
  unfolding alloc_def by (intro sil.keeps_intros frame_rules)

lemma silent_failing [frame_rules]: "keeps silent (failing f)"
  unfolding failing_def by (intro sil.keeps_intros frame_rules)

lemma steady_sys: "keeps steady (sys f)"
  by (simp add: keeps_def sys_def steady_def)

lemma steady_set_errno: "keeps steady (set_errno e)"
  by (simp add: keeps_def set_errno_def modify_def steady_def)

lemma steady_set_err: "keeps steady (set_err s)"
  by (simp add: keeps_def set_err_def modify_def steady_def)

lemma steady_set_errstr: "keeps steady (set_errstr s)"
  by (simp add: keeps_def set_errstr_def modify_def steady_def)

lemmas steady_basic = steady_sys steady_set_errno steady_set_err steady_set_errstr

lemma steady_alloc: "keeps steady (alloc os)"
  unfolding alloc_def by (intro std.keeps_intros steady_basic)

lemma steady_failing: "keeps steady (failing f)"
  unfolding failing_def by (intro std.keeps_intros steady_basic)

lemmas steady_rules = steady_basic steady_alloc steady_failing

lemma safe_sys [safe_rules]: "safe (sys f)"
  by (simp add: safe_def sys_def)

lemma safe_emit [safe_rules]: "safe (emit e)"
  unfolding emit_def by (rule safe_rules)

lemma safe_set_errno [safe_rules]: "safe (set_errno e)"
  unfolding set_errno_def by (rule safe_rules)

lemma safe_set_err [safe_rules]: "safe (set_err s)"
  unfolding set_err_def by (rule safe_rules)

lemma safe_set_errstr [safe_rules]: "safe (set_errstr s)"
  unfolding set_errstr_def by (rule safe_rules)

lemma safe_alloc [safe_rules]: "safe (alloc os)"
  unfolding alloc_def by (intro safe_branches safe_rules)

lemma safe_failing [safe_rules]: "safe (failing f)"
  unfolding failing_def by (intro safe_branches safe_rules)

lemma safe_sys_sendto [safe_rules]: "safe (sys_sendto os fd bs sa)"
  unfolding sys_sendto_def by (intro safe_branches safe_rules)

lemma safe_sys_send [safe_rules]: "safe (sys_send os fd bs)"
  unfolding sys_send_def by (intro safe_branches safe_rules)

lemma safe_sys_close [safe_rules]: "safe (sys_close fd)"
  unfolding sys_close_def by (rule safe_rules)

lemma safe_sys_recvfrom [safe_rules]: "safe (sys_recvfrom os fd n)"
  unfolding sys_recvfrom_def by (intro safe_branches safe_rules)

lemma safe_sys_accept [safe_rules]: "safe (sys_accept os fd)"
  unfolding sys_accept_def by (intro safe_branches safe_rules)

lemma safe_sys_recv [safe_rules]: "safe (sys_recv os fd n)"
  unfolding sys_recv_def by (intro safe_branches safe_rules)

lemma sys_status_run [exec_simps]:
  "sys_status f w = Inr (if f (calls w) = 0 then 0 else - 1,
    w\<lparr>calls := Suc (calls w), errno := if f (calls w) = 0 then errno w else f (calls w)\<rparr>)"
  by (simp add: sys_status_def bind_run sys_run set_errno_run ret_run)

lemma safe_sys_status [safe_rules]: "safe (sys_status f)"
  unfolding sys_status_def by (intro safe_branches safe_rules)

lemma silent_sys_status [frame_rules]: "keeps silent (sys_status f)"
  unfolding sys_status_def by (intro sil.keeps_intros frame_rules)

lemma safe_sock_calls [safe_rules]:
  "safe (sys_setsockopt os fd opt)" "safe (sys_membership os fd opt mr)" "safe (sys_bind os fd sa)"
  "safe (sys_listen os fd)" "safe (sys_socket os fam ty pr)"
  unfolding sys_setsockopt_def sys_membership_def sys_bind_def sys_listen_def sys_socket_def Let_def
  by (intro safe_branches safe_rules)+

lemma extends_emit: "keeps extends (emit e)"
  by (simp add: keeps_def emit_def modify_def extends_def)

lemma sys_recvfrom_run:
  assumes "os_recvfrom os (calls w) fd = Inr (d, sa)" and "length d \<le> n"
  shows "sys_recvfrom os fd n w = Inr (Some (d, sa),
    w\<lparr>calls := Suc (calls w), trace := trace w @ [Ev_recv fd (int (length d))]\<rparr>)"
  using assms by (simp add: sys_recvfrom_def failing_def exec_simps)

lemma sys_sendto_trace:
  "runs (sys_sendto os fd bs sa) w (\<lambda>r t. trace t = trace w @ [Ev_sendto fd bs sa])"
  by (auto simp: runs_def sys_sendto_def failing_def exec_simps split: sum.splits)

text \<open>Memory never runs out: the hypothesis of the theorems about successful answers.\<close>

definition mem_ok :: "os \<Rightarrow> bool" where
  "mem_ok os \<longleftrightarrow> (\<forall>n. os_alloc os n)"

lemma alloc_ok: "mem_ok os \<Longrightarrow> alloc os w = Inr (True, w\<lparr>calls := Suc (calls w)\<rparr>)"
  by (simp add: alloc_def mem_ok_def bind_def sys_def ret_def)

section \<open>A concrete surrounding\<close>

text \<open>
  The state at program start (all statics zero), and an operating system in which memory is
  plentiful, nothing arrives and every call that can fail does. The closed examples of the
  development change the fields they need.
\<close>

definition zero_world :: world where
  "zero_world = \<lparr>calls = 0, trace = [], errno = 0, ep_errstr = None, ep_errno = 0, rx = [],
     wsd_instance = 0, wsd_sequence = [], wsd_endpoint = [], seeded = False, rand48 = 0, msg_no = 0,
     netbiosname = None, workgroup = None, hostname = [], bootinfo = [], getresp_inited = False,
     endpointlen = 0, restart = 0\<rparr>"

definition quiet_os :: os where
  "quiet_os = \<lparr>os_alloc = (\<lambda>n. True), os_stack = (\<lambda>n i. 0), os_time = (\<lambda>n. 1),
     os_random = (\<lambda>n. 0), os_http_date = (\<lambda>n. ''Thu, 01 Jan 1970 00:00:01 GMT''),
     os_file = (\<lambda>n f. Inl 2), os_popen = (\<lambda>n c. Inl 2), os_gethostname = (\<lambda>n. Inl EINVAL),
     os_getifaddrs = (\<lambda>n. Inl ENOMEM), os_recvfrom = (\<lambda>n fd. Inl 11), os_accept = (\<lambda>n fd. Inl 11),
     os_send = (\<lambda>n fd bs. Inr (length bs)), os_sendto = (\<lambda>n fd bs sa. Inr (length bs)),
     os_getservbyname = (\<lambda>n s p. None), os_if_nametoindex = (\<lambda>n i. 0),
     os_socket = (\<lambda>n f t p. Inl EINVAL), os_setsockopt = (\<lambda>n fd opt. 0),
     os_bind = (\<lambda>n fd sa. 0), os_listen = (\<lambda>n fd. 0),
     os_sigaction = (\<lambda>n sig. 0), os_fork = (\<lambda>n. Inl ENOMEM), os_select = (\<lambda>n fds. Inl EINVAL)\<rparr>"

text \<open>An IPv4 interface with a 24-bit netmask, a peer on its link, and a socket.\<close>

definition eth0 :: ifaddrs where
  "eth0 = \<lparr>ifa_name = ''eth0'', ifa_flags = 0x1003,
     ifa_addr = Some \<lparr>ss_family = AF_INET, sin_port = 0, sin_addr = [192, 168, 1, 10]\<rparr>,
     ifa_netmask = Some \<lparr>ss_family = AF_INET, sin_port = 0, sin_addr = [255, 255, 255, 0]\<rparr>\<rparr>"

definition peer :: saddr where
  "peer = \<lparr>ss_family = AF_INET, sin_port = 0x1234, sin_addr = [192, 168, 1, 20]\<rparr>"

definition lan_os :: os where
  "lan_os = quiet_os\<lparr>os_getifaddrs := (\<lambda>n. Inr [eth0]), os_gethostname := (\<lambda>n. Inr ''nas'')\<rparr>"

definition plain_service :: service where
  "plain_service = \<lparr>name = ''llmnr-mcast-v4'', sv_family = AF_INET, sv_type = SOCK_DGRAM,
     sv_protocol = 0, port_name = Some ''llmnr'', port_num = 5355, mcast_addr = Some ''224.0.0.252'',
     nl_groups = 0, sv_init = Some Llmnr_init, sv_recv = Some Llmnr_recv, sv_exit = Some Llmnr_exit\<rparr>"

definition udp_ep :: endpoint where
  "udp_ep = \<lparr>ifname = ''eth0'', service = plain_service, family = AF_INET, type = SOCK_DGRAM,
     protocol = 0, port = 5355, sock = 7, mlen = 16, llen = 16,
     mcast = \<lparr>ss_family = AF_INET, sin_port = 0, sin_addr = [224, 0, 0, 252]\<rparr>,
     local = \<lparr>ss_family = AF_INET, sin_port = 0, sin_addr = [0, 0, 0, 0]\<rparr>,
     mreq = Ip_mreq [224, 0, 0, 252] [192, 168, 1, 10], mreqlen = 8\<rparr>"

lemma mem_ok_lan [simp]: "mem_ok lan_os"
  by (simp add: mem_ok_def lan_os_def quiet_os_def)

end
