(* ===== verification/Netif.thy ===== *)
theory Netif
  imports World
begin

text \<open>
  Interfaces and addresses: \<open>connected_if\<close> and \<open>ip2uri\<close> of wsdd2.c, and the library function
  \<open>inet_ntop\<close>. \<open>connected_if\<close> finds the local address a peer can reach us under; every responder
  relies on it through the locale \<open>onlink_lookup\<close>.
\<close>

unbundle bit_operations_syntax

section \<open>Subnets\<close>

text \<open>
  The comparison loop of \<open>connected_if\<close>: 0 when interface and peer agree under the netmask, -1 at
  the first byte where they differ.
\<close>

fun subnet_rv :: "byte list \<Rightarrow> byte list \<Rightarrow> byte list \<Rightarrow> int" where
  "subnet_rv (i # is) (n # ns) (s # ss) = (if i AND n \<noteq> s AND n then - 1 else subnet_rv is ns ss)"
| "subnet_rv _ _ _ = 0"

definition masked :: "byte list \<Rightarrow> byte list \<Rightarrow> byte list" where
  "masked nm addr = map2 (AND) nm addr"

lemma subnet_rv_cases: "subnet_rv i n s = 0 \<or> subnet_rv i n s = - 1"
  by (induction i n s rule: subnet_rv.induct) auto

lemma subnet_rv_iff:
  "length i = length n \<Longrightarrow> length s = length n \<Longrightarrow> subnet_rv i n s = 0 \<longleftrightarrow> masked n i = masked n s"
proof (induction i n s rule: subnet_rv.induct)
  case (1 i "is" n ns s ss)
  then show ?case by (auto simp: masked_def and.commute)
qed (auto simp: masked_def)

section \<open>The search for the connected interface\<close>

fun connected_if_loop ::
    "saddr \<Rightarrow> ifaddrs list \<Rightarrow> int \<Rightarrow> saddr \<Rightarrow> fault + (int \<times> saddr)" where
  "connected_if_loop sa [] rv ci = Inr (rv, ci)"
| "connected_if_loop sa (ifa # ifas) rv ci =
     (case ifa_addr ifa of
        None \<Rightarrow> connected_if_loop sa ifas rv ci
      | Some a \<Rightarrow>
          if ss_family sa \<noteq> ss_family a then connected_if_loop sa ifas rv ci
          else if ss_family sa = AF_INET \<or> ss_family sa = AF_INET6 then
            (case ifa_netmask ifa of
               None \<Rightarrow> Inl NullDeref
             | Some nm \<Rightarrow>
                 let rv' = subnet_rv (sin_addr a) (sin_addr nm) (sin_addr sa) in
                 if rv' = 0 then Inr (rv', ci\<lparr>sin_addr := sin_addr a\<rparr>)
                 else connected_if_loop sa ifas rv' ci)
          else connected_if_loop sa ifas rv ci)"

definition connected_if :: "os \<Rightarrow> saddr \<Rightarrow> (int \<times> saddr) M" where
  "connected_if os sa =
     (let ci = \<lparr>ss_family = ss_family sa, sin_port = 0, sin_addr = []\<rparr> in
      bind (failing (os_getifaddrs os)) (\<lambda>r. case r of
        None \<Rightarrow> ret (- 1, ci)
      | Some ifas \<Rightarrow>
          (case connected_if_loop sa ifas (- 1) ci of
             Inl f \<Rightarrow> crash f
           | Inr (rv, ci') \<Rightarrow> bind (set_errno EADDRNOTAVAIL) (\<lambda>_. ret (rv, ci')))))"

text \<open>
  Specification: the first interface of the peer's family whose subnet holds the peer. Interfaces
  without a netmask are what the code cannot handle.
\<close>

definition on_link :: "saddr \<Rightarrow> ifaddrs \<Rightarrow> bool" where
  "on_link sa ifa \<longleftrightarrow> (case (ifa_addr ifa, ifa_netmask ifa) of
       (Some a, Some nm) \<Rightarrow>
         ss_family a = ss_family sa \<and> (ss_family sa = AF_INET \<or> ss_family sa = AF_INET6) \<and>
         masked (sin_addr nm) (sin_addr a) = masked (sin_addr nm) (sin_addr sa)
     | _ \<Rightarrow> False)"

definition wf_ifaddrs :: "ifaddrs \<Rightarrow> bool" where
  "wf_ifaddrs ifa \<longleftrightarrow> (case ifa_addr ifa of
       None \<Rightarrow> True
     | Some a \<Rightarrow> wf_saddr a \<and>
         (ss_family a = AF_INET \<or> ss_family a = AF_INET6 \<longrightarrow>
          (case ifa_netmask ifa of
             None \<Rightarrow> False
           | Some nm \<Rightarrow> length (sin_addr nm) = addr_size (ss_family a))))"

definition if_bytes :: "ifaddrs \<Rightarrow> byte list" where
  "if_bytes ifa = (case ifa_addr ifa of None \<Rightarrow> [] | Some a \<Rightarrow> sin_addr a)"

lemma connected_if_loop_find:
  assumes "wf_saddr sa" and "\<And>ifa. ifa \<in> set ifas \<Longrightarrow> wf_ifaddrs ifa"
  shows "connected_if_loop sa ifas (- 1) ci = (case find (on_link sa) ifas of
      None \<Rightarrow> Inr (- 1, ci)
    | Some ifa \<Rightarrow> Inr (0, ci\<lparr>sin_addr := if_bytes ifa\<rparr>))"
  using assms(2)
proof (induction ifas)
  case (Cons ifa ifas)
  have IH: "connected_if_loop sa ifas (- 1) ci = (case find (on_link sa) ifas of
      None \<Rightarrow> Inr (- 1, ci) | Some ifa \<Rightarrow> Inr (0, ci\<lparr>sin_addr := if_bytes ifa\<rparr>))"
    using Cons by simp
  have wf: "wf_ifaddrs ifa" using Cons.prems by simp
  show ?case
  proof (cases "ifa_addr ifa")
    case None
    then have "\<not> on_link sa ifa" by (simp add: on_link_def)
    with IH None show ?thesis by simp
  next
    case (Some a)
    show ?thesis
    proof (cases "ss_family a = ss_family sa \<and> (ss_family sa = AF_INET \<or> ss_family sa = AF_INET6)")
      case False
      with Some have "\<not> on_link sa ifa" by (auto simp: on_link_def split: option.splits)
      with Some False IH show ?thesis by auto
    next
      case True
      with Some wf obtain nm where nm: "ifa_netmask ifa = Some nm"
        and len: "length (sin_addr nm) = addr_size (ss_family sa)"
        by (auto simp: wf_ifaddrs_def split: option.splits)
      have len2: "length (sin_addr a) = length (sin_addr nm)"
                 "length (sin_addr sa) = length (sin_addr nm)"
        using Some True wf len assms(1) by (auto simp: wf_ifaddrs_def wf_saddr_def)
      have rv: "subnet_rv (sin_addr a) (sin_addr nm) (sin_addr sa) = 0 \<longleftrightarrow> on_link sa ifa"
        using subnet_rv_iff [OF len2] Some nm True by (simp add: on_link_def)
      show ?thesis
        using Some nm True rv IH subnet_rv_cases [of "sin_addr a" "sin_addr nm" "sin_addr sa"]
        by (auto simp: Let_def if_bytes_def)
    qed
  qed
qed simp

text \<open>
  What a run of \<open>connected_if\<close> is: the interface list of the moment, the first interface on the
  peer's link, and \<open>errno\<close> left at \<open>EADDRNOTAVAIL\<close> even on success.
\<close>

lemma connected_if_run:
  assumes "wf_saddr sa" and "os_getifaddrs os (calls w) = Inr ifas"
    and "\<And>ifa. ifa \<in> set ifas \<Longrightarrow> wf_ifaddrs ifa"
  shows "connected_if os sa w = Inr (
      (case find (on_link sa) ifas of
         None \<Rightarrow> (- 1, \<lparr>ss_family = ss_family sa, sin_port = 0, sin_addr = []\<rparr>)
       | Some ifa \<Rightarrow> (0, \<lparr>ss_family = ss_family sa, sin_port = 0, sin_addr = if_bytes ifa\<rparr>)),
      w\<lparr>calls := Suc (calls w), errno := EADDRNOTAVAIL\<rparr>)"
  using assms(2)
  by (auto simp: connected_if_def failing_def bind_def sys_def ret_def set_errno_def modify_def
      Let_def connected_if_loop_find [OF assms(1,3)] split: option.splits)

lemma silent_connected_if [frame_rules]: "keeps silent (connected_if os sa)"
  unfolding connected_if_def Let_def
  by (intro sil.keeps_intros frame_rules)

text \<open>Every interface the kernel ever reports has a netmask of the right size.\<close>

definition ifs_ok :: "os \<Rightarrow> bool" where
  "ifs_ok os \<longleftrightarrow> (\<forall>n ifas. os_getifaddrs os n = Inr ifas \<longrightarrow> (\<forall>ifa\<in>set ifas. wf_ifaddrs ifa))"

lemma connected_if_loop_safe:
  "\<forall>ifa\<in>set ifas. wf_ifaddrs ifa \<Longrightarrow> connected_if_loop sa ifas rv ci \<noteq> Inl f"
proof (induction ifas arbitrary: rv)
  case (Cons ifa ifas)
  then have "wf_ifaddrs ifa" and IH: "\<And>rv. connected_if_loop sa ifas rv ci \<noteq> Inl f" by simp_all
  then show ?case
    by (auto simp: wf_ifaddrs_def Let_def split: option.splits if_splits)
qed simp

lemma safe_connected_if:
  assumes "ifs_ok os"
  shows "safe (connected_if os sa)"
  unfolding connected_if_def Let_def
proof (intro safe_branches safe_rules)
  fix r s t ifas f
  assume "failing (os_getifaddrs os) s = Inr (r, t)" "r = Some ifas"
  then have "os_getifaddrs os (calls s) = Inr ifas"
    by (auto simp: failing_def exec_simps split: sum.splits)
  moreover assume "connected_if_loop sa ifas (- 1) \<lparr>ss_family = ss_family sa, sin_port = 0,
      sin_addr = []\<rparr> = Inl f"
  ultimately show "safe (crash f)"
    using assms connected_if_loop_safe by (fastforce simp: ifs_ok_def)
qed

lemma find_on_link:
  assumes "find (on_link sa) ifas = Some ifa"
  shows "ifa \<in> set ifas" and "on_link sa ifa"
  using assms by (auto simp: find_Some_iff)

text \<open>
  The interface the responders rely on: a lookup that changes nothing visible and, when it
  succeeds, names the address of an interface of ours on the link of the peer. Whatever a
  responder does after a successful lookup, it does with such an address.
\<close>

locale onlink_lookup =
  fixes lookup :: "os \<Rightarrow> saddr \<Rightarrow> (int \<times> saddr) M"
  assumes lookup_silent: "keeps silent (lookup os sa)"
    and lookup_onlink: "lookup os sa w = Inr ((0, ci), w') \<Longrightarrow> wf_saddr sa \<Longrightarrow>
      os_getifaddrs os (calls w) = Inr ifas \<Longrightarrow> (\<And>ifa. ifa \<in> set ifas \<Longrightarrow> wf_ifaddrs ifa) \<Longrightarrow>
      \<exists>ifa\<in>set ifas. on_link sa ifa \<and> sin_addr ci = if_bytes ifa"
    and lookup_family: "lookup os sa w = Inr ((rv, ci), w') \<Longrightarrow> ss_family ci = ss_family sa"
begin

end

interpretation conn: onlink_lookup connected_if
proof
  fix os sa and w w' :: world and ci ifas
  assume run: "connected_if os sa w = Inr ((0, ci), w')" and wf: "wf_saddr sa"
    and ifs: "os_getifaddrs os (calls w) = Inr ifas"
    and wfs: "\<And>ifa. ifa \<in> set ifas \<Longrightarrow> wf_ifaddrs ifa"
  from connected_if_run [OF wf ifs wfs] run
  show "\<exists>ifa\<in>set ifas. on_link sa ifa \<and> sin_addr ci = if_bytes ifa"
    by (auto split: option.splits dest: find_on_link)
next
  fix os sa and w w' :: world and ci rv
  have loop: "connected_if_loop sa ifas r c = Inr (rv, ci) \<Longrightarrow> ss_family ci = ss_family c"
    for ifas r c
    by (induction ifas arbitrary: r) (auto simp: Let_def split: option.splits if_splits)
  assume "connected_if os sa w = Inr ((rv, ci), w')"
  then show "ss_family ci = ss_family sa"
    apply (clarsimp simp: connected_if_def bind_eq_Inr Let_def)
    apply (auto simp: ret_def crash_def bind_eq_Inr dest!: loop
        split: option.splits sum.splits prod.splits)
    done
qed (rule frame_rules)

section \<open>Addresses as text\<close>

text \<open>
  \<open>inet_ntop\<close> of the C library: dotted decimal for IPv4; for IPv6 the eight groups in hexadecimal,
  with the first of the longest runs of two or more zero groups written \<open>::\<close>, and the last four bytes
  dotted in the compatible and mapped addresses.
\<close>

definition EAFNOSUPPORT :: int where "EAFNOSUPPORT = 97"

fun join :: "string \<Rightarrow> string list \<Rightarrow> string" where
  "join sep [] = []"
| "join sep [x] = x"
| "join sep (x # y # zs) = x @ sep @ join sep (y # zs)"

definition ntop4 :: "byte list \<Rightarrow> string" where
  "ntop4 bs = join ''.'' (map (\<lambda>b. dec (unat b)) bs)"

fun groups6 :: "byte list \<Rightarrow> nat list" where
  "groups6 (hi # lo # bs) = (unat hi * 256 + unat lo) # groups6 bs"
| "groups6 _ = []"

definition zero_run :: "nat list \<Rightarrow> nat \<Rightarrow> nat" where
  "zero_run gs i = length (takeWhile (\<lambda>g. g = 0) (drop i gs))"

definition best_run :: "nat list \<Rightarrow> (nat \<times> nat) option" where
  "best_run gs = (let longest = foldr max (map (zero_run gs) [0..<length gs]) 0 in
     if longest < 2 then None
     else map_option (\<lambda>i. (i, longest)) (find (\<lambda>i. zero_run gs i = longest) [0..<length gs]))"

definition ntop6 :: "byte list \<Rightarrow> string" where
  "ntop6 bs = (let gs = groups6 bs in case best_run gs of
       None \<Rightarrow> join '':'' (map hex gs)
     | Some (i, n) \<Rightarrow>
         if i = 0 \<and> n = 6 then ''::'' @ ntop4 (drop 12 bs)
         else if i = 0 \<and> n = 5 \<and> gs ! 5 = 0xFFFF then ''::ffff:'' @ ntop4 (drop 12 bs)
         else join '':'' (map hex (take i gs)) @ ''::'' @ join '':'' (map hex (drop (i + n) gs)))"

definition inet_ntop :: "int \<Rightarrow> byte list \<Rightarrow> string option M" where
  "inet_ntop fam bs =
     (if fam = AF_INET then ret (Some (ntop4 bs))
      else if fam = AF_INET6 then ret (Some (ntop6 bs))
      else bind (set_errno EAFNOSUPPORT) (\<lambda>_. ret None))"

definition strdup :: "os \<Rightarrow> string \<Rightarrow> string option M" where
  "strdup os s = bind (alloc os) (\<lambda>ok. ret (if ok then Some s else None))"

text \<open>An IPv6 address is replaced by the host name (Windows does not take the bracket notation).\<close>

definition ip2uri :: "os \<Rightarrow> string \<Rightarrow> string option M" where
  "ip2uri os ip =
     (if (ip \<noteq> [] \<and> hd ip = CHR ''['') \<or> CHR '':'' \<notin> set ip then strdup os ip
      else bind (failing (os_gethostname os)) (\<lambda>h. case h of
        None \<Rightarrow> ret None
      | Some nm \<Rightarrow> strdup os (upto_NUL nm)))"

lemma safe_strdup [safe_rules]: "safe (strdup os s)"
  unfolding strdup_def by (intro safe_branches safe_rules)

lemma silent_strdup [frame_rules]: "keeps silent (strdup os s)"
  unfolding strdup_def by (intro sil.keeps_intros frame_rules)

lemma strdup_Inr:
  assumes "strdup os s w = Inr (d, t)"
  shows "bootinfo t = bootinfo w" and "d = None \<or> d = Some s"
  using assms by (auto simp: strdup_def alloc_def exec_simps split: if_splits)

lemma strdup_ok: "mem_ok os \<Longrightarrow> strdup os s w = Inr (Some s, w\<lparr>calls := Suc (calls w)\<rparr>)"
  by (simp add: strdup_def exec_simps alloc_ok)

lemma safe_inet_ntop [safe_rules]: "safe (inet_ntop fam bs)"
  unfolding inet_ntop_def by (intro safe_branches safe_rules)

lemma silent_inet_ntop [frame_rules]: "keeps silent (inet_ntop fam bs)"
  unfolding inet_ntop_def by (intro sil.keeps_intros frame_rules)

lemma safe_ip2uri [safe_rules]: "safe (ip2uri os ip)"
  unfolding ip2uri_def by (intro safe_branches safe_rules)

lemma silent_ip2uri [frame_rules]: "keeps silent (ip2uri os ip)"
  unfolding ip2uri_def by (intro sil.keeps_intros frame_rules)

lemma steady_strdup: "keeps steady (strdup os s)"
  unfolding strdup_def by (intro std.keeps_intros steady_rules)

lemma steady_ip2uri: "keeps steady (ip2uri os ip)"
  unfolding ip2uri_def by (intro std.keeps_intros steady_rules steady_strdup)

end
