(* ===== verification/Llmnr.thy ===== *)
theory Llmnr
  imports Netif
begin

text \<open>
  The LLMNR responder, llmnr.c: \<open>llmnr_send_response\<close> parses a query held in the receive buffer and
  answers it; \<open>llmnr_recv\<close> receives one datagram. Buffers are byte lists with checked accesses: the
  receive buffer has 10000 bytes, of which those after the datagram are what the stack held before.
\<close>

unbundle bit_operations_syntax

section \<open>Checked buffers\<close>

definition rd :: "byte list \<Rightarrow> nat \<Rightarrow> byte M" where
  "rd b i = (if i < length b then ret (b ! i) else crash OobRead)"

definition be16 :: "byte \<Rightarrow> byte \<Rightarrow> 16 word" where
  "be16 hi lo = word_of_nat (unat hi * 256 + unat lo)"

text \<open>\<open>b[i]*256 + b[i+1]\<close>\<close>

definition rd16 :: "byte list \<Rightarrow> nat \<Rightarrow> (16 word) M" where
  "rd16 b i = bind (rd b i) (\<lambda>hi. bind (rd b (i + 1)) (\<lambda>lo. ret (be16 hi lo)))"

definition poke :: "nat \<Rightarrow> byte list \<Rightarrow> byte list \<Rightarrow> fault + byte list" where
  "poke i bs out =
     (if i + length bs \<le> length out then Inr (take i out @ bs @ drop (i + length bs) out)
      else Inl OobWrite)"

fun pokes :: "(nat \<times> byte list) list \<Rightarrow> byte list \<Rightarrow> fault + byte list" where
  "pokes [] out = Inr out"
| "pokes ((i, bs) # ps) out = (case poke i bs out of Inl f \<Rightarrow> Inl f | Inr out' \<Rightarrow> pokes ps out')"

section \<open>The question name\<close>

definition DNS_TYPE_A :: "16 word" where "DNS_TYPE_A = 0x0001"
definition DNS_TYPE_AAAA :: "16 word" where "DNS_TYPE_AAAA = 0x001C"
definition DNS_CLASS_IN :: "16 word" where "DNS_CLASS_IN = 0x0001"

text \<open>
  The label loop. \<open>p\<close> is \<open>in_name_p\<close>, \<open>in_name\<close> the name so far (null before the first label). The
  label is copied to \<open>in_label\<close>, an array of 64 bytes, and a NUL is written behind it: lengths from
  64 on write outside it. The result is none when a compression pointer ends the parse.
\<close>

function llmnr_name ::
    "os \<Rightarrow> byte list \<Rightarrow> nat \<Rightarrow> string option \<Rightarrow> (string option \<times> nat) option M" where
  "llmnr_name os b p in_name w =
     (if length b \<le> p then Inl OobRead
      else let n = unat (b ! p) in
        if n = 0 then Inr (Some (in_name, p), w)
        else if 0xC0 \<le> n then Inr (None, w)
        else if 64 \<le> n then Inl OobWrite
        else if length b < p + 1 + n then Inl OobRead
        else let in_label = upto_NUL (map chr (take n (drop (p + 1) b))) in
          case alloc os w of
            Inl f \<Rightarrow> Inl f
          | Inr (ok, w') \<Rightarrow>
              (case in_name of
                 Some nm \<Rightarrow>
                   if ok then llmnr_name os b (p + n + 1) (Some (nm @ ''.'' @ in_label)) w'
                   else Inl NullDeref
               | None \<Rightarrow> llmnr_name os b (p + n + 1) (if ok then Some in_label else None) w'))"
  by pat_completeness auto
termination
  by (relation "measure (\<lambda>(os, b, p, nm, w). length b - p)") auto

declare llmnr_name.simps [simp del]

section \<open>The response\<close>

definition answer_length :: "16 word \<Rightarrow> int \<Rightarrow> nat option" where
  "answer_length qtype fam =
     (if (qtype = DNS_TYPE_A \<and> fam = AF_INET6) \<or> (qtype = DNS_TYPE_AAAA \<and> fam = AF_INET) then Some 0
      else if fam = AF_INET then Some (12 + 4)
      else if fam = AF_INET6 then Some (12 + 16)
      else None)"

definition llmnr_reply ::
    "byte list \<Rightarrow> nat \<Rightarrow> int \<Rightarrow> byte list \<Rightarrow> nat \<Rightarrow> fault + byte list" where
  "llmnr_reply inp inlen fam addr answer_len =
     (if length inp < inlen then Inl OobRead
      else let out = take inlen inp @ replicate answer_len 0;
               flags = [(2, [0x80]), (3, [0x00]), (6, [0x00])] in
        if answer_len = 0 then pokes (flags @ [(7, [0x00])]) out
        else let n = inlen; len = (if fam = AF_INET then 4 else 16) in
          pokes (flags @
            [(7, [0x01]),
             (n, [0xC0]), (n + 1, [0x0C]),
             (n + 2, [0x00]), (n + 3, [if fam = AF_INET then 0x01 else 0x1C]),
             (n + 4, [0x00]), (n + 5, [0x01]),
             (n + 6, [0x00]), (n + 7, [0x00]), (n + 8, [0x00]), (n + 9, [0x00]),
             (n + 10, [0x00]), (n + 11, [word_of_nat len]),
             (n + 12, take len addr)]) out)"

definition llmnr_send_response ::
    "os \<Rightarrow> endpoint \<Rightarrow> saddr \<Rightarrow> byte list \<Rightarrow> nat \<Rightarrow> string \<Rightarrow> int M" where
  "llmnr_send_response os ep sa inp inlen myname =
     bind (connected_if os sa) (\<lambda>(rv, ci).
     if rv \<noteq> 0 then ret (- 1) else
     bind (set_errno EINVAL) (\<lambda>_.
     if inlen < 13 then ret (- 1) else
     bind (rd inp 2) (\<lambda>fl.
     if fl AND 0xF8 \<noteq> 0 then ret (- 1) else
     if fl AND 0x04 \<noteq> 0 then ret (- 1) else
     if fl AND 0x02 \<noteq> 0 then ret (- 1) else
     bind (rd16 inp 4) (\<lambda>qdcount.
     if qdcount \<noteq> 1 then ret (- 1) else
     bind (rd16 inp 6) (\<lambda>ancount.
     bind (rd16 inp 8) (\<lambda>nscount.
     if 0 < ancount \<or> 0 < nscount then ret (- 1) else
     bind (llmnr_name os inp 12 None) (\<lambda>r. case r of
       None \<Rightarrow> ret (- 1)
     | Some (in_name, p) \<Rightarrow>
     bind (rd16 inp (p + 1)) (\<lambda>qtype.
     if qtype \<noteq> DNS_TYPE_A \<and> qtype \<noteq> DNS_TYPE_AAAA then ret (- 1) else
     bind (rd16 inp (p + 3)) (\<lambda>qclass.
     if qclass \<noteq> DNS_CLASS_IN then ret (- 1) else
     case in_name of
       None \<Rightarrow> ret (- 1)
     | Some nm \<Rightarrow>
     if length myname \<noteq> length nm \<or> \<not> strncasecmp_eq myname nm (length nm) then ret (- 1) else
     case answer_length qtype (ss_family sa) of
       None \<Rightarrow> ret (- 1)
     | Some answer_len \<Rightarrow>
     bind (alloc os) (\<lambda>ok.
     if \<not> ok then ret (- 1) else
     case llmnr_reply inp inlen (ss_family sa) (sin_addr ci) answer_len of
       Inl f \<Rightarrow> crash f
     | Inr out \<Rightarrow> sys_sendto os (sock ep) out sa))))))))))"

definition llmnr_init :: "os \<Rightarrow> endpoint \<Rightarrow> int M" where
  "llmnr_init os ep = ret 0"

definition llmnr_recv :: "os \<Rightarrow> endpoint \<Rightarrow> int M" where
  "llmnr_recv os ep =
     bind (sys_recvfrom os (sock ep) (10000 - 1)) (\<lambda>r. case r of
       None \<Rightarrow> ret (- 1)
     | Some (dat, sa) \<Rightarrow>
         if 0 < length dat then
           bind (failing (os_gethostname os)) (\<lambda>h. case h of
             None \<Rightarrow> ret (int (length dat))
           | Some nm \<Rightarrow>
               bind (sys (os_stack os)) (\<lambda>stale.
               let buf = dat @ [0] @ map stale [length dat + 1..<10000] in
               bind (llmnr_send_response os ep sa buf (length dat) (upto_NUL nm)) (\<lambda>_.
               ret (int (length dat)))))
         else ret (int (length dat)))"

definition llmnr_timer :: "os \<Rightarrow> endpoint \<Rightarrow> int M" where
  "llmnr_timer os ep = ret 0"

definition llmnr_exit :: "os \<Rightarrow> endpoint \<Rightarrow> unit M" where
  "llmnr_exit os ep = ret ()"

section \<open>Buffers\<close>

lemma rd_run: "i < length b \<Longrightarrow> rd b i w = Inr (b ! i, w)"
  by (simp add: rd_def ret_def)

lemma rd16_run: "i + 1 < length b \<Longrightarrow> rd16 b i w = Inr (be16 (b ! i) (b ! (i + 1)), w)"
  by (simp add: rd16_def rd_run exec_simps)

lemma silent_rd [frame_rules]: "keeps silent (rd b i)"
  unfolding rd_def by (intro sil.keeps_intros)

lemma silent_rd16 [frame_rules]: "keeps silent (rd16 b i)"
  unfolding rd16_def by (intro sil.keeps_intros frame_rules)

declare pokes.simps [simp del]

lemma length_pokes: "pokes ps out = Inr out' \<Longrightarrow> length out' = length out"
  by (induction ps out rule: pokes.induct)
    (auto simp: pokes.simps poke_def split: sum.splits if_splits)

lemma length_llmnr_reply:
  "llmnr_reply inp inlen fam addr alen = Inr out \<Longrightarrow> length out = inlen + alen"
  by (auto simp: llmnr_reply_def Let_def dest!: length_pokes split: if_splits)

text \<open>The header bytes first, then the record, whose writes continue one another.\<close>

lemma pokes_nil: "pokes [] out = Inr out"
  by (simp add: pokes.simps)

lemma pokes_flags:
  "pokes ((2, [f]) # (3, [g]) # (6, [h]) # (7, [k]) # ps)
     (a0 # a1 # a2 # a3 # a4 # a5 # a6 # a7 # zs) =
   pokes ps (a0 # a1 # f # g # a4 # a5 # h # k # zs)"
  by (simp add: pokes.simps poke_def)

lemma pokes_answer:
  assumes "length xs = n" and "length zs = 12 + length addr"
  shows "pokes [(n, [c0]), (n + 1, [c1]), (n + 2, [c2]), (n + 3, [c3]), (n + 4, [c4]), (n + 5, [c5]),
      (n + 6, [c6]), (n + 7, [c7]), (n + 8, [c8]), (n + 9, [c9]), (n + 10, [c10]), (n + 11, [c11]),
      (n + 12, addr)] (xs @ zs)
    = Inr (xs @ [c0, c1, c2, c3, c4, c5, c6, c7, c8, c9, c10, c11] @ addr)"
proof -
  obtain z0 z1 z2 z3 z4 z5 z6 z7 z8 z9 z10 z11 r where zs: "zs = [z0, z1, z2, z3, z4, z5, z6, z7,
      z8, z9, z10, z11] @ r" and r: "length r = length addr"
    using assms(2) by (auto simp: numeral_eq_Suc length_Suc_conv)
  show ?thesis
    using assms(1) r unfolding zs by (simp add: pokes.simps poke_def)
qed

end
