(* ===== verification/Llmnr_Wire.thy ===== *)
theory Llmnr_Wire
  imports Llmnr
begin

text \<open>
  The LLMNR wire format (RFC 4795, RFC 1035) as an encoder, the parser of the responder on encoded
  queries, and the properties of the responder: the exact answer it sends, when it sends none, the
  bound on what a packet can make it send, and the label lengths that overflow its stack.
\<close>

unbundle bit_operations_syntax

section \<open>Wire format\<close>

definition enc_label :: "string \<Rightarrow> byte list" where
  "enc_label l = word_of_nat (length l) # map ord l"

definition enc_name :: "string list \<Rightarrow> byte list" where
  "enc_name ls = concat (map enc_label ls) @ [0]"

definition wf_label :: "string \<Rightarrow> bool" where
  "wf_label l \<longleftrightarrow> 0 < length l \<and> length l < 64 \<and> cstring l"

text \<open>The name the labels spell, with dots, continuing a name already read.\<close>

fun dotted :: "string option \<Rightarrow> string list \<Rightarrow> string option" where
  "dotted nm [] = nm"
| "dotted None (l # ls) = dotted (Some l) ls"
| "dotted (Some n) (l # ls) = dotted (Some (n @ ''.'' @ l)) ls"

text \<open>Identifier, flag bytes, one question, no answers, the count of additional records; question.\<close>

definition enc_query ::
    "byte \<times> byte \<Rightarrow> byte \<times> byte \<Rightarrow> byte \<times> byte \<Rightarrow> string list \<Rightarrow> byte \<Rightarrow> byte list" where
  "enc_query qid fl ar ls qt =
     [fst qid, snd qid, fst fl, snd fl, 0, 1, 0, 0, 0, 0, fst ar, snd ar] @
     enc_name ls @ [0, qt, 0, 1]"

text \<open>The response: same identifier, response bit set, the question repeated, then the record.\<close>

definition enc_response ::
    "byte \<times> byte \<Rightarrow> byte \<times> byte \<Rightarrow> string list \<Rightarrow> byte \<Rightarrow> byte list option \<Rightarrow> byte list" where
  "enc_response qid ar ls qt answer =
     [fst qid, snd qid, 0x80, 0, 0, 1, 0, (case answer of None \<Rightarrow> 0 | Some _ \<Rightarrow> 1), 0, 0,
      fst ar, snd ar] @ enc_name ls @ [0, qt, 0, 1] @
     (case answer of None \<Rightarrow> []
      | Some addr \<Rightarrow>
          [0xC0, 0x0C, 0, qt, 0, 1, 0, 0, 0, 0, 0, word_of_nat (length addr)] @ addr)"

section \<open>The label loop on encoded names\<close>

lemma word_length_label: "wf_label l \<Longrightarrow> unat (word_of_nat (length l) :: byte) = length l"
  by (simp add: wf_label_def unat_of_nat)

lemma length_enc_label [simp]: "length (enc_label l) = Suc (length l)"
  by (simp add: enc_label_def)

lemma llmnr_name_zero:
  assumes "p < length b" and "b ! p = 0"
  shows "llmnr_name os b p nm w = Inr (Some (nm, p), w)"
  using assms by (subst llmnr_name.simps) simp

lemma llmnr_name_label:
  assumes l: "wf_label l" and mem: "mem_ok os" and p: "length pre = p"
  shows "llmnr_name os (pre @ enc_label l @ post) p nm w =
    llmnr_name os (pre @ enc_label l @ post) (p + length (enc_label l))
      (Some (case nm of None \<Rightarrow> l | Some n \<Rightarrow> n @ ''.'' @ l)) (w\<lparr>calls := Suc (calls w)\<rparr>)"
proof -
  let ?b = "pre @ enc_label l @ post"
  have n: "unat (?b ! p) = length l"
    using p word_length_label [OF l] by (simp add: nth_append enc_label_def)
  have lab: "upto_NUL (map chr (take (length l) (drop (p + 1) ?b))) = l"
    using p l by (simp add: enc_label_def upto_NUL_id wf_label_def comp_def)
  have "0 < length l" "length l < 64"
    using l by (simp_all add: wf_label_def)
  then show ?thesis
    using n lab p alloc_ok [OF mem, of w]
    by (subst llmnr_name.simps) (auto simp: Let_def split: option.splits)
qed

lemma llmnr_name_enc:
  assumes "\<And>l. l \<in> set ls \<Longrightarrow> wf_label l" and mem: "mem_ok os" and "length pre = p"
  shows "llmnr_name os (pre @ concat (map enc_label ls) @ 0 # post) p nm w =
    Inr (Some (dotted nm ls, p + length (concat (map enc_label ls))),
      w\<lparr>calls := calls w + length ls\<rparr>)"
  using assms(1,3)
proof (induction ls arbitrary: pre p nm w)
  case Nil
  then show ?case by (simp add: llmnr_name_zero nth_append)
next
  case (Cons l ls)
  let ?tl = "concat (map enc_label ls) @ 0 # post"
  let ?nm = "case nm of None \<Rightarrow> l | Some n \<Rightarrow> n @ ''.'' @ l"
  have "llmnr_name os (pre @ enc_label l @ ?tl) p nm w =
      llmnr_name os (pre @ enc_label l @ ?tl) (p + length (enc_label l)) (Some ?nm)
        (w\<lparr>calls := Suc (calls w)\<rparr>)"
    by (rule llmnr_name_label) (use Cons.prems mem in auto)
  also have "\<dots> = Inr (Some (dotted (Some ?nm) ls,
      p + length (enc_label l) + length (concat (map enc_label ls))),
      w\<lparr>calls := calls w + Suc (length ls)\<rparr>)"
    using Cons.IH [of "pre @ enc_label l" "p + length (enc_label l)" "Some ?nm"
        "w\<lparr>calls := Suc (calls w)\<rparr>"] Cons.prems by simp
  also have "dotted (Some ?nm) ls = dotted nm (l # ls)"
    by (cases nm) simp_all
  finally show ?case by (simp add: add.assoc)
qed

section \<open>The answer to a query\<close>

definition answer_for :: "int \<Rightarrow> byte \<Rightarrow> byte list \<Rightarrow> byte list option" where
  "answer_for fam qt addr =
     (if (qt = 0x01 \<and> fam = AF_INET) \<or> (qt = 0x1C \<and> fam = AF_INET6) then Some addr else None)"

lemma length_enc_query: "length (enc_query qid fl ar ls qt) = 17 + length (concat (map enc_label ls))"
  by (simp add: enc_query_def enc_name_def)

lemma llmnr_reply_query:
  assumes fam: "fam = AF_INET \<and> length addr = 4 \<or> fam = AF_INET6 \<and> length addr = 16"
    and qt: "qt = 0x01 \<or> qt = 0x1C" and al: "answer_length (be16 0 qt) fam = Some alen"
    and q: "q = enc_query qid fl ar ls qt"
  shows "llmnr_reply (q @ junk) (length q) fam addr alen =
    Inr (enc_response qid ar ls qt (answer_for fam qt addr))"
proof -
  let ?hd = "[fst qid, snd qid, fst fl, snd fl, 0, 1, 0, 0]"
  let ?tl = "[0, 0, fst ar, snd ar] @ enc_name ls @ [0, qt, 0, 1]"
  have qs: "q = ?hd @ ?tl" by (simp add: q enc_query_def)
  show ?thesis
  proof (cases "answer_for fam qt addr")
    case None
    with fam qt al have 0: "alen = 0"
      by (auto simp: answer_for_def answer_length_def be16_def DNS_TYPE_A_def DNS_TYPE_AAAA_def
          split: if_splits)
    show ?thesis
      by (simp add: llmnr_reply_def 0 None enc_response_def)
         (simp add: qs pokes_flags pokes_nil)
  next
    case (Some a)
    with fam qt al have a: "a = addr" "alen = 12 + length addr"
       and c: "(if fam = AF_INET then 0x01 else 0x1C) = qt"
              "length addr = (if fam = AF_INET then 4 else 16)"
      by (auto simp: answer_for_def answer_length_def be16_def DNS_TYPE_A_def DNS_TYPE_AAAA_def
          split: if_splits)
    have ne: "alen \<noteq> 0" using a by simp
    have len: "take (if fam = AF_INET then 4 else 16) addr = addr" using c by simp
    let ?ans = "[(length q, [0xC0]), (length q + 1, [0x0C]), (length q + 2, [0x00]),
        (length q + 3, [qt]), (length q + 4, [0x00]), (length q + 5, [0x01]),
        (length q + 6, [0x00]), (length q + 7, [0x00]), (length q + 8, [0x00]),
        (length q + 9, [0x00]), (length q + 10, [0x00]),
        (length q + 11, [word_of_nat (length addr)]), (length q + 12, addr)]"
    let ?hd' = "[fst qid, snd qid, 0x80, 0, 0, 1, 0, 1]"
    have "llmnr_reply (q @ junk) (length q) fam addr alen =
        pokes ([(2, [0x80]), (3, [0x00]), (6, [0x00]), (7, [0x01])] @ ?ans) (q @ replicate alen 0)"
      using ne len c by (simp add: llmnr_reply_def Let_def split del: if_split)
    also have "\<dots> = pokes ?ans ((?hd' @ ?tl) @ replicate alen 0)"
      by (simp add: qs pokes_flags)
    also have "\<dots> = Inr ((?hd' @ ?tl) @ [0xC0, 0x0C, 0, qt, 0, 1, 0, 0, 0, 0, 0,
        word_of_nat (length addr)] @ addr)"
      by (rule pokes_answer) (simp_all add: qs a)
    finally show ?thesis
      by (simp add: Some a enc_response_def)
  qed
qed

lemma enc_query_nth:
  assumes "q = enc_query qid fl ar ls qt"
  shows "(q @ junk) ! 2 = fst fl" "(q @ junk) ! 4 = 0" "(q @ junk) ! 5 = 1" "(q @ junk) ! 6 = 0"
    "(q @ junk) ! 7 = 0" "(q @ junk) ! 8 = 0" "(q @ junk) ! 9 = 0"
  by (simp_all add: assms enc_query_def)

lemma enc_query_tail:
  assumes "q = enc_query qid fl ar ls qt"
  shows "(q @ junk) ! (13 + length (concat (map enc_label ls))) = 0"
    "(q @ junk) ! (14 + length (concat (map enc_label ls))) = qt"
    "(q @ junk) ! (15 + length (concat (map enc_label ls))) = 0"
    "(q @ junk) ! (16 + length (concat (map enc_label ls))) = 1"
  by (simp_all add: assms enc_query_def enc_name_def nth_append nth_Cons')

lemma be16_eval: "be16 0 0 = 0" "be16 0 1 = 1"
  by (simp_all add: be16_def)

text \<open>
  The situation of an answerable query: the sender is on the link of one of our interfaces, the name
  is ours up to case, the flags ask a standard query, the record type is A or AAAA.
\<close>

definition answerable ::
    "os \<Rightarrow> nat \<Rightarrow> saddr \<Rightarrow> ifaddrs list \<Rightarrow> ifaddrs \<Rightarrow> byte \<times> byte \<Rightarrow> string list \<Rightarrow> byte \<Rightarrow> string \<Rightarrow> bool"
  where
  "answerable os k sa ifas ifa fl ls qt host \<longleftrightarrow>
     mem_ok os \<and> wf_saddr sa \<and> os_getifaddrs os k = Inr ifas \<and>
     (\<forall>i\<in>set ifas. wf_ifaddrs i) \<and> find (on_link sa) ifas = Some ifa \<and>
     (fst fl = 0 \<or> fst fl = 1) \<and> (\<forall>l\<in>set ls. wf_label l) \<and> (qt = 0x01 \<or> qt = 0x1C) \<and>
     (\<exists>nm. dotted None ls = Some nm \<and> map tolower nm = map tolower host)"

lemma answer_length_some:
  "fam = AF_INET \<or> fam = AF_INET6 \<Longrightarrow> \<exists>alen. answer_length t fam = Some alen"
  by (auto simp: answer_length_def)

lemma llmnr_send_response_answers:
  assumes ans: "answerable os (calls w) sa ifas ifa fl ls qt host"
    and q: "q = enc_query qid fl ar ls qt"
  shows "llmnr_send_response os ep sa (q @ junk) (length q) host w =
    sys_sendto os (sock ep)
      (enc_response qid ar ls qt (answer_for (ss_family sa) qt (if_bytes ifa))) sa
      (w\<lparr>calls := calls w + length ls + 2, errno := EINVAL\<rparr>)"
proof -
  note A = ans [unfolded answerable_def]
  let ?w1 = "w\<lparr>calls := Suc (calls w), errno := EADDRNOTAVAIL\<rparr>"
  let ?ci = "\<lparr>ss_family = ss_family sa, sin_port = 0, sin_addr = if_bytes ifa\<rparr>"
  let ?p = "12 + length (concat (map enc_label ls))"
  have ci: "connected_if os sa w = Inr ((0, ?ci), ?w1)"
    using connected_if_run [of sa os w ifas] A by simp
  obtain nm where nm: "dotted None ls = Some nm" "map tolower nm = map tolower host"
    using A by blast
  have len_nm: "length nm = length host" using nm(2) by (metis length_map)
  have name: "llmnr_name os (q @ junk) 12 None v = Inr (Some (Some nm, ?p),
      v\<lparr>calls := calls v + length ls\<rparr>)" for v
    using llmnr_name_enc [of ls os
        "[fst qid, snd qid, fst fl, snd fl, 0, 1, 0, 0, 0, 0, fst ar, snd ar]" 12
        "[0, qt, 0, 1] @ junk" None v] A
    by (simp add: q enc_query_def enc_name_def nm(1))
  have onl: "on_link sa ifa" "ifa \<in> set ifas"
    using A find_on_link by blast+
  then have fam: "ss_family sa = AF_INET \<and> length (if_bytes ifa) = 4 \<or>
      ss_family sa = AF_INET6 \<and> length (if_bytes ifa) = 16"
    using A by (auto simp: on_link_def if_bytes_def wf_ifaddrs_def wf_saddr_def addr_size_def
        split: option.splits)
  obtain alen where alen: "answer_length (be16 0 qt) (ss_family sa) = Some alen"
    using answer_length_some fam by blast
  have reply: "llmnr_reply (q @ junk) (length q) (ss_family sa) (if_bytes ifa) alen =
      Inr (enc_response qid ar ls qt (answer_for (ss_family sa) qt (if_bytes ifa)))"
    by (rule llmnr_reply_query [OF fam _ alen q]) (use A in blast)
  have qlen: "length q = 17 + length (concat (map enc_label ls))"
    by (simp add: q length_enc_query)
  note nths = enc_query_nth [OF q] enc_query_tail [OF q] be16_eval
  have qt: "be16 0 qt = DNS_TYPE_A \<or> be16 0 qt = DNS_TYPE_AAAA"
    using A by (auto simp: be16_def DNS_TYPE_A_def DNS_TYPE_AAAA_def)
  have fl: "fst fl AND 0xF8 = 0" "fst fl AND 0x04 = 0" "fst fl AND 0x02 = 0"
    using A by auto
  have mem: "mem_ok os" using A by blast
  show ?thesis
    unfolding llmnr_send_response_def
    using qt by (auto simp: exec_simps ci qlen rd_run rd16_run name nths fl alen reply [unfolded qlen] len_nm
        strncasecmp_eq_def nm(2) DNS_CLASS_IN_def alloc_ok mem)
qed


lemma llmnr_recv_query_run:
  assumes ans: "answerable os (calls w + 3) sa ifas ifa fl ls qt host"
    and q: "q = enc_query qid fl ar ls qt" and len: "length q \<le> 9999"
    and d: "os_recvfrom os (calls w) (sock ep) = Inr (q, sa)"
    and host: "os_gethostname os (calls w + 1) = Inr host" "cstring host"
  shows "\<exists>t. llmnr_recv os ep w = Inr (int (length q), t) \<and> trace t = trace w @
    [Ev_recv (sock ep) (int (length q)),
     Ev_sendto (sock ep)
       (enc_response qid ar ls qt (answer_for (ss_family sa) qt (if_bytes ifa))) sa]"
proof -
  let ?v = "w\<lparr>calls := calls w + 3, trace := trace w @ [Ev_recv (sock ep) (int (length q))]\<rparr>"
  let ?out = "enc_response qid ar ls qt (answer_for (ss_family sa) qt (if_bytes ifa))"
  let ?stk = "\<lambda>n. map (os_stack os n) [Suc (length q)..<10000]"
  have pos: "0 < length q" by (simp add: q enc_query_def)
  obtain r t where send: "sys_sendto os (sock ep) ?out sa
        (?v\<lparr>calls := calls ?v + length ls + 2, errno := EINVAL\<rparr>) = Inr (r, t)"
      and tr: "trace t = trace ?v @ [Ev_sendto (sock ep) ?out sa]"
    by (rule runsE [OF sys_sendto_trace [of os "sock ep" ?out sa
        "?v\<lparr>calls := calls ?v + length ls + 2, errno := EINVAL\<rparr>"]]) simp
  have resp: "llmnr_send_response os ep sa (q @ 0 # ?stk n) (length q) (upto_NUL host) ?v = Inr (r, t)"
    for n
    using llmnr_send_response_answers [of os ?v sa ifas ifa fl ls qt host q qid ar ep "0 # ?stk n"]
      ans q send by (simp add: upto_NUL_id [OF host(2)])
  have "llmnr_recv os ep w = Inr (int (length q), t)"
    using host(1) pos resp
    by (simp add: llmnr_recv_def exec_simps sys_recvfrom_run [OF d] len failing_def numeral_3_eq_3
        Let_def)
  then show ?thesis
    using tr by simp
qed

text \<open>
  C1. A standard query for our name, in any spelling of upper and lower case, from a host on the link
  of one of our interfaces, is answered with exactly one datagram to its sender: the identifier and
  the question repeated, the response bit set, and one record with the address of that interface;
  a query for the record type of the other address family gets the response without a record.
\<close>

theorem llmnr_recv_answers:
  assumes "answerable os (calls w + 3) sa ifas ifa fl ls qt host"
    and "q = enc_query qid fl ar ls qt" and "length q \<le> 9999"
    and "os_recvfrom os (calls w) (sock ep) = Inr (q, sa)"
    and "os_gethostname os (calls w + 1) = Inr host" and "cstring host"
  shows "runs (llmnr_recv os ep) w (\<lambda>r t. r = int (length q) \<and> trace t = trace w @
    [Ev_recv (sock ep) (int (length q)),
     Ev_sendto (sock ep)
       (enc_response qid ar ls qt (answer_for (ss_family sa) qt (if_bytes ifa))) sa])"
  using llmnr_recv_query_run [of os w sa ifas ifa fl ls qt host q qid ar ep] assms
  by (auto simp: runs_def)

section \<open>What a packet can make the responder do\<close>

text \<open>The label loop keeps every frame that an allocation keeps.\<close>

lemma llmnr_name_frame:
  assumes R: "frame R" and once: "keeps R (alloc os)"
  shows "keeps R (llmnr_name os b p nm)"
proof (induction "length b - p" arbitrary: p nm rule: less_induct)
  case less
  have step: "keeps R (llmnr_name os b (p + n + 1) nm')" if "p < length b" for n nm'
    by (rule less.hyps) (use that in auto)
  have "R w t" if run: "llmnr_name os b p nm w = Inr (r, t)" for w r t
  proof (cases "alloc os w")
    case (Inl f)
    with run show ?thesis
      by (subst (asm) llmnr_name.simps)
        (auto simp: Let_def frame.frame_refl [OF R] split: if_splits)
  next
    case (Inr x)
    then obtain ok w' where mem: "alloc os w = Inr (ok, w')" by (cases x) auto
    from once mem have w': "R w w'" by (rule keepsD)
    have rest: "R w t" if "llmnr_name os b (Suc (p + n)) nm' w' = Inr (r, t)"
      and "\<not> length b < Suc (p + n)" for n nm'
      using keepsD [OF step [of n nm']] that by (auto intro: frame.frame_trans [OF R w'])
    from run mem show ?thesis
      by (subst (asm) llmnr_name.simps)
        (auto simp: Let_def frame.frame_refl [OF R] split: if_splits option.splits intro: rest)
  qed
  then show ?case by (simp add: keeps_def)
qed

lemma silent_llmnr_name [frame_rules]: "keeps silent (llmnr_name os b p nm)"
  by (rule llmnr_name_frame [OF sil.frame_axioms silent_alloc])

text \<open>
  A response is sent only for a name that is ours, and it is at most 28 bytes longer than the query.
\<close>

definition accepted :: "os \<Rightarrow> byte list \<Rightarrow> string \<Rightarrow> bool" where
  "accepted os inp host \<longleftrightarrow> inp ! 2 AND 0xFE = 0 \<and>
     (\<exists>nm p v v'. llmnr_name os inp 12 None v = Inr (Some (Some nm, p), v') \<and>
        map tolower nm = map tolower host)"

lemma and_FE:
  assumes "(fl :: byte) AND 0xF8 = 0" and "fl AND 4 = 0" and "fl AND 2 = 0"
  shows "fl AND 0xFE = 0"
proof -
  have "fl AND (0xF8 OR 4 OR 2) = 0"
    unfolding bit.conj_disj_distrib by (simp add: assms)
  then show ?thesis by simp
qed

definition responded :: "os \<Rightarrow> int \<Rightarrow> saddr \<Rightarrow> byte list \<Rightarrow> nat \<Rightarrow> string \<Rightarrow> world \<Rightarrow> world \<Rightarrow> bool" where
  "responded os fd sa inp inlen host s t \<longleftrightarrow> trace t = trace s \<or>
     (\<exists>out. trace t = trace s @ [Ev_sendto fd out sa] \<and> length out \<le> inlen + 28 \<and>
        accepted os inp host)"

lemma responded_after:
  assumes "keeps silent m" and "\<And>a s t. m s = Inr (a, t) \<Longrightarrow> keeps (responded os fd sa inp inlen host) (k a)"
  shows "keeps (responded os fd sa inp inlen host) (bind m k)"
  by (rule keeps_after [OF assms(1) _ assms(2)]) (auto simp: responded_def silent_def)

lemma responded_ret: "keeps (responded os fd sa inp inlen host) (ret c)"
  by (simp add: keeps_def ret_def responded_def)

lemma responded_sendto:
  "length out \<le> inlen + 28 \<Longrightarrow> accepted os inp host \<Longrightarrow>
   keeps (responded os fd sa inp inlen host) (sys_sendto os fd out sa)"
  using runsD [OF sys_sendto_trace] by (fastforce simp: keeps_def responded_def)

lemma answer_length_le: "answer_length t fam = Some n \<Longrightarrow> n \<le> 28"
  by (auto simp: answer_length_def split: if_splits)

lemma rd_eq: "rd b i w = Inr (x, t) \<longleftrightarrow> i < length b \<and> x = b ! i \<and> t = w"
  by (auto simp: rd_def ret_def crash_def)

lemma responded_llmnr_send_response:
  "keeps (responded os (sock ep) sa inp inlen host) (llmnr_send_response os ep sa inp inlen host)"
  unfolding llmnr_send_response_def
  apply (intro responded_after keeps_branches responded_ret frame_rules responded_sendto)
  apply (auto dest!: length_llmnr_reply answer_length_le)[1]
  apply (fastforce simp: accepted_def rd_eq strncasecmp_eq_def intro: and_FE)
  done

text \<open>
  C7. Whatever a packet holds, a run of \<open>llmnr_recv\<close> that returns has received once and sent at most
  once; what it sends goes to the sender of the packet, is at most 28 bytes longer than the packet,
  and is sent only if the packet is a standard query whose parsed name is the host name up to case.
\<close>

theorem llmnr_recv_replies:
  assumes "llmnr_recv os ep w = Inr (r, t)"
  shows "(\<exists>n. trace t = trace w @ [Ev_recv (sock ep) n]) \<or>
    (\<exists>d sa host stale out.
       os_recvfrom os (calls w) (sock ep) = Inr (d, sa) \<and> os_gethostname os (calls w + 1) = Inr host \<and>
       trace t = trace w @ [Ev_recv (sock ep) (int (length (take 9999 d))),
                            Ev_sendto (sock ep) out sa] \<and>
       length out \<le> length (take 9999 d) + 28 \<and>
       accepted os (take 9999 d @ 0 # stale) (upto_NUL host))"
proof -
  consider (fail) "\<exists>n. trace t = trace w @ [Ev_recv (sock ep) n]"
    | (query) d sa host stale v x where "os_recvfrom os (calls w) (sock ep) = Inr (d, sa)"
        "os_gethostname os (calls w + 1) = Inr host"
        "llmnr_send_response os ep sa (take 9999 d @ 0 # stale) (length (take 9999 d))
           (upto_NUL host) v = Inr (x, t)"
        "trace v = trace w @ [Ev_recv (sock ep) (int (length (take 9999 d)))]"
    using assms
    by (fastforce simp: llmnr_recv_def exec_simps sys_recvfrom_def failing_def Let_def
        split: sum.splits if_splits)
  then show ?thesis
  proof cases
    case query
    with keepsD [OF responded_llmnr_send_response query(3)] show ?thesis
      unfolding responded_def by force
  qed simp
qed

section \<open>Label lengths and memory safety\<close>

text \<open>
  A question name the parser handles within the datagram: every label is shorter than 64 bytes, and
  the name ends in a zero byte followed by type and class, or at a compression pointer.
\<close>

function name_safe :: "byte list \<Rightarrow> nat \<Rightarrow> bool" where
  "name_safe d p =
     (if length d \<le> p then False
      else let n = unat (d ! p) in
        if n = 0 then p + 4 < length d
        else if 0xC0 \<le> n then True
        else if 64 \<le> n then False
        else name_safe d (p + n + 1))"
  by pat_completeness auto
termination
  by (relation "measure (\<lambda>(d, p). length d - p)") auto

declare name_safe.simps [simp del]

text \<open>The one fault left: \<open>realloc\<close> is not checked, so \<open>strcat\<close> gets a null pointer when memory is out.\<close>

definition no_memory :: "os \<Rightarrow> fault \<Rightarrow> bool" where
  "no_memory os f \<longleftrightarrow> f = NullDeref \<and> \<not> mem_ok os"

lemma llmnr_name_safe:
  "name_safe d p \<Longrightarrow> (case llmnr_name os (d @ x) p nm w of
     Inl f \<Rightarrow> no_memory os f
   | Inr (r, t) \<Rightarrow> \<forall>nm' e. r = Some (nm', e) \<longrightarrow> e + 4 < length d)"
proof (induction d p arbitrary: nm w rule: name_safe.induct)
  case (1 d p)
  let ?n = "unat (d ! p)"
  let ?ok = "\<lambda>z :: fault + (string option \<times> nat) option \<times> world. case z of Inl f \<Rightarrow> no_memory os f
    | Inr (r, t) \<Rightarrow> \<forall>nm' e. r = Some (nm', e) \<longrightarrow> e + 4 < length d"
  have p: "p < length d" and n: "?n = 0 \<Longrightarrow> p + 4 < length d"
    and small: "?n < 0xC0 \<Longrightarrow> ?n < 64"
    and rest: "?n \<noteq> 0 \<Longrightarrow> ?n < 0xC0 \<Longrightarrow> name_safe d (p + ?n + 1)"
    using "1.prems" by (subst (asm) name_safe.simps; auto simp: Let_def split: if_splits)+
  consider "?n = 0" | "0xC0 \<le> ?n" | "?n \<noteq> 0" "?n < 0xC0" by linarith
  then show ?case
  proof cases
    case 3
    have in_d: "p + ?n + 1 < length d"
      using rest [OF 3] by (subst (asm) name_safe.simps) (auto split: if_splits)
    have next_label: "?ok (llmnr_name os (d @ x) (p + ?n + 1) nm' w')" for nm' w'
      using "1.IH" [OF _ refl] p 3 small rest by simp
    have oom: "no_memory os NullDeref" if "\<not> os_alloc os k" for k
      using that by (auto simp: no_memory_def mem_ok_def)
    show ?thesis
      using 3 small p in_d next_label oom
      by (subst llmnr_name.simps)
        (simp add: nth_append alloc_def exec_simps Let_def split: option.split)
  qed (use p n in \<open>subst llmnr_name.simps, simp add: nth_append\<close>)+
qed

lemma pokes_fit:
  "\<forall>(i, bs) \<in> set ps. i + length bs \<le> length out \<Longrightarrow> \<exists>out'. pokes ps out = Inr out'"
proof (induction ps out rule: pokes.induct)
  case (2 i bs ps out)
  then show ?case by (auto simp: pokes.simps poke_def)
qed (simp add: pokes.simps)

lemma llmnr_reply_fits:
  assumes "13 \<le> inlen" and "inlen \<le> length inp" and "answer_length t fam = Some alen"
  shows "\<exists>out. llmnr_reply inp inlen fam addr alen = Inr out"
  using assms unfolding llmnr_reply_def Let_def
  by (auto intro!: pokes_fit simp: answer_length_def split: if_splits)

lemma safe_rd: "i < length b \<Longrightarrow> safe (rd b i)"
  by (simp add: rd_def safe_ret)

lemma safe_rd16: "i + 1 < length b \<Longrightarrow> safe (rd16 b i)"
  unfolding rd16_def by (intro safe_branches safe_rules safe_rd) simp_all

lemma may_llmnr_send_response:
  assumes ifs: "ifs_ok os" and d: "length d < 13 \<or> name_safe d 12"
  shows "may (no_memory os) (llmnr_send_response os ep sa (d @ x) (length d) host)"
proof -
  have nm: "may (no_memory os) (llmnr_name os (d @ x) 12 None)" if "\<not> length d < 13"
    unfolding may_def
  proof (intro allI impI)
    fix w f
    assume "llmnr_name os (d @ x) 12 None w = Inl f"
    then show "no_memory os f" using llmnr_name_safe [of d 12 os x None w] d that by simp
  qed
  have pos: "p + 4 < length d"
    if "llmnr_name os (d @ x) 12 None s = Inr (Some (in_name, p), t)" "\<not> length d < 13" for s t in_name p
    using llmnr_name_safe [of d 12 os x None s] d that by auto
  have fits: "llmnr_reply (d @ x) (length d) fam addr alen \<noteq> Inl f"
    if "answer_length t fam = Some alen" "\<not> length d < 13" for t fam alen addr f
    using llmnr_reply_fits [of "length d" "d @ x" t fam alen addr] that by auto
  have reply: "may (no_memory os) (case llmnr_reply (d @ x) (length d) fam addr alen of
      Inl f \<Rightarrow> crash f | Inr out \<Rightarrow> sys_sendto os fd out sa)"
    if "answer_length t fam = Some alen" "\<not> length d < 13" for t fam alen addr fd
    using fits [OF that] by (auto intro!: may_safe safe_rules split: sum.split)
  show ?thesis
    unfolding llmnr_send_response_def
    by (intro may_intros safe_connected_if [OF ifs, THEN may_safe] safe_set_errno [THEN may_safe]
        safe_rd [THEN may_safe] safe_rd16 [THEN may_safe] safe_alloc [THEN may_safe] nm reply)
      (auto dest: pos)
qed

text \<open>
  C12. On a datagram that is too short to be a query, or whose question name has labels shorter than
  64 bytes and ends, with its type and class, inside the datagram, \<open>llmnr_recv\<close> has no memory fault,
  whatever the other fields hold, as long as memory can be allocated. When it cannot, the only fault
  is the null pointer \<open>strcat\<close> gets because the result of \<open>realloc\<close> is not tested.
\<close>

theorem llmnr_recv_safe:
  assumes ifs: "ifs_ok os"
    and d: "\<And>d sa. os_recvfrom os (calls w) (sock ep) = Inr (d, sa) \<Longrightarrow>
      length d < 13 \<or> name_safe (take 9999 d) 12"
  shows "(case llmnr_recv os ep w of Inl f \<Rightarrow> f = NullDeref \<and> \<not> mem_ok os | Inr _ \<Rightarrow> True)"
proof (cases "os_recvfrom os (calls w) (sock ep)")
  case (Inl e)
  then show ?thesis
    by (simp add: llmnr_recv_def exec_simps sys_recvfrom_def failing_def)
next
  case (Inr p)
  obtain dd sa where p: "p = (dd, sa)" by (cases p)
  let ?d = "take 9999 dd"
  have ok: "length ?d < 13 \<or> name_safe ?d 12"
    using d Inr p by fastforce
  have resp: "may (no_memory os) (llmnr_send_response os ep sa (?d @ x) (length ?d) host)" for x host
    by (rule may_llmnr_send_response [OF ifs ok])
  define rest where "rest = bind (failing (os_gethostname os)) (\<lambda>h. case h of
             None \<Rightarrow> ret (int (length ?d))
           | Some nm \<Rightarrow>
               bind (sys (os_stack os)) (\<lambda>stale.
               let buf = ?d @ [0] @ map stale [length ?d + 1..<10000] in
               bind (llmnr_send_response os ep sa buf (length ?d) (upto_NUL nm)) (\<lambda>_.
               ret (int (length ?d)))))"
  have "may (no_memory os) rest"
    unfolding rest_def Let_def
    by (intro may_intros resp safe_failing [THEN may_safe] safe_sys [THEN may_safe])
  moreover obtain v where r: "sys_recvfrom os (sock ep) (10000 - 1) w = Inr (Some (?d, sa), v)"
    using Inr p by (simp add: exec_simps sys_recvfrom_def failing_def)
  have "llmnr_recv os ep w = (if 0 < length ?d then rest else ret (int (length ?d))) v"
    unfolding rest_def llmnr_recv_def bind_run [of "sys_recvfrom os (sock ep) (10000 - 1)"] r
    by simp
  ultimately show ?thesis
    by (auto simp: ret_def no_memory_def dest: mayD split: sum.split)
qed

text \<open>
  C16. A label length of 64 to 191 in a packet that otherwise passes the header checks makes
  \<open>llmnr_recv\<close> write past the end of the 64-byte array \<open>in_label\<close>: the loop rejects only compression
  pointers, never the lengths in between, so any host on the link can overwrite the stack.
\<close>

theorem llmnr_recv_label_overflow:
  assumes d: "os_recvfrom os (calls w) (sock ep) = Inr (d, sa)" and len: "13 \<le> length d" "length d \<le> 9999"
    and hdr: "d ! 2 = 0" "d ! 4 = 0" "d ! 5 = 1" "d ! 6 = 0" "d ! 7 = 0" "d ! 8 = 0" "d ! 9 = 0"
    and label: "64 \<le> unat (d ! 12)" "unat (d ! 12) < 192"
    and host: "os_gethostname os (calls w + 1) = Inr host"
    and link: "wf_saddr sa" "os_getifaddrs os (calls w + 3) = Inr ifas" "\<forall>i\<in>set ifas. wf_ifaddrs i"
      "find (on_link sa) ifas = Some ifa"
  shows "llmnr_recv os ep w = Inl OobWrite"
proof -
  have ne: "d \<noteq> []" using len by auto
  have name: "llmnr_name os (d @ x) 12 None v = Inl OobWrite" for x v
    using len label by (subst llmnr_name.simps) (simp add: nth_append)
  have nth: "(d @ x) ! i = d ! i" if "i < 13" for i x
    using that len by (simp add: nth_append)
  have resp: "llmnr_send_response os ep sa (d @ x) (length d) h v = Inl OobWrite"
    if "calls v = calls w + 3" for x h v
    unfolding llmnr_send_response_def
    using connected_if_run [of sa os v ifas] link len that
    by (simp add: exec_simps rd_run rd16_run nth hdr be16_eval name)
  show ?thesis
    using len ne host resp [of _ "0 # x" for x]
    by (simp add: llmnr_recv_def exec_simps sys_recvfrom_run [OF d] failing_def Let_def numeral_3_eq_3)
qed

section \<open>Examples\<close>

definition nas_query :: "byte list" where
  "nas_query = enc_query (0xAB, 0xCD) (0, 0) (0, 0) [''NAS''] 0x01"

definition nas_os :: os where
  "nas_os = lan_os\<lparr>os_recvfrom := (\<lambda>n fd. Inr (nas_query, peer))\<rparr>"

lemma nas_answerable: "answerable nas_os k peer [eth0] eth0 (0, 0) [''NAS''] 0x01 ''nas''"
  by (simp add: answerable_def nas_os_def lan_os_def quiet_os_def mem_ok_def wf_saddr_def peer_def
      addr_size_def wf_ifaddrs_def eth0_def on_link_def masked_def wf_label_def cstring_def tolower_def char_of_def bit_0)

lemma nas_os_facts [simp]:
  "os_recvfrom nas_os n fd = Inr (nas_query, peer)" "os_gethostname nas_os n = Inr ''nas''"
  "length nas_query = 21" "cstring ''nas''"
  by (simp_all add: nas_os_def lan_os_def nas_query_def enc_query_def enc_name_def enc_label_def cstring_def)

theorem llmnr_recv_answers_witness:
  "runs (llmnr_recv nas_os udp_ep) zero_world (\<lambda>r t. r = 21 \<and> trace t =
    [Ev_recv 7 21,
     Ev_sendto 7 ([0xAB, 0xCD, 0x80, 0, 0, 1, 0, 1, 0, 0, 0, 0, 3, 78, 65, 83, 0, 0, 1, 0, 1] @
       [0xC0, 0x0C, 0, 1, 0, 1, 0, 0, 0, 0, 0, 4, 192, 168, 1, 10]) peer])"
  using llmnr_recv_answers [OF nas_answerable nas_query_def, of zero_world udp_ep]
  by (simp add: udp_ep_def zero_world_def enc_response_def enc_name_def enc_label_def answer_for_def
      if_bytes_def eth0_def peer_def ord_def)

theorem llmnr_recv_replies_witness:
  "\<exists>r t. llmnr_recv nas_os udp_ep zero_world = Inr (r, t) \<and>
    ((\<exists>n. trace t = [Ev_recv 7 n]) \<or>
     (\<exists>d sa host stale out.
       os_recvfrom nas_os 0 7 = Inr (d, sa) \<and> os_gethostname nas_os 1 = Inr host \<and>
       trace t = [Ev_recv 7 (int (length (take 9999 d))), Ev_sendto 7 out sa] \<and>
       length out \<le> length (take 9999 d) + 28 \<and>
       accepted nas_os (take 9999 d @ 0 # stale) (upto_NUL host)))"
proof -
  obtain t where t: "llmnr_recv nas_os udp_ep zero_world = Inr (21, t)"
    using llmnr_recv_query_run [OF nas_answerable nas_query_def, of zero_world udp_ep] by auto
  show ?thesis
    using t llmnr_recv_replies [OF t] by (auto simp: zero_world_def udp_ep_def)
qed

theorem llmnr_recv_safe_witness: "\<exists>r t. llmnr_recv nas_os udp_ep zero_world = Inr (r, t)"
proof -
  have mem: "mem_ok nas_os" using nas_answerable by (simp add: answerable_def)
  have ifs: "ifs_ok nas_os"
    by (simp add: ifs_ok_def nas_os_def lan_os_def wf_ifaddrs_def eth0_def wf_saddr_def addr_size_def)
  have d: "length d < 13 \<or> name_safe (take 9999 d) 12"
    if "os_recvfrom nas_os (calls zero_world) (sock udp_ep) = Inr (d, sa)" for d sa
  proof -
    have "d = nas_query" using that by simp
    then show ?thesis by (simp add: nas_query_def enc_query_def enc_name_def enc_label_def name_safe.simps)
  qed
  have "case llmnr_recv nas_os udp_ep zero_world of Inl f \<Rightarrow> f = NullDeref \<and> \<not> mem_ok nas_os | Inr _ \<Rightarrow> True"
    by (rule llmnr_recv_safe [OF ifs]) (rule d)
  with mem show ?thesis
    by (cases "llmnr_recv nas_os udp_ep zero_world") auto
qed

definition long_query :: "byte list" where
  "long_query = [0xAB, 0xCD, 0, 0, 0, 1, 0, 0, 0, 0, 0, 0, 80]"

definition attack_os :: os where
  "attack_os = lan_os\<lparr>os_recvfrom := (\<lambda>n fd. Inr (long_query, peer))\<rparr>"

theorem llmnr_recv_label_overflow_witness:
  "llmnr_recv attack_os udp_ep zero_world = Inl OobWrite"
  by (rule llmnr_recv_label_overflow [where d = long_query and sa = peer and host = "''nas''" and
        ifas = "[eth0]" and ifa = eth0])
    (simp_all add: attack_os_def lan_os_def long_query_def wf_saddr_def peer_def addr_size_def
      wf_ifaddrs_def eth0_def on_link_def masked_def)

end
