(* ===== verification/Wsd_Params.thy ===== *)
theory Wsd_Params
  imports Netif
begin

text \<open>
  Where wsd.c takes the texts it announces from: \<open>get_smbparm\<close> asks Samba's \<^verbatim>\<open>testparm\<close> for the
  workgroup and the NetBIOS name; the table \<open>bootinfo\<close> holds the device data, filled from the
  command line and from \<^verbatim>\<open>/proc/sys/dev/boot/info\<close> by \<open>set_getresp\<close> and read by \<open>get_getresp\<close>.
\<close>

section \<open>Reading lines\<close>

text \<open>\<open>fgets\<close> into a buffer of \<open>n\<close> characters: the characters stored, and what is left of the file.\<close>

definition fgets :: "nat \<Rightarrow> string \<Rightarrow> (string \<times> string) option" where
  "fgets n s = (if s = [] then None
     else let l = takeWhile (\<lambda>c. c \<noteq> LF) s;
              line = take (n - 1) (if length l < length s then l @ [LF] else l)
          in Some (line, drop (length line) s))"

lemma fgets_shorter: "1 < n \<Longrightarrow> fgets n s = Some (line, rest) \<Longrightarrow> length rest < length s"
  by (cases s) (auto simp: fgets_def Let_def split: if_splits)

section \<open>Parameters of Samba\<close>

text \<open>The trailing blanks go, up to the first character, which stays; then the leading ones.\<close>

fun trim_end :: "string \<Rightarrow> string" where
  "trim_end [] = []"
| "trim_end (c # cs) = c # rev (dropWhile isspace (rev cs))"

definition smb_command :: "string \<Rightarrow> string" where
  "smb_command nm = ''testparm -s --parameter-name=\"'' @ nm @ ''\" 2>/dev/null''"

definition get_smbparm :: "os \<Rightarrow> string \<Rightarrow> string \<Rightarrow> string option M" where
  "get_smbparm os nm deflt =
     bind (alloc os) (\<lambda>ok.
     if \<not> ok then bind (set_err ''get_smbparm: Can't allocate cmd string'') (\<lambda>_. ret None)
     else bind (failing (\<lambda>n. os_popen os n (smb_command nm))) (\<lambda>pp. case pp of
       None \<Rightarrow> bind (set_err ''get_smbparm: Can't run testparam'') (\<lambda>_. strdup os deflt)
     | Some output \<Rightarrow>
         (case fgets 80 output of
            None \<Rightarrow> strdup os deflt
          | Some (line, _) \<Rightarrow>
              let buf = upto_NUL line in
              if buf = [] \<or> hd buf = LF then strdup os deflt
              else strdup os (dropWhile isspace (trim_end buf)))))"

section \<open>The table of device data\<close>

definition initial_bootinfo :: "bootent list" where
  "initial_bootinfo =
    [\<lparr>key = ''vendor:'', dflt = ''NETGEAR'', val = None\<rparr>,
     \<lparr>key = ''model:'', dflt = ''ReadyNAS 314'', val = None\<rparr>,
     \<lparr>key = ''serial:'', dflt = ''0'', val = None\<rparr>,
     \<lparr>key = ''sku:'', dflt = ''RN314'', val = None\<rparr>,
     \<lparr>key = ''vendorurl:'', dflt = ''http://www.netgear.com'', val = None\<rparr>,
     \<lparr>key = ''modelurl:'', dflt = ''http://www.netgear.com'', val = None\<rparr>,
     \<lparr>key = ''presentationurl:'', dflt = ''http://www.netgear.com'', val = None\<rparr>]"

fun find_index :: "('a \<Rightarrow> bool) \<Rightarrow> 'a list \<Rightarrow> nat option" where
  "find_index P [] = None"
| "find_index P (x # xs) = (if P x then Some 0 else map_option Suc (find_index P xs))"

text \<open>
  The scan of a setting, after leading blanks: either the place where it is given up, or the key, the
  characters duplicated as its value, and \<open>*next\<close> (none for a null pointer).
\<close>

definition parse_setting :: "string \<Rightarrow> string + (string \<times> string \<times> string option)" where
  "parse_setting str =
     (let p = dropWhile (\<lambda>c. \<not> isspace c \<and> c \<noteq> CHR '':'' \<and> c \<noteq> CHR '','') str in
      if p = [] \<or> (\<not> isspace (hd p) \<and> hd p \<noteq> CHR '':'') then Inl p
      else
      let keylen = length str - length p;
          v = dropWhile isspace (tl p) in
      if v = [] \<or> hd v = CHR '':'' then Inl v
      else
      let q = dropWhile (\<lambda>c. c \<noteq> CHR '':'' \<and> c \<noteq> CHR '','') v in
      if q \<noteq> [] \<and> hd q \<noteq> CHR '','' then Inl q
      else
      let vallen = length v - length q in
      Inr (take keylen str, take (vallen + 1) v, if q \<noteq> [] then Some (tl q) else None))"

text \<open>The table lookup compares as many characters as the key given has.\<close>

definition store_setting :: "os \<Rightarrow> string \<Rightarrow> string \<Rightarrow> int M" where
  "store_setting os k v =
     bind (get bootinfo) (\<lambda>tab.
     case find_index (\<lambda>e. strncasecmp_eq (key e) k (length k)) tab of
       None \<Rightarrow> ret (- 1)
     | Some i \<Rightarrow>
         if val (tab ! i) = None then
           bind (strdup os v) (\<lambda>d.
           bind (modify (\<lambda>w. w\<lparr>bootinfo := tab[i := (tab ! i)\<lparr>val := d\<rparr>]\<rparr>)) (\<lambda>_. ret 0))
         else ret 0)"

text \<open>
  The result and what is stored in \<open>*next\<close>. With \<open>next\<close> null (\<open>hasnext\<close> false) nothing is stored,
  except that the exit for a blank string stores without asking.
\<close>

definition set_getresp :: "os \<Rightarrow> string \<Rightarrow> bool \<Rightarrow> (int \<times> string option) M" where
  "set_getresp os s hasnext =
     (let str = dropWhile isspace s in
      if str = [] then (if hasnext then ret (0, Some str) else crash NullDeref)
      else (case parse_setting str of
        Inl p \<Rightarrow> ret (- 1, Some p)
      | Inr (k, v, nxt) \<Rightarrow> bind (store_setting os k v) (\<lambda>rv. ret (rv, nxt))))"

definition get_getresp :: "bootent list \<Rightarrow> string \<Rightarrow> string" where
  "get_getresp tab k = (case find (\<lambda>e. key e = k) tab of
       Some e \<Rightarrow> (case val e of Some v \<Rightarrow> v | None \<Rightarrow> dflt e)
     | None \<Rightarrow> ''UNKNOWN'')"

text \<open>What \<open>printBootInfoKeys\<close> prints: the keys, one a line, indented by \<open>sp\<close>.\<close>

definition printBootInfoKeys :: "bootent list \<Rightarrow> nat \<Rightarrow> string" where
  "printBootInfoKeys tab sp = concat (map (\<lambda>e. replicate sp CHR '' '' @ key e @ [LF]) tab)"

function init_getresp_loop :: "os \<Rightarrow> string \<Rightarrow> unit M" where
  "init_getresp_loop os s = (case fgets 80 s of
       None \<Rightarrow> ret ()
     | Some (line, rest) \<Rightarrow>
         bind (set_getresp os (upto_NUL line) False) (\<lambda>_. init_getresp_loop os rest))"
  by pat_completeness auto
termination
  by (relation "measure (\<lambda>(os, s). length s)") (auto dest: fgets_shorter [rotated])

declare init_getresp_loop.simps [simp del]

definition init_getresp :: "os \<Rightarrow> unit M" where
  "init_getresp os =
     bind (failing (\<lambda>n. os_file os n ''/proc/sys/dev/boot/info'')) (\<lambda>fp.
     bind (case fp of None \<Rightarrow> ret () | Some content \<Rightarrow> init_getresp_loop os content) (\<lambda>_.
     modify (\<lambda>w. w\<lparr>getresp_inited := True\<rparr>)))"

section \<open>Memory safety and frames of the parameter code\<close>

lemma safe_get_smbparm [safe_rules]: "safe (get_smbparm os nm d)"
  unfolding get_smbparm_def by (intro safe_branches safe_rules)

lemma silent_get_smbparm [frame_rules]: "keeps silent (get_smbparm os nm d)"
  unfolding get_smbparm_def Let_def by (intro sil.keeps_intros frame_rules)

lemma silent_modify [frame_rules]: 
  "(\<And>w. trace (g w) = trace w) \<Longrightarrow> (\<And>w. restart (g w) = restart w) \<Longrightarrow> keeps silent (modify g)"
  by (simp add: keeps_def modify_def silent_def)

lemma silent_store_setting [frame_rules]: "keeps silent (store_setting os k v)"
  unfolding store_setting_def by (intro sil.keeps_intros frame_rules) simp_all

lemma silent_set_getresp [frame_rules]: "keeps silent (set_getresp os s b)"
  unfolding set_getresp_def Let_def by (intro sil.keeps_intros frame_rules)

lemma safe_store_setting [safe_rules]: "safe (store_setting os k v)"
  unfolding store_setting_def by (intro safe_branches safe_rules)

text \<open>
  The order on the table: keys and defaults stand, and a value, once there, stays.
\<close>

definition ent_le :: "bootent \<Rightarrow> bootent \<Rightarrow> bool" where
  "ent_le a b \<longleftrightarrow> key b = key a \<and> dflt b = dflt a \<and> (val a = None \<or> val b = val a)"

definition boot_le :: "world \<Rightarrow> world \<Rightarrow> bool" where
  "boot_le s t \<longleftrightarrow> list_all2 ent_le (bootinfo s) (bootinfo t)"

interpretation boot: frame boot_le
proof
  show "boot_le s s" for s
    by (simp add: boot_le_def ent_le_def list_all2_same)
  show "boot_le s u" if "boot_le s t" "boot_le t u" for s t u
    using that unfolding boot_le_def
    by (rule list_all2_trans [rotated]) (auto simp: ent_le_def)
qed

lemma boot_le_eq: "bootinfo t = bootinfo s \<Longrightarrow> boot_le s t"
  using boot.frame_refl by (simp add: boot_le_def)

lemma boot_le_update:
  "val (bootinfo w ! i) = None \<Longrightarrow> bootinfo t = (bootinfo w)[i := (bootinfo w ! i)\<lparr>val := d\<rparr>] \<Longrightarrow>
   boot_le w t"
  by (cases "i < length (bootinfo w)")
    (auto simp: boot_le_def list_all2_conv_all_nth nth_list_update ent_le_def)

lemma boot_store_setting: "keeps boot_le (store_setting os k v)"
  unfolding keeps_def store_setting_def strdup_def alloc_def
  by (auto simp: exec_simps split: if_splits option.splits)
    (rule boot_le_update, assumption, simp | rule boot_le_eq, simp)+

lemma boot_set_getresp: "keeps boot_le (set_getresp os s b)"
  unfolding set_getresp_def Let_def by (intro boot.keeps_intros boot_store_setting)

lemma boot_init_loop: "keeps boot_le (init_getresp_loop os s)"
proof (induction s rule: length_induct)
  case (1 s)
  show ?case
    by (subst init_getresp_loop.simps)
      (auto split: option.splits intro!: boot.keeps_ret boot.keeps_bind boot_set_getresp
        dest: fgets_shorter [rotated] simp: 1)
qed

lemma boot_init_getresp: "keeps boot_le (init_getresp os)"
  unfolding init_getresp_def
  by (intro boot.keeps_intros boot.keeps_modify boot_init_loop boot_le_eq)
    (auto simp: keeps_def failing_def exec_simps split: sum.splits intro!: boot_le_eq)

section \<open>What is read is what is announced\<close>

text \<open>A well-formed setting: blanks, the key, a colon, blanks, the value, then the end or a comma.\<close>

definition setting_key :: "string \<Rightarrow> bool" where
  "setting_key k \<longleftrightarrow> k \<noteq> [] \<and> (\<forall>c\<in>set k. \<not> isspace c \<and> c \<noteq> CHR '':'' \<and> c \<noteq> CHR '','')"

definition setting_value :: "string \<Rightarrow> bool" where
  "setting_value v \<longleftrightarrow> v \<noteq> [] \<and> \<not> isspace (hd v) \<and> (\<forall>c\<in>set v. c \<noteq> CHR '':'' \<and> c \<noteq> CHR '','')"

definition blanks :: "string \<Rightarrow> bool" where
  "blanks s \<longleftrightarrow> (\<forall>c\<in>set s. isspace c)"

lemma dropWhile_blanks: "blanks ws \<Longrightarrow> s = [] \<or> \<not> isspace (hd s) \<Longrightarrow> dropWhile isspace (ws @ s) = s"
  by (cases s) (auto simp: blanks_def intro: dropWhile_append_stop)

lemma dropWhile_key:
  "setting_key k \<Longrightarrow>
   dropWhile (\<lambda>c. \<not> isspace c \<and> c \<noteq> CHR '':'' \<and> c \<noteq> CHR '','') (k @ CHR '':'' # s) = CHR '':'' # s"
  by (rule dropWhile_append_stop) (auto simp: setting_key_def)

lemma parse_setting_key:
  assumes "blanks ws" and k: "setting_key k" and v: "v \<noteq> []" "\<not> isspace (hd v)" "hd v \<noteq> CHR '':''"
  shows "parse_setting (k @ CHR '':'' # ws @ v) =
    (let q = dropWhile (\<lambda>c. c \<noteq> CHR '':'' \<and> c \<noteq> CHR '','') v in
      if q \<noteq> [] \<and> hd q \<noteq> CHR '','' then Inl q
      else Inr (k, take (length v - length q + 1) v, if q \<noteq> [] then Some (tl q) else None))"
proof -
  have blanks: "dropWhile isspace (ws @ v) = v"
    using v dropWhile_blanks [OF assms(1), of v] by simp
  have key: "take (length (k @ CHR '':'' # ws @ v) - length (CHR '':'' # ws @ v))
      (k @ CHR '':'' # ws @ v) = k"
    by simp
  show ?thesis
    unfolding parse_setting_def dropWhile_key [OF k] Let_def list.sel blanks key
    using v by (simp split del: if_split del: dropWhile_eq_Nil_conv)
qed

lemma set_getresp_parsed:
  assumes "blanks ws" and "setting_key k"
  shows "set_getresp os (ws @ k @ CHR '':'' # s) hasnext = (case parse_setting (k @ CHR '':'' # s) of
      Inl p \<Rightarrow> ret (- 1, Some p)
    | Inr (k, v, nxt) \<Rightarrow> bind (store_setting os k v) (\<lambda>rv. ret (rv, nxt)))"
proof -
  have ne: "k \<noteq> []" and "\<not> isspace (hd k)"
    using assms(2) by (auto simp: setting_key_def)
  then have "dropWhile isspace (ws @ k @ CHR '':'' # s) = k @ CHR '':'' # s"
    by (intro dropWhile_blanks [OF assms(1)]) simp
  with ne show ?thesis by (simp add: set_getresp_def)
qed

lemma store_setting_run:
  assumes "mem_ok os" and "find_index (\<lambda>e. strncasecmp_eq (key e) k (length k)) (bootinfo w) = Some i"
  shows "runs (store_setting os k v) w (\<lambda>rv t. rv = 0 \<and>
    bootinfo t = (if val (bootinfo w ! i) = None
      then (bootinfo w)[i := (bootinfo w ! i)\<lparr>val := Some v\<rparr>] else bootinfo w))"
  using assms
  by (auto simp: runs_def store_setting_def strdup_def exec_simps alloc_ok [OF assms(1)])

lemma find_index_SomeD: "find_index P xs = Some i \<Longrightarrow> i < length xs \<and> P (xs ! i)"
  by (induction xs arbitrary: i) (auto split: if_splits)

lemma find_unique:
  "distinct (map f xs) \<Longrightarrow> i < length xs \<Longrightarrow> find (\<lambda>e. f e = f (xs ! i)) xs = Some (xs ! i)"
  by (induction xs arbitrary: i) (auto simp: nth_Cons' rev_image_eqI)

lemma find_update_other:
  "f e = f (xs ! i) \<Longrightarrow> f (xs ! i) \<noteq> k \<Longrightarrow>
   find (\<lambda>e. f e = k) (xs[i := e]) = find (\<lambda>e. f e = k) xs"
proof (induction xs arbitrary: i)
  case (Cons x xs)
  then show ?case by (cases i) auto
qed simp

lemma get_getresp_update:
  assumes "distinct (map key tab)" and "i < length tab"
  shows "get_getresp (tab[i := (tab ! i)\<lparr>val := Some v\<rparr>]) k =
    (if k = key (tab ! i) then v else get_getresp tab k)"
proof -
  let ?e = "(tab ! i)\<lparr>val := Some v\<rparr>"
  have keys: "map key (tab[i := ?e]) = map key tab"
    using assms(2) by (simp add: map_update list_update_same_conv)
  show ?thesis
  proof (cases "k = key (tab ! i)")
    case True
    then show ?thesis
      using find_unique [of key "tab[i := ?e]" i] assms keys by (simp add: get_getresp_def)
  next
    case False
    then show ?thesis
      using find_update_other [of key ?e tab i k] by (simp add: get_getresp_def)
  qed
qed

text \<open>
  C31. A setting \<open>key: value\<close>, ended by the end of the string or by a comma, goes into the table
  under the first entry the key abbreviates (in any case) unless that entry is set already: the
  device then announces the value \<^emph>\<open>with the comma that ended it\<close>, and all else as before; the scan
  goes on behind the comma. (\<open>strndup\<close> is given one character too many.)
\<close>

theorem set_getresp_stores:
  assumes "mem_ok os" and "blanks ws" "blanks ws'" "setting_key k" "setting_value v"
    and "rest = [] \<or> hd rest = CHR '',''"
    and i: "find_index (\<lambda>e. strncasecmp_eq (key e) k (length k)) (bootinfo w) = Some i"
    and "distinct (map key (bootinfo w))"
  shows "runs (set_getresp os (ws @ k @ CHR '':'' # ws' @ v @ rest) hasnext) w (\<lambda>(rv, nxt) t.
    rv = 0 \<and> nxt = (if rest = [] then None else Some (tl rest)) \<and>
    (\<forall>j. get_getresp (bootinfo t) j =
      (if val (bootinfo w ! i) = None \<and> j = key (bootinfo w ! i) then v @ take 1 rest
       else get_getresp (bootinfo w) j)))"
proof -
  have "dropWhile (\<lambda>c. c \<noteq> CHR '':'' \<and> c \<noteq> CHR '','') (v @ rest) = rest"
    using assms(5,6)
    by (cases rest) (auto simp: setting_value_def dropWhile_eq_Nil_conv intro: dropWhile_append_stop)
  then have parse: "parse_setting (k @ CHR '':'' # ws' @ v @ rest) =
      Inr (k, v @ take 1 rest, if rest \<noteq> [] then Some (tl rest) else None)"
    using assms(3-6) by (subst parse_setting_key) (auto simp: setting_value_def Let_def)
  have dist: "get_getresp ((bootinfo w)[i := (bootinfo w ! i)\<lparr>val := Some x\<rparr>]) j =
      (if j = key (bootinfo w ! i) then x else get_getresp (bootinfo w) j)" for x j
    using get_getresp_update [OF assms(8)] find_index_SomeD [OF i] by blast
  show ?thesis
    by (simp add: set_getresp_parsed [OF assms(2,4)] parse; intro conjI impI;
        rule runs_mono [OF store_setting_run [OF assms(1) i]]; auto simp: dist)
qed

definition boot_world :: world where
  "boot_world = zero_world\<lparr>bootinfo := initial_bootinfo\<rparr>"

theorem set_getresp_stores_witness:
  "runs (set_getresp lan_os ''model: X1,sku:Z'' True) boot_world (\<lambda>(rv, nxt) t.
     rv = 0 \<and> nxt = Some ''sku:Z'' \<and> get_getresp (bootinfo t) ''model:'' = ''X1,'')"
proof -
  have i: "find_index (\<lambda>e. strncasecmp_eq (key e) ''model'' (length ''model'')) (bootinfo boot_world)
      = Some 1" and v: "val (bootinfo boot_world ! 1) = None" "key (bootinfo boot_world ! 1) = ''model:''"
    by (simp_all add: boot_world_def initial_bootinfo_def strncasecmp_eq_def tolower_def char_of_def
        bit_0)
  have "runs (set_getresp lan_os ([] @ ''model'' @ CHR '':'' # '' '' @ ''X1'' @ '',sku:Z'') True)
      boot_world (\<lambda>(rv, nxt) t. rv = 0 \<and> nxt = (if '',sku:Z'' = [] then None else Some (tl '',sku:Z'')) \<and>
      (\<forall>j. get_getresp (bootinfo t) j =
        (if val (bootinfo boot_world ! 1) = None \<and> j = key (bootinfo boot_world ! 1)
         then ''X1'' @ take 1 '',sku:Z'' else get_getresp (bootinfo boot_world) j)))"
    by (rule set_getresp_stores [OF _ _ _ _ _ _ i])
      (simp_all add: blanks_def setting_key_def setting_value_def isspace_def boot_world_def
        initial_bootinfo_def)
  then show ?thesis
    by (auto simp: v [unfolded One_nat_def] elim!: runs_mono)
qed

text \<open>
  A value with a colon in it is refused: \<open>set_getresp\<close> returns -1 and changes nothing. So the
  three URL entries of the table cannot be set to a URL.
\<close>

theorem set_getresp_colon:
  assumes "blanks ws" "blanks ws'" "setting_key k" "setting_value v"
  shows "set_getresp os (ws @ k @ CHR '':'' # ws' @ v @ CHR '':'' # rest) hasnext w =
    Inr ((- 1, Some (CHR '':'' # rest)), w)"
proof -
  have q: "dropWhile (\<lambda>c. c \<noteq> CHR '':'' \<and> c \<noteq> CHR '','') (v @ CHR '':'' # rest) = CHR '':'' # rest"
    using assms(4) by (auto simp: setting_value_def intro: dropWhile_append_stop)
  have "parse_setting (k @ CHR '':'' # ws' @ v @ CHR '':'' # rest) = Inl (CHR '':'' # rest)"
    using assms(2-4) q by (subst parse_setting_key) (auto simp: setting_value_def Let_def)
  then show ?thesis
    by (simp add: set_getresp_parsed [OF assms(1,3)] ret_run)
qed

theorem set_getresp_colon_witness:
  "set_getresp lan_os ''vendorurl: http://x/'' True boot_world = Inr ((- 1, Some ''://x/''), boot_world)"
  using set_getresp_colon [of "[]" "'' ''" "''vendorurl''" "''http''" lan_os "''//x/''" True boot_world]
  by (simp add: blanks_def setting_key_def setting_value_def isspace_def)

text \<open>
  C32. What the device announces is settled by the first setting: no further setting, and not the boot
  information of the kernel, changes a value that is set, a key or a default.
\<close>

theorem settings_first_wins:
  "keeps boot_le (set_getresp os s hasnext) \<and> keeps boot_le (init_getresp os)"
  by (intro conjI boot_set_getresp boot_init_getresp)

section \<open>The boot information file\<close>

text \<open>The strings that reach \<open>set_getresp\<close>: the lines, in pieces of at most 79 characters.\<close>

function boot_lines :: "string \<Rightarrow> string list" where
  "boot_lines s = (case fgets 80 s of
       None \<Rightarrow> []
     | Some (line, rest) \<Rightarrow> upto_NUL line # boot_lines rest)"
  by pat_completeness auto
termination
  by (relation "measure length") (auto dest: fgets_shorter [rotated])

declare boot_lines.simps [simp del]

lemma set_getresp_fault:
  "set_getresp os l False w = Inl f \<longleftrightarrow> blanks l \<and> f = NullDeref"
proof (cases "blanks l")
  case True
  then have "dropWhile isspace l = []" by (simp add: blanks_def)
  with True show ?thesis by (auto simp: set_getresp_def crash_run)
next
  case False
  then have ne: "dropWhile isspace l \<noteq> []" by (simp add: blanks_def)
  have "safe (set_getresp os l False)"
    unfolding set_getresp_def Let_def if_not_P [OF ne]
    by (intro safe_branches safe_rules)
  with False show ?thesis by (metis safe_def sum.distinct(1))
qed

lemma init_getresp_loop_fault:
  "init_getresp_loop os s w = Inl f \<longleftrightarrow> (\<exists>l\<in>set (boot_lines s). blanks l) \<and> f = NullDeref"
proof (induction s arbitrary: w rule: length_induct)
  case (1 s)
  show ?case
  proof (cases "fgets 80 s")
    case None
    then show ?thesis
      by (simp add: init_getresp_loop.simps [of os s] boot_lines.simps [of s] ret_run)
  next
    case (Some lr)
    obtain line rest where lr: "lr = (line, rest)" by (cases lr)
    with Some have IH: "init_getresp_loop os rest v = Inl f \<longleftrightarrow>
        (\<exists>l\<in>set (boot_lines rest). blanks l) \<and> f = NullDeref" for v
      using 1 fgets_shorter [of 80 s] by simp
    have step: "init_getresp_loop os s w = (case set_getresp os (upto_NUL line) False w of
        Inl f \<Rightarrow> Inl f | Inr (a, t) \<Rightarrow> init_getresp_loop os rest t)"
      by (simp add: init_getresp_loop.simps [of os s] Some lr bind_run)
    show ?thesis
    proof (cases "set_getresp os (upto_NUL line) False w")
      case (Inl a)
      then have "blanks (upto_NUL line) \<and> a = NullDeref"
        by (simp add: set_getresp_fault)
      with Inl show ?thesis
        by (auto simp: step boot_lines.simps [of s] Some lr)
    next
      case (Inr r)
      then have "\<not> blanks (upto_NUL line)"
        using set_getresp_fault [of os "upto_NUL line" w NullDeref] by auto
      with Inr show ?thesis
        using IH by (cases r) (auto simp: step boot_lines.simps [of s] Some lr)
    qed
  qed
qed

text \<open>
  Reading \<^verbatim>\<open>/proc/sys/dev/boot/info\<close> is memory safe unless the file has a blank line (or a blank
  piece of a line longer than 79 characters): then, and only then, \<open>set_getresp\<close> stores through the
  null pointer it was given.
\<close>

theorem init_getresp_fault:
  "init_getresp os w = Inl f \<longleftrightarrow> f = NullDeref \<and>
    (case os_file os (calls w) ''/proc/sys/dev/boot/info'' of
       Inl e \<Rightarrow> False
     | Inr s \<Rightarrow> list_ex blanks (boot_lines s))"
proof (cases "os_file os (calls w) ''/proc/sys/dev/boot/info''")
  case (Inl e)
  then show ?thesis by (simp add: init_getresp_def failing_def exec_simps)
next
  case (Inr s)
  let ?w = "w\<lparr>calls := Suc (calls w)\<rparr>"
  have "init_getresp os w = Inl f \<longleftrightarrow> init_getresp_loop os s ?w = Inl f"
    using Inr by (auto simp: init_getresp_def failing_def exec_simps split: sum.splits)
  with Inr show ?thesis
    by (simp add: init_getresp_loop_fault list_ex_iff conj_commute)
qed

section \<open>Samba's answer\<close>

text \<open>
  What is announced of an answer: its first line, of which a buffer of 80 characters holds 79, up to a
  NUL, without the blanks at both ends.
\<close>

definition first_line :: "string \<Rightarrow> string" where
  "first_line out = upto_NUL (take 79 (takeWhile (\<lambda>c. c \<noteq> LF) out))"

definition strip :: "string \<Rightarrow> string" where
  "strip s = rev (dropWhile isspace (rev (dropWhile isspace s)))"

lemma strip_blanks_end: "blanks ws \<Longrightarrow> strip (s @ ws) = strip s"
proof (cases "blanks s")
  case True
  moreover assume "blanks ws"
  ultimately have "dropWhile isspace (s @ ws) = []" "dropWhile isspace s = []"
    by (auto simp: blanks_def list_all_iff dropWhile_eq_Nil_conv)
  then show ?thesis by (simp only: strip_def)
next
  case False
  assume ws: "blanks ws"
  from False have "dropWhile isspace (s @ ws) = dropWhile isspace s @ ws"
    by (auto simp: blanks_def list_all_iff dropWhile_append)
  with ws show ?thesis
    by (simp add: strip_def dropWhile_append blanks_def list_all_iff)
qed

lemma strip_trim: "dropWhile isspace (trim_end s) = strip s"
proof (cases s)
  case (Cons c cs)
  let ?t = "rev (dropWhile isspace (rev cs))" and ?ws = "rev (takeWhile isspace (rev cs))"
  have "rev cs = rev (?t @ ?ws)" by simp
  then have cs: "cs = ?t @ ?ws" by (simp only: rev_is_rev_conv)
  have "blanks ?ws" by (auto simp: blanks_def list_all_iff dest: set_takeWhileD)
  then have "strip s = strip (c # ?t)"
    using strip_blanks_end [of ?ws "c # ?t"] cs Cons by simp
  also have "strip (c # ?t) = dropWhile isspace (c # ?t)"
  proof -
    have "dropWhile isspace (rev (dropWhile isspace (c # ?t))) = rev (dropWhile isspace (c # ?t))"
    proof (cases "dropWhile isspace (c # ?t) = []")
      case False
      then have "\<not> isspace (last (dropWhile isspace (c # ?t)))"
        using hd_dropWhile [of isspace "rev cs"]
        by (cases "?t = []") (auto simp: last_rev dropWhile_last split: if_splits)
      with False show ?thesis by (simp add: dropWhile_eq_self_iff hd_rev)
    qed simp
    then show ?thesis by (simp add: strip_def)
  qed
  finally show ?thesis by (simp add: Cons)
qed (simp add: strip_def)

lemma fgets_first_line:
  assumes "out \<noteq> []"
  obtains line rest where "fgets 80 out = Some (line, rest)"
    and "upto_NUL line = first_line out \<or> upto_NUL line = first_line out @ [LF]"
proof -
  let ?l = "takeWhile (\<lambda>c. c \<noteq> LF) out"
  have cut: "upto_NUL (?l @ [LF]) = upto_NUL ?l \<or> upto_NUL (?l @ [LF]) = upto_NUL ?l @ [LF]"
  proof (cases "NUL \<in> set ?l")
    case True
    then have "upto_NUL (?l @ [LF]) = upto_NUL ?l" unfolding upto_NUL_def by (rule takeWhile_append1) simp
    then show ?thesis ..
  next
    case False
    then have "cstring ?l" "cstring (?l @ [LF])" by (simp_all add: cstring_def)
    then show ?thesis by (simp add: upto_NUL_id)
  qed
  have "upto_NUL (take 79 (?l @ [LF])) = first_line out \<or> upto_NUL (take 79 (?l @ [LF])) = first_line out @ [LF]"
  proof (cases "length ?l < 79")
    case True
    then have "take 79 ?l = ?l" "take 79 (?l @ [LF]) = ?l @ [LF]" by simp_all
    then show ?thesis using cut by (simp only: first_line_def)
  next
    case False
    then have "take 79 (?l @ [LF]) = take 79 ?l" by simp
    then show ?thesis by (simp only: first_line_def simp_thms)
  qed
  with assms that show ?thesis by (auto simp: fgets_def Let_def first_line_def)
qed

text \<open>
  C33. \<open>get_smbparm\<close> returns what Samba's \<^verbatim>\<open>testparm\<close> prints on its first line, cut off after 79 characters,
  without the blanks around it; when it cannot be run, or the line is empty, the default. A line of
  blanks is not empty for it: it gives the empty name. Memory must not run out.
\<close>

theorem get_smbparm_value:
  assumes "mem_ok os"
  shows "runs (get_smbparm os nm d) w (\<lambda>r t. silent w t \<and>
    r = Some (case os_popen os (Suc (calls w)) (smb_command nm) of
       Inl e \<Rightarrow> d
     | Inr out \<Rightarrow> if first_line out = [] then d else strip (first_line out)))"
proof -
  have "LF \<notin> set (first_line out)" for out
    by (auto simp: first_line_def upto_NUL_def dest!: set_takeWhileD in_set_takeD)
  then have hd: "hd (first_line out) \<noteq> LF" if "first_line out \<noteq> []" for out
    using that by (metis list.set_sel(1))
  have LF: "blanks [LF]" by (simp add: blanks_def isspace_def)
  show ?thesis
  proof (cases "os_popen os (Suc (calls w)) (smb_command nm)")
    case (Inl e)
    with assms show ?thesis
      by (simp add: get_smbparm_def strdup_def failing_def runs_def exec_simps alloc_ok silent_def)
  next
    case (Inr out)
    show ?thesis
    proof (cases "out = []")
      case True
      with Inr assms show ?thesis
        by (simp add: get_smbparm_def strdup_def failing_def runs_def exec_simps alloc_ok silent_def
            fgets_def first_line_def upto_NUL_def)
    next
      case False
      then obtain line rest where f: "fgets 80 out = Some (line, rest)"
        and u: "upto_NUL line = first_line out \<or> upto_NUL line = first_line out @ [LF]"
        by (rule fgets_first_line)
      have e: "upto_NUL line = [] \<or> hd (upto_NUL line) = LF \<longleftrightarrow> first_line out = []"
        using u hd [of out] by (cases "first_line out") auto
      have v: "dropWhile isspace (trim_end (upto_NUL line)) = strip (first_line out)"
        using u strip_blanks_end [OF LF] by (auto simp: strip_trim)
      show ?thesis
        using Inr assms
        by (simp add: get_smbparm_def strdup_def failing_def runs_def exec_simps alloc_ok silent_def
            f Let_def e v)
    qed
  qed
qed

definition samba_os :: os where
  "samba_os = lan_os\<lparr>os_popen := (\<lambda>n c. Inr ('' HOME'' @ [LF]))\<rparr>"

theorem get_smbparm_value_witness:
  "runs (get_smbparm samba_os ''workgroup'' ''WORKGROUP'') zero_world (\<lambda>r t. r = Some ''HOME'')"
proof -
  have mem: "mem_ok samba_os"
    by (simp add: samba_os_def mem_ok_def lan_os_def quiet_os_def)
  have out: "os_popen samba_os n c = Inr ('' HOME'' @ [LF])" for n c
    by (simp add: samba_os_def)
  show ?thesis
    by (rule runs_mono [OF get_smbparm_value [OF mem]])
      (simp add: out first_line_def upto_NUL_def strip_def isspace_def)
qed

end
