(* ===== verification/Wsd_Xml.thy ===== *)
theory Wsd_Xml
  imports Wsd_Params
begin

text \<open>
  The XML side of wsd.c: the flat tag finder \<open>wsd_tag_find\<close>, the request parser \<open>wsd_req_parse\<close> and
  the action table \<open>wsd_action_id\<close>. A pointer into the buffer is the C string that starts there.
\<close>

section \<open>Names\<close>

definition WSD_ACT_HELLO :: string where
  "WSD_ACT_HELLO = ''http://schemas.xmlsoap.org/ws/2005/04/discovery/Hello''"
definition WSD_ACT_BYE :: string where
  "WSD_ACT_BYE = ''http://schemas.xmlsoap.org/ws/2005/04/discovery/Bye''"
definition WSD_ACT_PROBE :: string where
  "WSD_ACT_PROBE = ''http://schemas.xmlsoap.org/ws/2005/04/discovery/Probe''"
definition WSD_ACT_PROBEMATCH :: string where
  "WSD_ACT_PROBEMATCH = ''http://schemas.xmlsoap.org/ws/2005/04/discovery/ProbeMatches''"
definition WSD_ACT_RESOLVE :: string where
  "WSD_ACT_RESOLVE = ''http://schemas.xmlsoap.org/ws/2005/04/discovery/Resolve''"
definition WSD_ACT_RESOLVEMATCH :: string where
  "WSD_ACT_RESOLVEMATCH = ''http://schemas.xmlsoap.org/ws/2005/04/discovery/ResolveMatches''"
definition WXT_ACT_GET :: string where
  "WXT_ACT_GET = ''http://schemas.xmlsoap.org/ws/2004/09/transfer/Get''"
definition WXT_ACT_GETRESPONSE :: string where
  "WXT_ACT_GETRESPONSE = ''http://schemas.xmlsoap.org/ws/2004/09/transfer/GetResponse''"
definition WSD_TO_DISCOVERY :: string where
  "WSD_TO_DISCOVERY = ''urn:schemas-xmlsoap-org:ws:2005:04:discovery''"
definition WSD_TO_ANONYMOUS :: string where
  "WSD_TO_ANONYMOUS = ''http://schemas.xmlsoap.org/ws/2004/08/addressing/role/anonymous''"

datatype wsd_action =
    WSD_ACTION_NONE | WSD_ACTION_HELLO | WSD_ACTION_BYE | WSD_ACTION_PROBE | WSD_ACTION_PROBEMATCH
  | WSD_ACTION_RESOLVE | WSD_ACTION_RESOLVEMATCH | WSD_ACTION_GET | WSD_ACTION_GETRESPONSE

text \<open>The fields of \<open>struct wsd_req_info\<close> in use; none is a null pointer.\<close>

record wsd_req_info =
  action :: "string option"
  msgid :: "string option"

section \<open>Tags\<close>

text \<open>\<open>while (p < q && isspace(q[-1])) q--;\<close>\<close>

definition rtrim :: "string \<Rightarrow> string" where
  "rtrim s = rev (dropWhile isspace (rev s))"

text \<open>
  The body of the loop for one pair of tags: the start of the content and its length. Only the first
  occurrence of the start tag is looked at.
\<close>

definition tag_content :: "string \<Rightarrow> string \<Rightarrow> string \<Rightarrow> (string \<times> nat) option" where
  "tag_content xml start stop = (case strstr xml start of
       None \<Rightarrow> None
     | Some i \<Rightarrow>
         let p = dropWhile isspace (drop (i + length start) xml) in
         (case strstr p stop of
            None \<Rightarrow> None
          | Some q \<Rightarrow>
              if (case strchr p CHR ''<'' of None \<Rightarrow> True | Some k \<Rightarrow> k < q) then None
              else Some (p, length (rtrim (take q p)))))"

fun wsd_tag_find :: "string \<Rightarrow> (string \<times> string) list \<Rightarrow> (string \<times> nat) option" where
  "wsd_tag_find xml [] = None"
| "wsd_tag_find xml ((start, stop) # tags) =
     (case tag_content xml start stop of None \<Rightarrow> wsd_tag_find xml tags | Some r \<Rightarrow> Some r)"

definition action_tag :: "(string \<times> string) list" where
  "action_tag =
     [(''<wsa:Action>'', ''</wsa:Action>''),
      (''<wsa:Action SOAP-ENV:mustUnderstand=\"true\">'', ''</wsa:Action>'')]"

definition msgid_tag :: "(string \<times> string) list" where
  "msgid_tag =
     [(''<wsa:MessageID>'', ''</wsa:MessageID>''),
      (''<wsa:MessageID SOAP-ENV:mustUnderstand=\"true\">'', ''</wsa:MessageID>'')]"

section \<open>Requests\<close>

definition strndup :: "os \<Rightarrow> string \<Rightarrow> nat \<Rightarrow> string option M" where
  "strndup os s n = strdup os (take n s)"

definition wsd_req_parse :: "os \<Rightarrow> string \<Rightarrow> wsd_req_info option M" where
  "wsd_req_parse os xml = (case wsd_tag_find xml action_tag of
       None \<Rightarrow> ret None
     | Some (act, action_len) \<Rightarrow> (case wsd_tag_find xml msgid_tag of
         None \<Rightarrow> ret None
       | Some (mid, msgid_len) \<Rightarrow>
           bind (alloc os) (\<lambda>ok.
           if \<not> ok then ret None else
           bind (strndup os act action_len) (\<lambda>a.
           bind (strndup os mid msgid_len) (\<lambda>m.
           ret (Some \<lparr>action = a, msgid = m\<rparr>))))))"

definition wsd_action_id :: "wsd_req_info option \<Rightarrow> wsd_action" where
  "wsd_action_id info = (case info of None \<Rightarrow> WSD_ACTION_NONE
     | Some i \<Rightarrow> (case action i of None \<Rightarrow> WSD_ACTION_NONE
     | Some a \<Rightarrow>
         if a = WSD_ACT_HELLO then WSD_ACTION_HELLO
         else if a = WSD_ACT_BYE then WSD_ACTION_BYE
         else if a = WSD_ACT_PROBE then WSD_ACTION_PROBE
         else if a = WSD_ACT_PROBEMATCH then WSD_ACTION_PROBEMATCH
         else if a = WSD_ACT_RESOLVE then WSD_ACTION_RESOLVE
         else if a = WSD_ACT_RESOLVEMATCH then WSD_ACTION_RESOLVEMATCH
         else if a = WXT_ACT_GET then WSD_ACTION_GET
         else if a = WXT_ACT_GETRESPONSE then WSD_ACTION_GETRESPONSE
         else WSD_ACTION_NONE))"

section \<open>What the tag finder returns\<close>

text \<open>A text without markup and without blanks around it.\<close>

definition plain_text :: "string \<Rightarrow> bool" where
  "plain_text s \<longleftrightarrow> CHR ''<'' \<notin> set s \<and> (s = [] \<or> \<not> isspace (hd s) \<and> \<not> isspace (last s))"

lemma rtrim_split: "\<exists>ws. s = rtrim s @ ws \<and> blanks ws"
proof -
  have "rev s = takeWhile isspace (rev s) @ dropWhile isspace (rev s)" by simp
  then have "s = rtrim s @ rev (takeWhile isspace (rev s))"
    unfolding rtrim_def by (metis rev_append rev_rev_ident)
  then show ?thesis
    by (intro exI) (auto simp: blanks_def dest: set_takeWhileD)
qed

lemma rtrim_last:
  assumes "rtrim s \<noteq> []"
  shows "\<not> isspace (last (rtrim s))"
proof -
  have "dropWhile isspace (rev s) \<noteq> []" using assms by (simp add: rtrim_def)
  then have "\<not> isspace (hd (dropWhile isspace (rev s)))" by (rule hd_dropWhile)
  then show ?thesis by (simp add: rtrim_def last_rev)
qed

lemma rtrim_id:
  assumes "s = [] \<or> \<not> isspace (last s)" and "blanks ws"
  shows "rtrim (s @ ws) = s"
proof -
  have "dropWhile isspace (rev ws @ rev s) = rev s"
    using assms by (intro dropWhile_blanks) (auto simp: blanks_def hd_rev)
  then show ?thesis by (simp add: rtrim_def)
qed

lemma dropWhile_split: "\<exists>ws. s = ws @ dropWhile isspace s \<and> blanks ws"
  by (intro exI [of _ "takeWhile isspace s"]) (auto simp: blanks_def dest: set_takeWhileD)

lemma strstr_split:
  assumes "strstr s n = Some i"
  shows "s = take i s @ n @ drop (i + length n) s"
proof -
  obtain r where r: "drop i s = n @ r"
    using strstr_SomeD [OF assms] by (auto simp: prefix_def)
  then have "drop (i + length n) s = r"
    by (metis add.commute append_eq_conv_conj drop_drop)
  with r show ?thesis by (metis append_take_drop_id)
qed

lemma take_rtrim:
  obtains ws where "take (length (rtrim s)) (s @ r) = rtrim s" and "s = rtrim s @ ws" and "blanks ws"
proof -
  obtain ws where ws: "s = rtrim s @ ws" "blanks ws"
    using rtrim_split by blast
  have "take (length (rtrim s)) ((rtrim s @ ws) @ r) = rtrim s" by simp
  with ws show ?thesis using that by simp
qed

lemma plain_textI:
  assumes "CHR ''<'' \<notin> set c" and "c \<noteq> [] \<Longrightarrow> \<not> isspace (hd c) \<and> \<not> isspace (last c)"
  shows "plain_text c"
  using assms by (auto simp: plain_text_def)

lemma tag_content_Some:
  assumes "tag_content xml start stop = Some (p, len)"
  shows "plain_text (take len p)" and "len \<le> length p"
    and "\<exists>pre ws ws' post. blanks ws \<and> blanks ws' \<and>
      xml = pre @ start @ ws @ take len p @ ws' @ stop @ post"
proof -
  from assms obtain i q k where i: "strstr xml start = Some i"
    and p: "p = dropWhile isspace (drop (i + length start) xml)" and q: "strstr p stop = Some q"
    and k: "strchr p CHR ''<'' = Some k" "\<not> k < q" and len: "len = length (rtrim (take q p))"
    by (auto simp: tag_content_def Let_def split: option.splits if_splits)
  obtain ws' where c: "take len p = rtrim (take q p)" and ws': "take q p = rtrim (take q p) @ ws'" "blanks ws'"
    by (rule take_rtrim [of "take q p" "drop q p"]) (simp only: append_take_drop_id len)
  note q' = ws' [folded c]
  have "length (take q p) = length (take len p) + length ws'" unfolding q' by simp
  then show "len \<le> length p" using c len by (simp add: min_def split: if_splits)
  have sub: "set (take len p) \<subseteq> set (take k p)"
    using q' k(2) by (metis Un_upper1 not_less order_trans set_append set_take_subset_set_take)
  show "plain_text (take len p)"
  proof (rule plain_textI)
    show "CHR ''<'' \<notin> set (take len p)"
      using sub k(1) by (auto simp: strchr_Some)
    assume ne: "take len p \<noteq> []"
    then have "hd (take len p) = hd p" "p \<noteq> []" by auto
    then have "\<not> isspace (hd (take len p))" using p hd_dropWhile by metis
    then show "\<not> isspace (hd (take len p)) \<and> \<not> isspace (last (take len p))"
      using rtrim_last ne c by metis
  qed
  obtain ws where ws: "drop (i + length start) xml = ws @ p" "blanks ws"
    using dropWhile_split p by blast
  have "xml = take i xml @ start @ ws @ take q p @ stop @ drop (q + length stop) p"
    using strstr_split [OF i] ws(1) strstr_split [OF q] by simp
  with q' ws(2) show "\<exists>pre ws ws' post. blanks ws \<and> blanks ws' \<and>
      xml = pre @ start @ ws @ take len p @ ws' @ stop @ post"
    by (metis append.assoc)
qed

lemma wsd_tag_find_Some:
  assumes "wsd_tag_find xml tags = Some (p, len)"
  shows "\<exists>start stop. (start, stop) \<in> set tags \<and> tag_content xml start stop = Some (p, len)"
  using assms by (induction xml tags rule: wsd_tag_find.induct) (auto split: option.splits)

lemma blanks_no_markup: "blanks ws \<Longrightarrow> CHR ''<'' \<notin> set ws"
proof -
  have "\<not> isspace CHR ''<''" by (simp add: isspace_def)
  then show "blanks ws \<Longrightarrow> CHR ''<'' \<notin> set ws" by (auto simp: blanks_def)
qed

text \<open>Conversely: a content behind the first start tag is found.\<close>

lemma tag_content_found:
  assumes xml: "xml = pre @ start @ ws @ c @ ws' @ (CHR ''<'' # stop) @ post"
    and first: "strstr xml start = Some (length pre)"
    and b: "blanks ws" "blanks ws'" and c: "plain_text c"
  shows "\<exists>p. tag_content xml start (CHR ''<'' # stop) = Some (p, length c) \<and> take (length c) p = c"
proof -
  let ?stop = "CHR ''<'' # stop"
  obtain vs where vs: "dropWhile isspace (ws @ c @ ws' @ ?stop @ post) = c @ vs @ ?stop @ post"
      "blanks vs"
  proof (cases "c = []")
    case True
    have "dropWhile isspace ((ws @ ws') @ ?stop @ post) = ?stop @ post"
      by (rule dropWhile_blanks) (use b in \<open>auto simp: blanks_def isspace_def\<close>)
    with True that [of "[]"] show ?thesis by (simp add: blanks_def)
  next
    case False
    then have "dropWhile isspace (ws @ c @ ws' @ ?stop @ post) = c @ ws' @ ?stop @ post"
      by (intro dropWhile_blanks b(1)) (use c in \<open>cases c; auto simp: plain_text_def\<close>)
    with that b(2) show ?thesis by blast
  qed
  let ?p = "c @ vs @ ?stop @ post"
  have nolt: "CHR ''<'' \<notin> set (c @ vs)"
    using c blanks_no_markup [OF vs(2)] by (simp add: plain_text_def)
  have p: "dropWhile isspace (drop (length pre + length start) xml) = ?p"
    using vs(1) by (simp add: xml)
  have q: "strstr ?p ?stop = Some (length (c @ vs))"
    using strstr_first [OF nolt, of stop post] by simp
  have k: "strchr ?p CHR ''<'' = Some (length (c @ vs))"
    using nolt by (simp add: strchr_Some nth_append)
  have trim: "rtrim (take (length (c @ vs)) ?p) = c"
    using rtrim_id [of c vs] c vs(2) by (auto simp: plain_text_def)
  show ?thesis
    unfolding tag_content_def first
    by (intro exI [of _ ?p]) (simp add: p q [simplified] k [simplified] trim [simplified] Let_def)
qed

text \<open>The content \<open>c\<close> stands in \<open>xml\<close>, but for blanks, between a start tag of the table and its end tag.\<close>

definition tagged :: "string \<Rightarrow> (string \<times> string) list \<Rightarrow> string \<Rightarrow> bool" where
  "tagged xml tags c \<longleftrightarrow> (\<exists>(start, stop)\<in>set tags. \<exists>ws ws'. blanks ws \<and> blanks ws' \<and>
     sublist (start @ ws @ c @ ws' @ stop) xml)"

lemma wsd_tag_find_tagged:
  assumes "wsd_tag_find xml tags = Some (p, len)"
  shows "plain_text (take len p) \<and> tagged xml tags (take len p)"
proof -
  obtain start stop where tag: "(start, stop) \<in> set tags"
      and "tag_content xml start stop = Some (p, len)"
    using wsd_tag_find_Some [OF assms] by blast
  from tag_content_Some [OF this(2)] obtain pre ws ws' post where
    "plain_text (take len p)" "blanks ws" "blanks ws'"
    "xml = pre @ (start @ ws @ take len p @ ws' @ stop) @ post"
    by auto
  with tag show ?thesis
    unfolding tagged_def sublist_def by blast
qed

lemma safe_strndup [safe_rules]: "safe (strndup os s n)"
  unfolding strndup_def by (rule safe_rules)

lemma safe_wsd_req_parse [safe_rules]: "safe (wsd_req_parse os xml)"
  unfolding wsd_req_parse_def by (intro safe_branches safe_rules)

lemma silent_strndup [frame_rules]: "keeps silent (strndup os s n)"
  unfolding strndup_def by (rule frame_rules)

lemma silent_wsd_req_parse [frame_rules]: "keeps silent (wsd_req_parse os xml)"
  unfolding wsd_req_parse_def by (intro sil.keeps_intros frame_rules)

definition field_ok :: "string \<Rightarrow> (string \<times> string) list \<Rightarrow> string option \<Rightarrow> bool" where
  "field_ok xml tags f \<longleftrightarrow> (case f of None \<Rightarrow> True | Some c \<Rightarrow> plain_text c \<and> tagged xml tags c)"

lemma field_okI:
  "wsd_tag_find xml tags = Some (p, n) \<Longrightarrow> strndup os p n v = Inr (d, t) \<Longrightarrow> field_ok xml tags d"
  using strdup_Inr(2) [of os "take n p" v d t] wsd_tag_find_tagged [of xml tags p n]
  by (auto simp: field_ok_def strndup_def)

lemma wsd_req_parse_Inr:
  assumes "wsd_req_parse os xml w = Inr (Some i, t)"
  shows "field_ok xml action_tag (action i)" and "field_ok xml msgid_tag (msgid i)"
proof -
  from assms obtain p n q m where pq: "wsd_tag_find xml action_tag = Some (p, n)"
      "wsd_tag_find xml msgid_tag = Some (q, m)"
    by (auto simp: wsd_req_parse_def ret_run split: option.splits)
  from assms obtain v v' where "strndup os p n v = Inr (action i, v')"
      "strndup os q m v' = Inr (msgid i, t)"
    by (auto simp: wsd_req_parse_def pq bind_eq_Inr ret_run split: if_splits)
  with pq show "field_ok xml action_tag (action i)" "field_ok xml msgid_tag (msgid i)"
    by (blast intro: field_okI)+
qed

lemma wsd_req_parse_fields:
  "runs (wsd_req_parse os xml) w (\<lambda>r t. case r of None \<Rightarrow> True
     | Some i \<Rightarrow> field_ok xml action_tag (action i) \<and> field_ok xml msgid_tag (msgid i))"
proof -
  obtain r t where rt: "wsd_req_parse os xml w = Inr (r, t)"
    using safe_wsd_req_parse unfolding safe_def by blast
  then show ?thesis
    using wsd_req_parse_Inr by (cases r) (simp_all add: runs_def)
qed

text \<open>
  C28. The XML finder never invents or mangles text: whatever the request parser takes as action or
  message identifier stands in the message between the proper start and end tags, has no markup
  in it and no blanks around it; and parsing has no fault and no visible effect.
\<close>

theorem wsd_req_parse_sound:
  "runs (wsd_req_parse os xml) w (\<lambda>r t. silent w t \<and>
     (case r of None \<Rightarrow> True
      | Some i \<Rightarrow> field_ok xml action_tag (action i) \<and> field_ok xml msgid_tag (msgid i)))"
  using keeps_runs [OF silent_wsd_req_parse wsd_req_parse_fields] .

lemma wsd_req_parse_found:
  assumes "mem_ok os"
    and act: "xml = pre @ ''<wsa:Action>'' @ ws1 @ a @ ws2 @ ''</wsa:Action>'' @ post"
      "strstr xml ''<wsa:Action>'' = Some (length pre)" "blanks ws1" "blanks ws2" "plain_text a"
    and mid: "xml = pre' @ ''<wsa:MessageID>'' @ ws3 @ m @ ws4 @ ''</wsa:MessageID>'' @ post'"
      "strstr xml ''<wsa:MessageID>'' = Some (length pre')" "blanks ws3" "blanks ws4" "plain_text m"
  shows "wsd_req_parse os xml w =
    Inr (Some \<lparr>action = Some a, msgid = Some m\<rparr>, w\<lparr>calls := calls w + 3\<rparr>)"
proof -
  obtain p where "tag_content xml ''<wsa:Action>'' ''</wsa:Action>'' = Some (p, length a)"
      "take (length a) p = a"
    using tag_content_found [OF act(1,2,3,4,5)] by auto
  moreover obtain q where "tag_content xml ''<wsa:MessageID>'' ''</wsa:MessageID>'' =
      Some (q, length m)" "take (length m) q = m"
    using tag_content_found [OF mid(1,2,3,4,5)] by auto
  ultimately show ?thesis
    by (simp add: wsd_req_parse_def action_tag_def msgid_tag_def strndup_def strdup_ok [OF assms(1)]
        exec_simps alloc_ok [OF assms(1)])
qed

text \<open>
  C29. A message whose first \<^verbatim>\<open><wsa:Action>\<close> and \<^verbatim>\<open><wsa:MessageID>\<close> tags enclose, but for blanks, plain
  texts is parsed to exactly these texts.
\<close>

theorem wsd_req_parse_complete:
  assumes "mem_ok os"
    and act: "xml = pre @ ''<wsa:Action>'' @ ws1 @ a @ ws2 @ ''</wsa:Action>'' @ post"
      "strstr xml ''<wsa:Action>'' = Some (length pre)" "blanks ws1" "blanks ws2" "plain_text a"
    and mid: "xml = pre' @ ''<wsa:MessageID>'' @ ws3 @ m @ ws4 @ ''</wsa:MessageID>'' @ post'"
      "strstr xml ''<wsa:MessageID>'' = Some (length pre')" "blanks ws3" "blanks ws4" "plain_text m"
  shows "wsd_req_parse os xml w =
    Inr (Some \<lparr>action = Some a, msgid = Some m\<rparr>, w\<lparr>calls := calls w + 3\<rparr>)"
  using assms by (rule wsd_req_parse_found)

theorem wsd_req_parse_complete_witness:
  "wsd_req_parse lan_os
     ''<wsa:Action> Get</wsa:Action><wsa:MessageID>id</wsa:MessageID>'' zero_world =
   Inr (Some \<lparr>action = Some ''Get'', msgid = Some ''id''\<rparr>, zero_world\<lparr>calls := calls zero_world + 3\<rparr>)"
proof (rule wsd_req_parse_complete [OF mem_ok_lan])
  let ?xml = "''<wsa:Action> Get</wsa:Action><wsa:MessageID>id</wsa:MessageID>''"
  show "?xml = [] @ ''<wsa:Action>'' @ '' '' @ ''Get'' @ [] @ ''</wsa:Action>'' @
      ''<wsa:MessageID>id</wsa:MessageID>''"
    by simp
  show "?xml = ''<wsa:Action> Get</wsa:Action>'' @ ''<wsa:MessageID>'' @ [] @ ''id'' @ [] @
      ''</wsa:MessageID>'' @ []"
    by simp
  show "strstr ?xml ''<wsa:Action>'' = Some (length [])" by simp
  show "strstr ?xml ''<wsa:MessageID>'' = Some (length ''<wsa:Action> Get</wsa:Action>'')"
    by code_simp
  show "blanks '' ''" "blanks []" "blanks []" "blanks []" by (simp_all add: blanks_def isspace_def)
  show "plain_text ''Get''" "plain_text ''id''" by (simp_all add: plain_text_def isspace_def)
qed

end
