(* ===== verification/Wsd_Uuid.thy ===== *)
theory Wsd_Uuid
  imports World
begin

text \<open>
  The identifiers of wsd.c: \<open>set_seed\<close> and \<open>uuid_random\<close> (message and sequence identifiers, from the
  48-bit generator of the C library) and \<open>uuid_endpoint\<close> (the device identity, read from
  \<^verbatim>\<open>/etc/machine-id\<close>). Both are shown to produce UUIDs of the textual form 8-4-4-4-12.
\<close>

unbundle bit_operations_syntax

section \<open>The generator\<close>

text \<open>\<open>srand48\<close> and \<open>mrand48\<close>: a linear congruence modulo 2^48, of which the high 32 bits are drawn.\<close>

definition UUIDLEN :: nat where "UUIDLEN = 37"

definition srand48 :: "32 word \<Rightarrow> unit M" where
  "srand48 seed = modify (\<lambda>w. w\<lparr>rand48 := push_bit 16 (ucast seed) + 0x330E\<rparr>)"

definition next48 :: "48 word \<Rightarrow> 48 word" where
  "next48 x = 0x5DEECE66D * x + 0xB"

definition mrand48 :: "(32 word) M" where
  "mrand48 = bind (modify (\<lambda>w. w\<lparr>rand48 := next48 (rand48 w)\<rparr>))
     (\<lambda>_. get (\<lambda>w. ucast (drop_bit 16 (rand48 w))))"

section \<open>The seed\<close>

definition hex_val :: "char \<Rightarrow> nat" where
  "hex_val c = (let n = (of_char c :: nat) in
     if n < 58 then n - 48 else if n < 71 then n - 55 else n - 87)"

definition hex_num :: "string \<Rightarrow> nat" where
  "hex_num ds = foldl (\<lambda>a c. a * 16 + hex_val c) 0 ds"

text \<open>
  \<open>fscanf\<close> with \<open>%8lx\<close>: blanks are skipped, then at most eight characters are read as a sign, a
  prefix \<open>0x\<close> and hexadecimal digits. None when no digit is there; otherwise the value and the rest.
\<close>

definition scan_sign :: "string \<Rightarrow> bool \<times> nat \<times> string" where
  "scan_sign s = (if s \<noteq> [] \<and> (hd s = CHR ''-'' \<or> hd s = CHR ''+'')
     then (hd s = CHR ''-'', 7, tl s) else (False, 8, s))"

definition scan_prefix :: "string \<Rightarrow> nat" where
  "scan_prefix s = (if 2 \<le> length s \<and> s ! 0 = CHR ''0'' \<and> (s ! 1 = CHR ''x'' \<or> s ! 1 = CHR ''X'')
     then 2 else 0)"

definition scan_8lx :: "string \<Rightarrow> (32 word \<times> string) option" where
  "scan_8lx s = (case scan_sign (dropWhile isspace s) of (neg, width, s2) \<Rightarrow>
     let skip = scan_prefix s2;
         ds = takeWhile isxdigit (take (width - skip) (drop skip s2));
         v = word_of_nat (hex_num ds)
     in if ds = [] \<and> skip = 0 then None
        else Some (if neg then - v else v, drop (skip + length ds) s2))"

lemma scan_8lx_shorter:
  assumes "scan_8lx s = Some (v, rest)"
  shows "length rest < length s"
proof -
  obtain neg width s2 where sign: "scan_sign (dropWhile isspace s) = (neg, width, s2)"
    by (metis prod_cases3)
  have le: "length s2 \<le> length s"
    using length_dropWhile_le [of isspace s] sign by (auto simp: scan_sign_def split: if_splits)
  define skip where "skip = scan_prefix s2"
  define ds where "ds = takeWhile isxdigit (take (width - skip) (drop skip s2))"
  have rest: "rest = drop (skip + length ds) s2" and some: "ds \<noteq> [] \<or> skip \<noteq> 0"
    using assms unfolding scan_8lx_def sign by (auto simp: Let_def skip_def ds_def split: if_splits)
  have "ds = [] \<or> s2 \<noteq> []" by (auto simp: ds_def)
  moreover have "skip \<noteq> 0 \<longrightarrow> s2 \<noteq> []" by (auto simp: skip_def scan_prefix_def)
  ultimately have "length rest < length s2"
    using some unfolding rest by (cases ds) auto
  with le show ?thesis by simp
qed

function seed_loop :: "string \<Rightarrow> 32 word \<Rightarrow> 32 word" where
  "seed_loop s seed = (case scan_8lx s of None \<Rightarrow> seed | Some (v, rest) \<Rightarrow> seed_loop rest (seed XOR v))"
  by pat_completeness auto
termination
  by (relation "measure (\<lambda>(s, seed). length s)") (auto dest: scan_8lx_shorter)

declare seed_loop.simps [simp del]

definition set_seed :: "os \<Rightarrow> unit M" where
  "set_seed os =
     bind (failing (\<lambda>n. os_file os n ''/etc/machine-id'')) (\<lambda>fp.
     bind (sys (os_time os)) (\<lambda>seed. case fp of
       None \<Rightarrow> srand48 seed
     | Some content \<Rightarrow> srand48 (seed_loop content seed)))"

section \<open>Random identifiers\<close>

text \<open>
  \<open>%08lx-%04lx-%04lx-%04lx-%08lx%04lx\<close>. C leaves the order in which the six arguments are evaluated
  open; the model draws them from left to right, and the format holds for any six draws.
\<close>

definition uuid_format ::
    "32 word \<Rightarrow> 32 word \<Rightarrow> 32 word \<Rightarrow> 32 word \<Rightarrow> 32 word \<Rightarrow> 32 word \<Rightarrow> string" where
  "uuid_format a b c d e f =
     hex_pad 8 (unat (a AND 0xFFFFFFFF)) @ ''-'' @ hex_pad 4 (unat (b AND 0xFFFF)) @ ''-'' @
     hex_pad 4 (unat (c AND 0xFFFF)) @ ''-'' @ hex_pad 4 (unat (d AND 0xFFFF)) @ ''-'' @
     hex_pad 8 (unat (e AND 0xFFFFFFFF)) @ hex_pad 4 (unat (f AND 0xFFFF))"

definition uuid_random :: "os \<Rightarrow> nat \<Rightarrow> string M" where
  "uuid_random os len =
     bind (get seeded) (\<lambda>s.
     bind (if s then ret () else bind (set_seed os) (\<lambda>_. modify (\<lambda>w. w\<lparr>seeded := True\<rparr>))) (\<lambda>_.
     bind mrand48 (\<lambda>a. bind mrand48 (\<lambda>b. bind mrand48 (\<lambda>c. bind mrand48 (\<lambda>d.
     bind mrand48 (\<lambda>e. bind mrand48 (\<lambda>f.
     ret (take (len - 1) (uuid_format a b c d e f))))))))))"

section \<open>The device identity\<close>

text \<open>
  The copy loop of \<open>uuid_endpoint\<close>; \<open>acc\<close> is what stands in \<open>uuid\<close> so far, so \<open>i\<close> is its length.
\<close>

fun uuid_scan :: "string \<Rightarrow> string \<Rightarrow> string" where
  "uuid_scan [] acc = acc"
| "uuid_scan (c # cs) acc =
     (if length acc < 36 \<and> (isdigit c \<or> (islower c \<and> isxdigit c)) then
        uuid_scan cs
          ((if length acc = 8 \<or> length acc = 13 \<or> length acc = 18 \<or> length acc = 23
            then acc @ ''-'' else acc) @ [c])
      else acc)"

text \<open>The new contents of \<open>uuid\<close>; none when the file cannot be opened and \<open>uuid\<close> is left alone.\<close>

definition uuid_endpoint :: "os \<Rightarrow> string option M" where
  "uuid_endpoint os =
     bind (failing (\<lambda>n. os_file os n ''/etc/machine-id'')) (\<lambda>fp. case fp of
       None \<Rightarrow> ret None
     | Some content \<Rightarrow>
         let uuid = uuid_scan content [] in
         if length uuid = 36 then ret (Some uuid)
         else bind (set_errno EINVAL) (\<lambda>_. ret (Some [])))"

section \<open>The form of a UUID\<close>

definition lower_hex :: "char \<Rightarrow> bool" where
  "lower_hex c \<longleftrightarrow> c \<in> set ''0123456789abcdef''"

text \<open>Does the character fit position \<open>i\<close> of a UUID?\<close>

definition uuid_pos :: "nat \<Rightarrow> char \<Rightarrow> bool" where
  "uuid_pos i c \<longleftrightarrow>
     (if i = 8 \<or> i = 13 \<or> i = 18 \<or> i = 23 then c = CHR ''-'' else lower_hex c)"

definition is_uuid :: "string \<Rightarrow> bool" where
  "is_uuid s \<longleftrightarrow> length s = 36 \<and> (\<forall>i<36. uuid_pos i (s ! i))"

lemma accepted_lower_hex: "isdigit c \<or> (islower c \<and> isxdigit c) \<longleftrightarrow> lower_hex c"
  by (auto simp: isdigit_def islower_def isxdigit_def lower_hex_def)

lemma uuid_pos_step:
  assumes "\<forall>i<length acc. uuid_pos i (acc ! i)" and "lower_hex c" and "length acc < 36"
  defines "acc' \<equiv> (if length acc = 8 \<or> length acc = 13 \<or> length acc = 18 \<or> length acc = 23
      then acc @ ''-'' else acc) @ [c]"
  shows "\<forall>i<length acc'. uuid_pos i (acc' ! i)" and "length acc' \<le> 36"
  using assms by (auto simp: uuid_pos_def nth_append less_Suc_eq)

lemma uuid_scan_positions:
  "\<forall>i<length acc. uuid_pos i (acc ! i) \<Longrightarrow> length acc \<le> 36 \<Longrightarrow>
   (\<forall>i<length (uuid_scan cs acc). uuid_pos i (uuid_scan cs acc ! i)) \<and> length (uuid_scan cs acc) \<le> 36"
proof (induction cs arbitrary: acc)
  case (Cons c cs)
  let ?acc' = "(if length acc = 8 \<or> length acc = 13 \<or> length acc = 18 \<or> length acc = 23
      then acc @ ''-'' else acc) @ [c]"
  show ?case
  proof (cases "length acc < 36 \<and> lower_hex c")
    case True
    then have step: "uuid_scan (c # cs) acc = uuid_scan cs ?acc'"
      by (simp add: accepted_lower_hex)
    show ?thesis
      unfolding step
      by (rule Cons.IH) (use uuid_pos_step [OF Cons.prems(1)] True in blast)+
  next
    case False
    then have "uuid_scan (c # cs) acc = acc"
      unfolding uuid_scan.simps accepted_lower_hex by (simp only: if_False)
    with Cons.prems show ?thesis by simp
  qed
qed simp

lemma is_uuid_groups:
  assumes "length a = 8" "length b = 4" "length c = 4" "length d = 4" "length e = 12"
    and "list_all lower_hex (a @ b @ c @ d @ e)"
  shows "is_uuid (a @ ''-'' @ b @ ''-'' @ c @ ''-'' @ d @ ''-'' @ e)"
  using assms
  by (auto simp: is_uuid_def uuid_pos_def nth_append nth_Cons' list_all_iff)

text \<open>The text that thirty-two hexadecimal digits make, and its digits again.\<close>

definition uuid_text :: "string \<Rightarrow> string" where
  "uuid_text h = take 8 h @ ''-'' @ take 4 (drop 8 h) @ ''-'' @ take 4 (drop 12 h) @ ''-'' @
     take 4 (drop 16 h) @ ''-'' @ take 12 (drop 20 h)"

definition uuid_digits :: "string \<Rightarrow> string" where
  "uuid_digits u = filter (\<lambda>c. c \<noteq> CHR ''-'') u"

lemma uuid_text_is_uuid: "length h = 32 \<Longrightarrow> list_all lower_hex h \<Longrightarrow> is_uuid (uuid_text h)"
  unfolding uuid_text_def
  by (rule is_uuid_groups) (auto simp: list_all_iff dest!: in_set_takeD in_set_dropD)

lemma list32E:
  assumes "length h = 32"
  obtains a b c d e where "h = a @ b @ c @ d @ e"
    "length a = 8" "length b = 4" "length c = 4" "length d = 4" "length e = 12"
proof -
  have "h = take 8 h @ take 4 (drop 8 h) @ take 4 (drop 12 h) @ take 4 (drop 16 h) @ drop 20 h"
    using append_take_drop_id [of 8 h] append_take_drop_id [of 4 "drop 8 h"]
      append_take_drop_id [of 4 "drop 12 h"] append_take_drop_id [of 4 "drop 16 h"]
    by simp
  with assms show ?thesis by (intro that) auto
qed

section \<open>The device identity is what the file says\<close>

lemma uuid_scan_run:
  assumes "list_all lower_hex xs" and "length acc + length xs \<le> 36"
    and "\<And>j. j < length xs \<Longrightarrow> length acc + j \<notin> {8, 13, 18, 23}"
  shows "uuid_scan (xs @ rest) acc = uuid_scan rest (acc @ xs)"
  using assms
proof (induction xs arbitrary: acc)
  case (Cons x xs)
  have "length acc \<notin> {8, 13, 18, 23}"
    using Cons.prems(3) [of 0] by simp
  then have "uuid_scan ((x # xs) @ rest) acc = uuid_scan (xs @ rest) (acc @ [x])"
    using Cons.prems(1,2) accepted_lower_hex [of x] by simp
  also have "\<dots> = uuid_scan rest ((acc @ [x]) @ xs)"
    by (rule Cons.IH) (use Cons.prems(1,2) Cons.prems(3) [of "Suc j" for j] in auto)
  finally show ?case by simp
qed simp

lemma uuid_scan_group:
  assumes "list_all lower_hex xs" and "xs \<noteq> []" and "length acc \<in> {8, 13, 18, 23}"
    and "length acc + Suc (length xs) \<le> 36"
    and "\<And>j. 0 < j \<Longrightarrow> j < length xs \<Longrightarrow> Suc (length acc) + j \<notin> {8, 13, 18, 23}"
  shows "uuid_scan (xs @ rest) acc = uuid_scan rest (acc @ ''-'' @ xs)"
proof -
  obtain y ys where xs: "xs = y # ys" using assms(2) by (cases xs) auto
  have "uuid_scan (xs @ rest) acc = uuid_scan (ys @ rest) (acc @ ''-'' @ [y])"
    using assms(1,3,4) accepted_lower_hex [of y] unfolding xs by auto
  also have "\<dots> = uuid_scan rest ((acc @ ''-'' @ [y]) @ ys)"
    by (rule uuid_scan_run) (use assms(1,4) assms(5) [of "Suc j" for j] xs in auto)
  finally show ?thesis by (simp add: xs)
qed

lemma uuid_scan_full: "36 \<le> length acc \<Longrightarrow> uuid_scan cs acc = acc"
  by (cases cs) auto

lemma uuid_scan_text:
  assumes "length h = 32" and "list_all lower_hex h"
  shows "uuid_scan (h @ rest) [] = uuid_text h"
proof -
  obtain a b c d e where h: "h = a @ b @ c @ d @ e"
    and len: "length a = 8" "length b = 4" "length c = 4" "length d = 4" "length e = 12"
    by (rule list32E [OF assms(1)])
  have hex: "list_all lower_hex a" "list_all lower_hex b" "list_all lower_hex c"
      "list_all lower_hex d" "list_all lower_hex e"
    using assms(2) by (auto simp: h)
  have "uuid_scan (h @ rest) [] = uuid_scan (b @ c @ d @ e @ rest) a"
    using uuid_scan_run [of a "[]" "b @ c @ d @ e @ rest"] hex len by (simp add: h)
  also have "\<dots> = uuid_scan (c @ d @ e @ rest) (a @ ''-'' @ b)"
    by (rule uuid_scan_group) (use hex len in auto)
  also have "\<dots> = uuid_scan (d @ e @ rest) ((a @ ''-'' @ b) @ ''-'' @ c)"
    by (rule uuid_scan_group) (use hex len in auto)
  also have "\<dots> = uuid_scan (e @ rest) (((a @ ''-'' @ b) @ ''-'' @ c) @ ''-'' @ d)"
    by (rule uuid_scan_group) (use hex len in auto)
  also have "\<dots> = uuid_scan rest ((((a @ ''-'' @ b) @ ''-'' @ c) @ ''-'' @ d) @ ''-'' @ e)"
    by (rule uuid_scan_group) (use hex len in auto)
  also have "\<dots> = uuid_text h"
    using len by (subst uuid_scan_full) (simp_all add: uuid_text_def h)
  finally show ?thesis .
qed

text \<open>Characters copied before the copying stops are hexadecimal digits of the file.\<close>

lemma uuid_scan_copies:
  "\<exists>n. uuid_digits (uuid_scan cs acc) = uuid_digits acc @ take n cs \<and> list_all lower_hex (take n cs)"
proof (induction cs arbitrary: acc)
  case (Cons c cs)
  let ?acc' = "(if length acc = 8 \<or> length acc = 13 \<or> length acc = 18 \<or> length acc = 23
      then acc @ ''-'' else acc) @ [c]"
  show ?case
  proof (cases "length acc < 36 \<and> lower_hex c")
    case True
    then have step: "uuid_scan (c # cs) acc = uuid_scan cs ?acc'"
      by (simp add: accepted_lower_hex)
    have "c \<noteq> CHR ''-''" using True by (auto simp: lower_hex_def)
    then have "uuid_digits ?acc' = uuid_digits acc @ [c]" by (simp add: uuid_digits_def)
    moreover obtain n where "uuid_digits (uuid_scan cs ?acc') = uuid_digits ?acc' @ take n cs"
        "list_all lower_hex (take n cs)"
      using Cons.IH by blast
    ultimately show ?thesis
      using True step by (intro exI [of _ "Suc n"]) simp
  next
    case False
    then have "uuid_scan (c # cs) acc = acc"
      unfolding uuid_scan.simps accepted_lower_hex by (simp only: if_False)
    then show ?thesis by (intro exI [of _ 0]) simp
  qed
qed (simp add: exI [of _ 0])

lemma is_uuid_digits:
  assumes "is_uuid u"
  shows "length (uuid_digits u) = 32"
proof -
  have "{i. i < length u \<and> u ! i \<noteq> CHR ''-''} = {i. i < 36} - {8, 13, 18, 23}"
    using assms by (auto simp: is_uuid_def uuid_pos_def lower_hex_def split: if_splits)
  also have "card \<dots> = 32" by (simp add: card_Diff_subset)
  finally show ?thesis by (simp add: uuid_digits_def length_filter_conv_card)
qed

lemma uuid_scan_complete:
  "length (uuid_scan s []) = 36 \<longleftrightarrow> 32 \<le> length s \<and> list_all lower_hex (take 32 s)"
proof
  assume len: "length (uuid_scan s []) = 36"
  then have "length (uuid_digits (uuid_scan s [])) = 32"
    using uuid_scan_positions [of "[]" s] by (intro is_uuid_digits) (simp add: is_uuid_def)
  moreover obtain n where n: "uuid_digits (uuid_scan s []) = take n s" "list_all lower_hex (take n s)"
    using uuid_scan_copies [of s "[]"] by (auto simp: uuid_digits_def)
  ultimately have "min n (length s) = 32" by simp
  with n(2) show "32 \<le> length s \<and> list_all lower_hex (take 32 s)"
    by (auto simp: min_def split: if_splits)
next
  assume s: "32 \<le> length s \<and> list_all lower_hex (take 32 s)"
  then have "uuid_scan (take 32 s @ drop 32 s) [] = uuid_text (take 32 s)"
    by (intro uuid_scan_text) auto
  with s show "length (uuid_scan s []) = 36"
    using uuid_text_is_uuid [of "take 32 s"] by (simp add: is_uuid_def)
qed

text \<open>
  C30. \<open>uuid_endpoint\<close> takes the device identity from the first 32 characters of
  \<^verbatim>\<open>/etc/machine-id\<close>: it succeeds exactly when these are lower-case hexadecimal digits, and then the
  identity is a UUID with just these digits; otherwise the identity is empty and \<open>errno\<close> is
  \<open>EINVAL\<close>. If the file cannot be opened the identity is left as it was.
\<close>

theorem uuid_endpoint_identity:
  "runs (uuid_endpoint os) w (\<lambda>u t. silent w t \<and>
     (case os_file os (calls w) ''/etc/machine-id'' of
        Inl e \<Rightarrow> u = None \<and> errno t = e
      | Inr s \<Rightarrow>
          if 32 \<le> length s \<and> list_all lower_hex (take 32 s)
          then u = Some (uuid_text (take 32 s)) \<and> is_uuid (uuid_text (take 32 s)) \<and>
               uuid_digits (uuid_text (take 32 s)) = take 32 s
          else u = Some [] \<and> errno t = EINVAL))"
proof -
  have text_of: "uuid_scan s [] = uuid_text (take 32 s)" "is_uuid (uuid_text (take 32 s))"
      "uuid_digits (uuid_text (take 32 s)) = take 32 s"
    if "32 \<le> length s" "list_all lower_hex (take 32 s)" for s
  proof -
    show scan: "uuid_scan s [] = uuid_text (take 32 s)"
      using uuid_scan_text [of "take 32 s" "drop 32 s"] that by simp
    show uuid: "is_uuid (uuid_text (take 32 s))"
      using that by (intro uuid_text_is_uuid) auto
    obtain n where n: "uuid_digits (uuid_scan s []) = take n s"
      using uuid_scan_copies [of s "[]"] by (auto simp: uuid_digits_def)
    moreover have "length (take n s) = 32"
      using is_uuid_digits [OF uuid] n scan by simp
    ultimately show "uuid_digits (uuid_text (take 32 s)) = take 32 s"
      using scan by (auto simp: min_def split: if_splits)
  qed
  show ?thesis
    by (auto simp: uuid_endpoint_def failing_def runs_def exec_simps silent_def Let_def text_of
        uuid_scan_complete split: sum.splits)
qed

section \<open>Random identifiers are UUIDs\<close>

lemma hex_pad_masked:
  assumes "0 < n" and "m = mask (4 * n)"
  shows "length (hex_pad n (unat ((a :: 32 word) AND m))) = n"
    and "list_all lower_hex (hex_pad n (unat (a AND m)))"
proof -
  have "unat (a AND mask (4 * n)) = take_bit (4 * n) (unat a)"
    by (simp only: take_bit_eq_mask [symmetric] unsigned_take_bit_eq)
  also have "\<dots> < 2 ^ (4 * n)" by (rule take_bit_nat_less_exp)
  also have "\<dots> = 16 ^ n" by (simp add: power_mult)
  finally show "length (hex_pad n (unat (a AND m))) = n"
    using assms by (simp add: length_hex_pad)
  show "list_all lower_hex (hex_pad n (unat (a AND m)))"
    unfolding list_all_iff lower_hex_def using hex_pad_digits by blast
qed

lemma uuid_format_is_uuid: "is_uuid (uuid_format a b c d e f)"
proof -
  have m: "0xFFFFFFFF = (mask (4 * 8) :: 32 word)" "0xFFFF = (mask (4 * 4) :: 32 word)"
    by (simp_all add: mask_eq_exp_minus_1)
  show ?thesis
    unfolding uuid_format_def append_assoc
    by (rule is_uuid_groups)
      (simp_all add: hex_pad_masked(1) [OF _ m(1)] hex_pad_masked(1) [OF _ m(2)]
        hex_pad_masked(2) [OF _ m(1)] hex_pad_masked(2) [OF _ m(2)])
qed

lemma length_uuid_format: "length (uuid_format a b c d e f) = 36"
  using uuid_format_is_uuid [of a b c d e f] by (simp add: is_uuid_def)

lemma uuid_random_run:
  "runs (uuid_random os UUIDLEN) w (\<lambda>u t. is_uuid u \<and> seeded t \<and> steady w t \<and>
     calls t = calls w + (if seeded w then 0 else 2))"
  by (auto simp: uuid_random_def UUIDLEN_def runs_def exec_simps steady_def mrand48_def set_seed_def
      failing_def srand48_def length_uuid_format uuid_format_is_uuid split: sum.splits)

lemma safe_uuid_random [safe_rules]: "safe (uuid_random os UUIDLEN)"
  unfolding safe_def using runsE [OF uuid_random_run] by metis

text \<open>
  \<open>uuid_random\<close> always yields a complete UUID (36 characters fit the buffers of 37), whatever the
  generator, the clock and \<^verbatim>\<open>/etc/machine-id\<close> deliver; it seeds the generator exactly once and
  changes nothing but the generator.
\<close>

theorem uuid_random_uuid:
  "runs (uuid_random os UUIDLEN) w (\<lambda>u t. is_uuid u \<and> seeded t \<and> steady w t \<and>
     calls t = calls w + (if seeded w then 0 else 2))"
  by (rule uuid_random_run)

end
