(* ===== verification/Wsd_Send.thy ===== *)
theory Wsd_Send
  imports Wsd_Xml Wsd_Uuid
begin

text \<open>
  The messages of wsd.c: \<open>wsd_send_msg\<close>, the SOAP envelope and fault, Hello, Bye, ProbeMatches,
  ResolveMatches, the HTTP header and the GetResponse. The format strings are those of the source;
  \<open>asprintf\<close> runs them through \<open>cformat\<close>, so a mismatch between format and arguments would be the
  fault \<open>BadFormat\<close>.
\<close>

section \<open>Sending\<close>

text \<open>\<open>asprintf\<close>, with the test of its result against zero that every caller makes.\<close>

definition asprintf :: "os \<Rightarrow> string \<Rightarrow> arg list \<Rightarrow> string option M" where
  "asprintf os fmt args = (case cformat fmt args of
       None \<Rightarrow> crash BadFormat
     | Some s \<Rightarrow> bind (alloc os) (\<lambda>ok. ret (if ok \<and> s \<noteq> [] then Some s else None)))"

text \<open>The result is 0 when the whole message went out and 1 otherwise.\<close>

definition wsd_send_msg :: "os \<Rightarrow> int \<Rightarrow> endpoint \<Rightarrow> saddr \<Rightarrow> string \<Rightarrow> nat \<Rightarrow> int M" where
  "wsd_send_msg os fd ep sa msg rwait =
     bind (if rwait \<noteq> 0 then bind (sys (os_random os)) (\<lambda>r. emit (Ev_usleep (r mod rwait)))
           else ret ()) (\<lambda>_.
     bind (if type ep = SOCK_STREAM then sys_send os fd (map ord msg)
           else sys_sendto os fd (map ord msg) sa) (\<lambda>n.
     ret (if n = int (length msg) then 0 else 1)))"

definition soap_fault_fmt :: string where
  "soap_fault_fmt =
    ''<?xml version=\"1.0\" encoding=\"utf-8\"?>'' @ ''<soap:Envelope '' @
    ''xmlns:soap=\"http://www.w3.org/2003/05/soap-envelope\" '' @
    ''xmlns:wsa=\"http://schemas.xmlsoap.org/ws/2004/08/addressing\">'' @ ''<soap:Header>'' @
    ''<wsa:Action>'' @ ''http://schemas.xmlsoap.org/ws/2004/09/transfer/fault'' @
    ''</wsa:Action>'' @ ''</soap:Header>'' @ ''<soap:Body>'' @ ''<soap:Fault>'' @ ''<soap:Code>'' @
    ''<soap:Value>%d</soap:Value>'' @ ''<soap:Subcode>'' @ ''<soap:Value>%d</soap:Value>'' @
    ''<soap:Subcode>'' @ ''<soap:Value>%d</soap:Value>'' @ ''</soap:Subcode>'' @
    ''</soap:Subcode>'' @ ''</soap:Code>'' @ ''<soap:Reason>'' @
    ''<soap:Text xml:lang=\"en\">%s</soap:Text>'' @ ''</soap:Reason>'' @
    ''<soap:Detail>%s</soap:Detail>'' @ ''</soap:Fault>'' @ ''</soap:Body>'' @ ''</soap:Envelope>''"

definition wsd_send_soap_fault ::
    "os \<Rightarrow> int \<Rightarrow> endpoint \<Rightarrow> saddr \<Rightarrow> int \<Rightarrow> string option \<Rightarrow> string option \<Rightarrow> int M" where
  "wsd_send_soap_fault os fd ep sa code reason detail =
     bind (asprintf os soap_fault_fmt [Aint code, Aint 0, Aint 0, Astr reason, Astr detail]) (\<lambda>r.
     case r of
       None \<Rightarrow>
         bind (modify (\<lambda>w. w\<lparr>ep_errstr := Some ''wsd_send_soap_fault: asprintf'', ep_errno := ENOMEM\<rparr>))
           (\<lambda>_. ret (- 1))
     | Some s \<Rightarrow> wsd_send_msg os fd ep sa s 0)"

section \<open>The SOAP envelope\<close>

definition soap_msg_templ :: string where
  "soap_msg_templ =
    ''<?xml version=\"1.0\" encoding=\"utf-8\"?>'' @ ''<soap:Envelope '' @
    ''xmlns:soap=\"http://www.w3.org/2003/05/soap-envelope\" '' @
    ''xmlns:wsa=\"http://schemas.xmlsoap.org/ws/2004/08/addressing\" '' @
    ''xmlns:wsd=\"http://schemas.xmlsoap.org/ws/2005/04/discovery\" '' @
    ''xmlns:wsx=\"http://schemas.xmlsoap.org/ws/2004/09/mex\" '' @
    ''xmlns:wsdp=\"http://schemas.xmlsoap.org/ws/2006/02/devprof\" '' @
    ''xmlns:un0=\"http://schemas.microsoft.com/windows/pnpx/2005/10\" '' @
    ''xmlns:pub=\"http://schemas.microsoft.com/windows/pub/2005/07\">'' @ ''<soap:Header>'' @
    ''<wsa:To>%s</wsa:To>'' @ ''<wsa:Action>%s</wsa:Action>'' @
    ''<wsa:MessageID>urn:uuid:%s</wsa:MessageID>'' @
    ''<wsd:AppSequence InstanceId=\"%lu\" SequenceId=\"urn:uuid:%s\" '' @
    ''MessageNumber=\"%u\" />'' @ ''%s'' @ ''</soap:Header>'' @ ''%s'' @ ''</soap:Envelope>''"

text \<open>The text that relates the message to the one it answers; none, with the error set, on failure.\<close>

definition relates_elem :: "os \<Rightarrow> string option \<Rightarrow> string option M" where
  "relates_elem os relates = (case relates of
       Some r \<Rightarrow> bind (asprintf os ''<wsa:RelatesTo>%s</wsa:RelatesTo>'' [Astr (Some r)]) (\<lambda>s.
         case s of None \<Rightarrow> bind (set_err ''wsd_send_soap_msg: asprintf'') (\<lambda>_. ret None)
         | Some t \<Rightarrow> ret (Some t))
     | None \<Rightarrow> bind (strdup os []) (\<lambda>s.
         case s of None \<Rightarrow> bind (set_err ''wsd_send_soap_msg: strdup'') (\<lambda>_. ret None)
         | Some t \<Rightarrow> ret (Some t)))"

text \<open>\<open>header\<close> is the function that sends the HTTP header, none over UDP.\<close>

definition wsd_send_soap_msg ::
    "os \<Rightarrow> int \<Rightarrow> endpoint \<Rightarrow> saddr \<Rightarrow> string \<Rightarrow> string \<Rightarrow> string option \<Rightarrow> string \<Rightarrow>
     (int \<Rightarrow> endpoint \<Rightarrow> saddr \<Rightarrow> int \<Rightarrow> nat \<Rightarrow> int M) option \<Rightarrow> int \<Rightarrow> int M" where
  "wsd_send_soap_msg os fd ep sa to act relates body header status =
     bind (uuid_random os UUIDLEN) (\<lambda>msg_id.
     bind (relates_elem os relates) (\<lambda>rel.
     case rel of
       None \<Rightarrow> ret (- 1)
     | Some soap_relates \<Rightarrow>
     bind (modify (\<lambda>w. w\<lparr>msg_no := msg_no w + 1\<rparr>)) (\<lambda>_.
     bind (get (\<lambda>w. [Astr (Some to), Astr (Some act), Astr (Some msg_id), Auint (unat (wsd_instance w)),
       Astr (Some (wsd_sequence w)), Auint (unat (msg_no w)), Astr (Some soap_relates),
       Astr (Some body)])) (\<lambda>args.
     bind (asprintf os soap_msg_templ args) (\<lambda>m.
     case m of
       None \<Rightarrow> bind (set_err ''wsd_send_soap_msg: asprintf'') (\<lambda>_. ret (- 1))
     | Some msg \<Rightarrow>
     bind (case header of None \<Rightarrow> ret 0 | Some h \<Rightarrow> h fd ep sa status (length msg)) (\<lambda>rv.
     if rv \<noteq> 0 then ret rv
     else bind (wsd_send_msg os fd ep sa msg 0) (\<lambda>rv.
       if rv \<noteq> 0 then bind (set_err ''wsd_send_soap_msg: send'') (\<lambda>_. ret (- 1))
       else ret 0)))))))"

section \<open>Hello and Bye\<close>

definition hello_templ :: string where
  "hello_templ =
    ''<soap:Body>'' @ ''<wsd:Hello>'' @ ''<wsa:EndpointReference>'' @
    ''<wsa:Address>urn:uuid:%s</wsa:Address>'' @ ''</wsa:EndpointReference>'' @
    ''<wsd:Types>wsdp:Device pub:Computer</wsd:Types>'' @
    ''<wsd:MetadataVersion>2</wsd:MetadataVersion>'' @ ''</wsd:Hello>'' @ ''</soap:Body>''"

definition wsd_send_hello :: "os \<Rightarrow> endpoint \<Rightarrow> int M" where
  "wsd_send_hello os ep =
     bind (get wsd_endpoint) (\<lambda>uuid.
     bind (asprintf os hello_templ [Astr (Some uuid)]) (\<lambda>r. case r of
       None \<Rightarrow>
         bind (modify (\<lambda>w. w\<lparr>ep_errstr := Some ''wsd_send_hello: asprintf'', ep_errno := ENOMEM\<rparr>)) (\<lambda>_. ret (- 1))
     | Some body \<Rightarrow>
         wsd_send_soap_msg os (sock ep) ep (mcast ep) WSD_TO_DISCOVERY WSD_ACT_HELLO None body None 0))"

definition bye_templ :: string where
  "bye_templ =
    ''<soap:Body>'' @ ''<wsd:Bye>'' @ ''<wsa:EndpointReference>'' @
    ''<wsa:Address>urn:uuid:%s</wsa:Address>'' @ ''</wsa:EndpointReference>'' @
    ''<wsd:Types>wsdp:Device pub:Computer</wsd:Types>'' @
    ''<wsd:MetadataVersion>2</wsd:MetadataVersion>'' @ ''</wsd:Bye>'' @ ''</soap:Body>''"

definition wsd_send_bye :: "os \<Rightarrow> endpoint \<Rightarrow> int M" where
  "wsd_send_bye os ep =
     bind (get wsd_endpoint) (\<lambda>uuid.
     bind (asprintf os bye_templ [Astr (Some uuid)]) (\<lambda>r. case r of
       None \<Rightarrow>
         bind (modify (\<lambda>w. w\<lparr>ep_errstr := Some ''wsd_send_bye: asprintf'', ep_errno := ENOMEM\<rparr>)) (\<lambda>_. ret (- 1))
     | Some body \<Rightarrow>
         wsd_send_soap_msg os (sock ep) ep (mcast ep) WSD_TO_DISCOVERY WSD_ACT_BYE None body None 0))"

section \<open>Matches\<close>

definition probe_match_templ :: string where
  "probe_match_templ =
    ''<soap:Body>'' @ ''<wsd:ProbeMatches>'' @ ''<wsd:ProbeMatch>'' @ ''<wsa:EndpointReference>'' @
    ''<wsa:Address>urn:uuid:%s</wsa:Address>'' @ ''</wsa:EndpointReference>'' @
    ''<wsd:Types>wsdp:Device pub:Computer</wsd:Types>'' @
    ''<wsd:XAddrs>http://%s:%u/%s</wsd:XAddrs>'' @
    ''<wsd:MetadataVersion>2</wsd:MetadataVersion>'' @ ''</wsd:ProbeMatch>'' @
    ''</wsd:ProbeMatches>'' @ ''</soap:Body>''"

definition wsd_send_probe_match ::
    "os \<Rightarrow> int \<Rightarrow> endpoint \<Rightarrow> saddr \<Rightarrow> wsd_req_info \<Rightarrow> string \<Rightarrow> int M" where
  "wsd_send_probe_match os fd ep sa info ip =
     bind (ip2uri os ip) (\<lambda>uri_ip.
     bind (get wsd_endpoint) (\<lambda>uuid.
     bind (case uri_ip of None \<Rightarrow> ret None
       | Some u \<Rightarrow> asprintf os probe_match_templ
           [Astr (Some uuid), Astr (Some u), Auint (unat (port ep)), Astr (Some uuid)]) (\<lambda>r.
     case r of
       None \<Rightarrow> bind (set_err ''wsd_send_probe_match: ip2uri/asprintf'') (\<lambda>_. ret (- 1))
     | Some body \<Rightarrow>
         wsd_send_soap_msg os fd ep sa WSD_TO_ANONYMOUS WSD_ACT_PROBEMATCH (msgid info) body None 0)))"

definition resolve_match_templ :: string where
  "resolve_match_templ =
    ''<soap:Body>'' @ ''<wsd:ResolveMatches>'' @ ''<wsd:ResolveMatch>'' @
    ''<wsa:EndpointReference>'' @ ''<wsa:Address>urn:uuid:%s</wsa:Address>'' @
    ''</wsa:EndpointReference>'' @ ''<wsd:Types>wsdp:Device pub:Computer</wsd:Types>'' @
    ''<wsd:XAddrs>http://%s:%u/%s</wsd:XAddrs>'' @
    ''<wsd:MetadataVersion>2</wsd:MetadataVersion>'' @ ''</wsd:ResolveMatch>'' @
    ''</wsd:ResolveMatches>'' @ ''</soap:Body>''"

definition wsd_send_resolve_match ::
    "os \<Rightarrow> int \<Rightarrow> endpoint \<Rightarrow> saddr \<Rightarrow> wsd_req_info \<Rightarrow> string \<Rightarrow> int M" where
  "wsd_send_resolve_match os fd ep sa info ip =
     bind (ip2uri os ip) (\<lambda>uri_ip.
     bind (get wsd_endpoint) (\<lambda>uuid.
     bind (case uri_ip of None \<Rightarrow> ret None
       | Some u \<Rightarrow> asprintf os resolve_match_templ
           [Astr (Some uuid), Astr (Some u), Auint (unat (port ep)), Astr (Some uuid)]) (\<lambda>r.
     case r of
       None \<Rightarrow> bind (set_err ''wsd_send_resolve_match: ip2uri/asprintf'') (\<lambda>_. ret (- 1))
     | Some body \<Rightarrow>
         wsd_send_soap_msg os fd ep sa WSD_TO_ANONYMOUS WSD_ACT_RESOLVEMATCH (msgid info) body None 0)))"

section \<open>HTTP\<close>

definition resp_hdr_fmt :: string where
  "resp_hdr_fmt =
    ''HTTP/1.1 %s'' @ [CR, LF] @ ''Server: NETGEAR WSD Server'' @ [CR, LF] @ ''Date: %s'' @
    [CR, LF] @ ''Connection: close'' @ [CR, LF] @ ''Content-Type: application/soap+xml'' @
    [CR, LF] @ ''Content-Length: %zu'' @ [CR, LF] @ [CR, LF]"

definition status_str :: "int \<Rightarrow> string" where
  "status_str status =
     (if status = 200 then ''200 OK''
      else if status = 400 then ''400 Bad Request''
      else if status = 405 then ''405 Method Not Allowed''
      else if status = 500 then ''500 Internal Server Error''
      else ''404 Not Found'')"

definition send_http_resp_header :: "os \<Rightarrow> int \<Rightarrow> endpoint \<Rightarrow> saddr \<Rightarrow> int \<Rightarrow> nat \<Rightarrow> int M" where
  "send_http_resp_header os fd ep sa status len =
     bind (sys (os_http_date os)) (\<lambda>time_str.
     bind (asprintf os resp_hdr_fmt
       [Astr (Some (status_str status)), Astr (Some time_str), Auint len]) (\<lambda>r. case r of
       None \<Rightarrow> bind (set_err ''send_http_resp_header: asprintf'') (\<lambda>_. ret (- 1))
     | Some s \<Rightarrow>
         bind (wsd_send_msg os fd ep sa s 50000) (\<lambda>rv.
         if rv \<noteq> 0 then bind (set_err ''send_http_resp_header: send'') (\<lambda>_. ret (- 1)) else ret 0)))"

definition get_response_templ :: string where
  "get_response_templ =
    ''<soap:Body>'' @ ''<wsx:Metadata>'' @ ''<wsx:MetadataSection Dialect=\"'' @
    ''http://schemas.xmlsoap.org/ws/2006/02/devprof/ThisDevice\">'' @ ''<wsdp:ThisDevice>'' @
    ''<wsdp:FriendlyName>%s</wsdp:FriendlyName>'' @
    ''<wsdp:FirmwareVersion>%s</wsdp:FirmwareVersion>'' @
    ''<wsdp:SerialNumber>%s</wsdp:SerialNumber>'' @ ''</wsdp:ThisDevice>'' @
    ''</wsx:MetadataSection>'' @ ''<wsx:MetadataSection Dialect=\"'' @
    ''http://schemas.xmlsoap.org/ws/2006/02/devprof/ThisModel\">'' @ ''<wsdp:ThisModel>'' @
    ''<wsdp:Manufacturer>%s</wsdp:Manufacturer>'' @
    ''<wsdp:ManufacturerUrl>%s</wsdp:ManufacturerUrl>'' @ ''<wsdp:ModelName>%s</wsdp:ModelName>'' @
    ''<wsdp:ModelNumber>1</wsdp:ModelNumber>'' @ ''<wsdp:ModelUrl>%s</wsdp:ModelUrl>'' @
    ''<wsdp:PresentationUrl>%s</wsdp:PresentationUrl>'' @
    ''<un0:DeviceCategory>Computers</un0:DeviceCategory>'' @ ''</wsdp:ThisModel>'' @
    ''</wsx:MetadataSection>'' @ ''<wsx:MetadataSection Dialect=\"'' @
    ''http://schemas.xmlsoap.org/ws/2006/02/devprof/Relationship\">'' @
    ''<wsdp:Relationship Type=\"'' @ ''http://schemas.xmlsoap.org/ws/2006/02/devprof/host\">'' @
    ''<wsdp:Host>'' @ ''<wsa:EndpointReference>'' @ ''<wsa:Address>urn:uuid:%s</wsa:Address>'' @
    ''</wsa:EndpointReference>'' @ ''<wsdp:Types>pub:Computer</wsdp:Types>'' @
    ''<wsdp:ServiceId>urn:uuid:%s</wsdp:ServiceId>'' @
    ''<pub:Computer>%s/Workgroup:%s</pub:Computer>'' @ ''</wsdp:Host>'' @
    ''</wsdp:Relationship>'' @ ''</wsx:MetadataSection>'' @ ''</wsx:Metadata>'' @ ''</soap:Body>''"

definition wsd_send_get_response ::
    "os \<Rightarrow> int \<Rightarrow> endpoint \<Rightarrow> saddr \<Rightarrow> wsd_req_info \<Rightarrow> string \<Rightarrow> int M" where
  "wsd_send_get_response os fd ep sa info ip =
     bind (get (\<lambda>w.
       [Astr (Some ''Microsoft Publication Service Device Host''), Astr (Some ''1.0''),
        Astr (Some ''20050718''),
        Astr (Some (get_getresp (bootinfo w) ''vendor:'')),
        Astr (Some (get_getresp (bootinfo w) ''vendorurl:'')),
        Astr (Some (get_getresp (bootinfo w) ''model:'')),
        Astr (Some (get_getresp (bootinfo w) ''modelurl:'')),
        Astr (Some (get_getresp (bootinfo w) ''presentationurl:'')),
        Astr (Some (wsd_endpoint w)), Astr (Some (wsd_endpoint w)),
        Astr (netbiosname w), Astr (workgroup w)])) (\<lambda>args.
     bind (asprintf os get_response_templ args) (\<lambda>r. case r of
       None \<Rightarrow> bind (set_err ''wsd_send_get_response: asprintf'') (\<lambda>_. ret (- 1))
     | Some body \<Rightarrow>
         wsd_send_soap_msg os fd ep sa WSD_TO_ANONYMOUS WXT_ACT_GETRESPONSE (msgid info) body
           (Some (send_http_resp_header os)) 200))"

end
