(* ===== verification/Wsd_Text.thy ===== *)
theory Wsd_Text
  imports Wsd_Send
begin

text \<open>
  What the format strings of wsd.c produce: for each of them the text with its arguments in place.
  The lemmas show that every call gives its format the arguments it asks for, and the messages
  that go out are parsed back by the request parser.
\<close>

section \<open>Formats\<close>

lemma cformat_lit:
  "CHR ''%'' \<notin> set pre \<Longrightarrow> cformat f xs = Some r \<Longrightarrow> cformat (pre @ f) xs = Some (pre @ r)"
  by (induction pre) auto

lemma cformat_last: "CHR ''%'' \<notin> set pre \<Longrightarrow> cformat pre [] = Some pre"
  by (induction pre) auto

lemma cformat_args:
  "cformat f xs = Some r \<Longrightarrow> cformat (''%s'' @ f) (Astr (Some a) # xs) = Some (a @ r)"
  "cformat f xs = Some r \<Longrightarrow> cformat (''%s'' @ f) (Astr b # xs) =
     Some ((case b of None \<Rightarrow> ''(null)'' | Some x \<Rightarrow> x) @ r)"
  "cformat f xs = Some r \<Longrightarrow> cformat (''%d'' @ f) (Aint i # xs) = Some (dec_int i @ r)"
  "cformat f xs = Some r \<Longrightarrow> cformat (''%u'' @ f) (Auint n # xs) = Some (dec n @ r)"
  "cformat f xs = Some r \<Longrightarrow> cformat (''%lu'' @ f) (Auint n # xs) = Some (dec n @ r)"
  "cformat f xs = Some r \<Longrightarrow> cformat (''%zu'' @ f) (Auint n # xs) = Some (dec n @ r)"
  by simp_all

lemmas cformat_rules = cformat_args cformat_lit cformat_last

definition bye_text :: "string \<Rightarrow> string" where
  "bye_text uuid =
    ''<soap:Body><wsd:Bye><wsa:EndpointReference><wsa:Address>urn:uuid:'' @ uuid @
    ''</wsa:Address></wsa:EndpointReference><wsd:Types>wsdp:Device '' @
    ''pub:Computer</wsd:Types><wsd:MetadataVersion>2</wsd:MetadataVersion></wsd:Bye>'' @
    ''</soap:Body>''"

lemma cformat_bye_templ:
  "cformat bye_templ [Astr (Some uuid)] =
    Some (bye_text uuid)"
proof -
  have segments: "bye_templ =
    ''<soap:Body><wsd:Bye><wsa:EndpointReference><wsa:Address>urn:uuid:'' @ ''%s'' @
    ''</wsa:Address></wsa:EndpointReference><wsd:Types>wsdp:Device '' @
    ''pub:Computer</wsd:Types><wsd:MetadataVersion>2</wsd:MetadataVersion></wsd:Bye>'' @
    ''</soap:Body>''"
    by (simp add: bye_templ_def)
  show ?thesis
    unfolding segments bye_text_def by (intro cformat_rules) simp_all
qed

definition hello_text :: "string \<Rightarrow> string" where
  "hello_text uuid =
    ''<soap:Body><wsd:Hello><wsa:EndpointReference><wsa:Address>urn:uuid:'' @ uuid @
    ''</wsa:Address></wsa:EndpointReference><wsd:Types>wsdp:Device '' @
    ''pub:Computer</wsd:Types><wsd:MetadataVersion>2</wsd:MetadataVersion></wsd:Hello>'' @
    ''</soap:Body>''"

lemma cformat_hello_templ:
  "cformat hello_templ [Astr (Some uuid)] =
    Some (hello_text uuid)"
proof -
  have segments: "hello_templ =
    ''<soap:Body><wsd:Hello><wsa:EndpointReference><wsa:Address>urn:uuid:'' @ ''%s'' @
    ''</wsa:Address></wsa:EndpointReference><wsd:Types>wsdp:Device '' @
    ''pub:Computer</wsd:Types><wsd:MetadataVersion>2</wsd:MetadataVersion></wsd:Hello>'' @
    ''</soap:Body>''"
    by (simp add: hello_templ_def)
  show ?thesis
    unfolding segments hello_text_def by (intro cformat_rules) simp_all
qed

definition probe_match_text :: "string \<Rightarrow> string \<Rightarrow> nat \<Rightarrow> string" where
  "probe_match_text uuid uri prt =
    ''<soap:Body><wsd:ProbeMatches><wsd:ProbeMatch><wsa:EndpointReference>'' @
    ''<wsa:Address>urn:uuid:'' @ uuid @
    ''</wsa:Address></wsa:EndpointReference><wsd:Types>wsdp:Device '' @
    ''pub:Computer</wsd:Types><wsd:XAddrs>http://'' @ uri @ '':'' @ dec prt @ ''/'' @ uuid @
    ''</wsd:XAddrs><wsd:MetadataVersion>2</wsd:MetadataVersion></wsd:ProbeMatch>'' @
    ''</wsd:ProbeMatches></soap:Body>''"

lemma cformat_probe_match_templ:
  "cformat probe_match_templ [Astr (Some uuid), Astr (Some uri), Auint prt, Astr (Some uuid)] =
    Some (probe_match_text uuid uri prt)"
proof -
  have segments: "probe_match_templ =
    ''<soap:Body><wsd:ProbeMatches><wsd:ProbeMatch><wsa:EndpointReference>'' @
    ''<wsa:Address>urn:uuid:'' @ ''%s'' @
    ''</wsa:Address></wsa:EndpointReference><wsd:Types>wsdp:Device '' @
    ''pub:Computer</wsd:Types><wsd:XAddrs>http://'' @ ''%s'' @ '':'' @ ''%u'' @ ''/'' @ ''%s'' @
    ''</wsd:XAddrs><wsd:MetadataVersion>2</wsd:MetadataVersion></wsd:ProbeMatch>'' @
    ''</wsd:ProbeMatches></soap:Body>''"
    by (simp add: probe_match_templ_def)
  show ?thesis
    unfolding segments probe_match_text_def by (intro cformat_rules) simp_all
qed

definition resolve_match_text :: "string \<Rightarrow> string \<Rightarrow> nat \<Rightarrow> string" where
  "resolve_match_text uuid uri prt =
    ''<soap:Body><wsd:ResolveMatches><wsd:ResolveMatch><wsa:EndpointReference>'' @
    ''<wsa:Address>urn:uuid:'' @ uuid @
    ''</wsa:Address></wsa:EndpointReference><wsd:Types>wsdp:Device '' @
    ''pub:Computer</wsd:Types><wsd:XAddrs>http://'' @ uri @ '':'' @ dec prt @ ''/'' @ uuid @
    ''</wsd:XAddrs><wsd:MetadataVersion>2</wsd:MetadataVersion></wsd:ResolveMatch>'' @
    ''</wsd:ResolveMatches></soap:Body>''"

lemma cformat_resolve_match_templ:
  "cformat resolve_match_templ [Astr (Some uuid), Astr (Some uri), Auint prt, Astr (Some uuid)] =
    Some (resolve_match_text uuid uri prt)"
proof -
  have segments: "resolve_match_templ =
    ''<soap:Body><wsd:ResolveMatches><wsd:ResolveMatch><wsa:EndpointReference>'' @
    ''<wsa:Address>urn:uuid:'' @ ''%s'' @
    ''</wsa:Address></wsa:EndpointReference><wsd:Types>wsdp:Device '' @
    ''pub:Computer</wsd:Types><wsd:XAddrs>http://'' @ ''%s'' @ '':'' @ ''%u'' @ ''/'' @ ''%s'' @
    ''</wsd:XAddrs><wsd:MetadataVersion>2</wsd:MetadataVersion></wsd:ResolveMatch>'' @
    ''</wsd:ResolveMatches></soap:Body>''"
    by (simp add: resolve_match_templ_def)
  show ?thesis
    unfolding segments resolve_match_text_def by (intro cformat_rules) simp_all
qed

definition resp_hdr_text :: "string \<Rightarrow> string \<Rightarrow> nat \<Rightarrow> string" where
  "resp_hdr_text st date len =
    ''HTTP/1.1 '' @ st @ [CR, LF] @ ''Server: NETGEAR WSD Server'' @ [CR, LF] @ ''Date: '' @
    date @ [CR, LF] @ ''Connection: close'' @ [CR, LF] @ ''Content-Type: application/soap+xml'' @
    [CR, LF] @ ''Content-Length: '' @ dec len @ [CR, LF] @ [CR, LF]"

lemma cformat_resp_hdr_fmt:
  "cformat resp_hdr_fmt [Astr (Some st), Astr (Some date), Auint len] =
    Some (resp_hdr_text st date len)"
proof -
  have segments: "resp_hdr_fmt =
    ''HTTP/1.1 '' @ ''%s'' @ [CR, LF] @ ''Server: NETGEAR WSD Server'' @ [CR, LF] @ ''Date: '' @
    ''%s'' @ [CR, LF] @ ''Connection: close'' @ [CR, LF] @
    ''Content-Type: application/soap+xml'' @ [CR, LF] @ ''Content-Length: '' @ ''%zu'' @
    [CR, LF] @ [CR, LF]"
    by (simp add: resp_hdr_fmt_def)
  show ?thesis
    unfolding segments resp_hdr_text_def by (intro cformat_rules) simp_all
qed

text \<open>How a string pointer is printed.\<close>

definition printed :: "string option \<Rightarrow> string" where
  "printed s = (case s of None \<Rightarrow> ''(null)'' | Some x \<Rightarrow> x)"

definition metadata_text :: "string \<Rightarrow> string \<Rightarrow> string \<Rightarrow> string \<Rightarrow> string \<Rightarrow> 
    string \<Rightarrow> string \<Rightarrow> string \<Rightarrow> string \<Rightarrow> string option \<Rightarrow> string option \<Rightarrow> string" where
  "metadata_text fname fw serial manu manuurl model modelurl presurl uuid host wg =
    ''<soap:Body><wsx:Metadata><wsx:MetadataSection '' @
    ''Dialect=\"http://schemas.xmlsoap.org/ws/2006/02/devprof/ThisDevice\">'' @
    ''<wsdp:ThisDevice><wsdp:FriendlyName>'' @ fname @
    ''</wsdp:FriendlyName><wsdp:FirmwareVersion>'' @ fw @
    ''</wsdp:FirmwareVersion><wsdp:SerialNumber>'' @ serial @
    ''</wsdp:SerialNumber></wsdp:ThisDevice></wsx:MetadataSection>'' @
    ''<wsx:MetadataSection '' @
    ''Dialect=\"http://schemas.xmlsoap.org/ws/2006/02/devprof/ThisModel\">'' @
    ''<wsdp:ThisModel><wsdp:Manufacturer>'' @ manu @
    ''</wsdp:Manufacturer><wsdp:ManufacturerUrl>'' @ manuurl @
    ''</wsdp:ManufacturerUrl><wsdp:ModelName>'' @ model @
    ''</wsdp:ModelName><wsdp:ModelNumber>1</wsdp:ModelNumber><wsdp:ModelUrl>'' @ modelurl @
    ''</wsdp:ModelUrl><wsdp:PresentationUrl>'' @ presurl @
    ''</wsdp:PresentationUrl><un0:DeviceCategory>Computers</un0:DeviceCategory>'' @
    ''</wsdp:ThisModel></wsx:MetadataSection><wsx:MetadataSection '' @
    ''Dialect=\"http://schemas.xmlsoap.org/ws/2006/02/devprof/Relationship\">'' @
    ''<wsdp:Relationship Type=\"http://schemas.xmlsoap.org/ws/2006/02/devprof/host\">'' @
    ''<wsdp:Host><wsa:EndpointReference><wsa:Address>urn:uuid:'' @ uuid @
    ''</wsa:Address></wsa:EndpointReference><wsdp:Types>pub:Computer</wsdp:Types>'' @
    ''<wsdp:ServiceId>urn:uuid:'' @ uuid @ ''</wsdp:ServiceId><pub:Computer>'' @ printed host @
    ''/Workgroup:'' @ printed wg @
    ''</pub:Computer></wsdp:Host></wsdp:Relationship></wsx:MetadataSection>'' @
    ''</wsx:Metadata></soap:Body>''"

lemma cformat_get_response_templ:
  "cformat get_response_templ [Astr (Some fname), Astr (Some fw), Astr (Some serial), Astr (Some manu), Astr (Some manuurl), Astr (Some model),
    Astr (Some modelurl), Astr (Some presurl), Astr (Some uuid), Astr (Some uuid), Astr host, Astr wg] =
    Some (metadata_text fname fw serial manu manuurl model modelurl presurl uuid host wg)"
proof -
  have segments: "get_response_templ =
    ''<soap:Body><wsx:Metadata><wsx:MetadataSection '' @
    ''Dialect=\"http://schemas.xmlsoap.org/ws/2006/02/devprof/ThisDevice\">'' @
    ''<wsdp:ThisDevice><wsdp:FriendlyName>'' @ ''%s'' @
    ''</wsdp:FriendlyName><wsdp:FirmwareVersion>'' @ ''%s'' @
    ''</wsdp:FirmwareVersion><wsdp:SerialNumber>'' @ ''%s'' @
    ''</wsdp:SerialNumber></wsdp:ThisDevice></wsx:MetadataSection>'' @
    ''<wsx:MetadataSection '' @
    ''Dialect=\"http://schemas.xmlsoap.org/ws/2006/02/devprof/ThisModel\">'' @
    ''<wsdp:ThisModel><wsdp:Manufacturer>'' @ ''%s'' @
    ''</wsdp:Manufacturer><wsdp:ManufacturerUrl>'' @ ''%s'' @
    ''</wsdp:ManufacturerUrl><wsdp:ModelName>'' @ ''%s'' @
    ''</wsdp:ModelName><wsdp:ModelNumber>1</wsdp:ModelNumber><wsdp:ModelUrl>'' @ ''%s'' @
    ''</wsdp:ModelUrl><wsdp:PresentationUrl>'' @ ''%s'' @
    ''</wsdp:PresentationUrl><un0:DeviceCategory>Computers</un0:DeviceCategory>'' @
    ''</wsdp:ThisModel></wsx:MetadataSection><wsx:MetadataSection '' @
    ''Dialect=\"http://schemas.xmlsoap.org/ws/2006/02/devprof/Relationship\">'' @
    ''<wsdp:Relationship Type=\"http://schemas.xmlsoap.org/ws/2006/02/devprof/host\">'' @
    ''<wsdp:Host><wsa:EndpointReference><wsa:Address>urn:uuid:'' @ ''%s'' @
    ''</wsa:Address></wsa:EndpointReference><wsdp:Types>pub:Computer</wsdp:Types>'' @
    ''<wsdp:ServiceId>urn:uuid:'' @ ''%s'' @ ''</wsdp:ServiceId><pub:Computer>'' @ ''%s'' @
    ''/Workgroup:'' @ ''%s'' @
    ''</pub:Computer></wsdp:Host></wsdp:Relationship></wsx:MetadataSection>'' @
    ''</wsx:Metadata></soap:Body>''"
    by (simp add: get_response_templ_def)
  show ?thesis
    unfolding segments metadata_text_def printed_def by (intro cformat_rules) simp_all
qed

definition soap_fault_text :: "int \<Rightarrow> int \<Rightarrow> int \<Rightarrow> string option \<Rightarrow> string option \<Rightarrow> string" where
  "soap_fault_text code z1 z2 reason detail =
    ''<?xml version=\"1.0\" encoding=\"utf-8\"?><soap:Envelope '' @
    ''xmlns:soap=\"http://www.w3.org/2003/05/soap-envelope\" '' @
    ''xmlns:wsa=\"http://schemas.xmlsoap.org/ws/2004/08/addressing\"><soap:Header>'' @
    ''<wsa:Action>http://schemas.xmlsoap.org/ws/2004/09/transfer/fault</wsa:Action>'' @
    ''</soap:Header><soap:Body><soap:Fault><soap:Code><soap:Value>'' @ dec_int code @
    ''</soap:Value><soap:Subcode><soap:Value>'' @ dec_int z1 @
    ''</soap:Value><soap:Subcode><soap:Value>'' @ dec_int z2 @
    ''</soap:Value></soap:Subcode></soap:Subcode></soap:Code><soap:Reason><soap:Text '' @
    ''xml:lang=\"en\">'' @ printed reason @ ''</soap:Text></soap:Reason><soap:Detail>'' @
    printed detail @ ''</soap:Detail></soap:Fault></soap:Body></soap:Envelope>''"

lemma cformat_soap_fault_fmt:
  "cformat soap_fault_fmt [Aint code, Aint z1, Aint z2, Astr reason, Astr detail] =
    Some (soap_fault_text code z1 z2 reason detail)"
proof -
  have segments: "soap_fault_fmt =
    ''<?xml version=\"1.0\" encoding=\"utf-8\"?><soap:Envelope '' @
    ''xmlns:soap=\"http://www.w3.org/2003/05/soap-envelope\" '' @
    ''xmlns:wsa=\"http://schemas.xmlsoap.org/ws/2004/08/addressing\"><soap:Header>'' @
    ''<wsa:Action>http://schemas.xmlsoap.org/ws/2004/09/transfer/fault</wsa:Action>'' @
    ''</soap:Header><soap:Body><soap:Fault><soap:Code><soap:Value>'' @ ''%d'' @
    ''</soap:Value><soap:Subcode><soap:Value>'' @ ''%d'' @
    ''</soap:Value><soap:Subcode><soap:Value>'' @ ''%d'' @
    ''</soap:Value></soap:Subcode></soap:Subcode></soap:Code><soap:Reason><soap:Text '' @
    ''xml:lang=\"en\">'' @ ''%s'' @ ''</soap:Text></soap:Reason><soap:Detail>'' @ ''%s'' @
    ''</soap:Detail></soap:Fault></soap:Body></soap:Envelope>''"
    by (simp add: soap_fault_fmt_def)
  show ?thesis
    unfolding segments soap_fault_text_def printed_def by (intro cformat_rules) simp_all
qed

definition soap_head :: string where
  "soap_head =
    ''<?xml version=\"1.0\" encoding=\"utf-8\"?><soap:Envelope '' @
    ''xmlns:soap=\"http://www.w3.org/2003/05/soap-envelope\" '' @
    ''xmlns:wsa=\"http://schemas.xmlsoap.org/ws/2004/08/addressing\" '' @
    ''xmlns:wsd=\"http://schemas.xmlsoap.org/ws/2005/04/discovery\" '' @
    ''xmlns:wsx=\"http://schemas.xmlsoap.org/ws/2004/09/mex\" '' @
    ''xmlns:wsdp=\"http://schemas.xmlsoap.org/ws/2006/02/devprof\" '' @
    ''xmlns:un0=\"http://schemas.microsoft.com/windows/pnpx/2005/10\" '' @
    ''xmlns:pub=\"http://schemas.microsoft.com/windows/pub/2005/07\"><soap:Header>''"

definition soap_text ::
    "string \<Rightarrow> string \<Rightarrow> string \<Rightarrow> nat \<Rightarrow> string \<Rightarrow> nat \<Rightarrow> string \<Rightarrow> string \<Rightarrow> string" where
  "soap_text to act mid inst sq no rel body =
    soap_head @ ''<wsa:To>'' @ to @ ''</wsa:To>'' @ ''<wsa:Action>'' @ act @ ''</wsa:Action>'' @
    ''<wsa:MessageID>'' @ ''urn:uuid:'' @ mid @ ''</wsa:MessageID>'' @
    ''<wsd:AppSequence InstanceId=\"'' @ dec inst @ ''\" SequenceId=\"urn:uuid:'' @ sq @
    ''\" MessageNumber=\"'' @ dec no @ ''\" />'' @ rel @ ''</soap:Header>'' @ body @
    ''</soap:Envelope>''"

lemma cformat_soap_msg_templ:
  "cformat soap_msg_templ [Astr (Some to), Astr (Some act), Astr (Some mid), Auint inst,
      Astr (Some sq), Auint no, Astr (Some rel), Astr (Some body)] =
    Some (soap_text to act mid inst sq no rel body)"
proof -
  have head: "CHR ''%'' \<notin> set soap_head"
    by (simp add: soap_head_def)
  have segments: "soap_msg_templ =
    soap_head @ ''<wsa:To>'' @ ''%s'' @ ''</wsa:To>'' @ ''<wsa:Action>'' @ ''%s'' @
    ''</wsa:Action>'' @ ''<wsa:MessageID>'' @ ''urn:uuid:'' @ ''%s'' @ ''</wsa:MessageID>'' @
    ''<wsd:AppSequence InstanceId=\"'' @ ''%lu'' @ ''\" SequenceId=\"urn:uuid:'' @ ''%s'' @
    ''\" MessageNumber=\"'' @ ''%u'' @ ''\" />'' @ ''%s'' @ ''</soap:Header>'' @ ''%s'' @
    ''</soap:Envelope>''"
    by (simp add: soap_msg_templ_def soap_head_def)
  show ?thesis
    unfolding segments soap_text_def by (intro cformat_rules) (simp_all add: head)
qed

lemmas cformat_texts =
  cformat_hello_templ cformat_bye_templ cformat_probe_match_templ cformat_resolve_match_templ
  cformat_resp_hdr_fmt cformat_get_response_templ cformat_soap_fault_fmt cformat_soap_msg_templ

end
