(* ===== verification/Wsd_Messages.thy ===== *)
theory Wsd_Messages
  imports Wsd_Text
begin

text \<open>
  What the sending functions of wsd.c put on the wire: memory safety (every format fits its
  arguments), the exact message of each function when memory and network work, the numbering of
  the messages, and the round trip of every message through the request parser.
\<close>

section \<open>Memory safety\<close>

lemma safe_asprintf: "cformat fmt args = Some s \<Longrightarrow> safe (asprintf os fmt args)"
  unfolding asprintf_def by (simp add: safe_branches safe_rules)

lemmas safe_texts [safe_rules] = cformat_texts [THEN safe_asprintf]

lemma safe_bind_get: "(\<And>w. safe (k (g w))) \<Longrightarrow> safe (bind (get g) k)"
  by (auto simp: safe_def bind_run get_run)

lemma cformat_relates: "cformat ''<wsa:RelatesTo>%s</wsa:RelatesTo>'' [Astr (Some r)] =
    Some (''<wsa:RelatesTo>'' @ r @ ''</wsa:RelatesTo>'')"
  by simp

lemmas safe_relates [safe_rules] = cformat_relates [THEN safe_asprintf]

lemma safe_wsd_send_msg [safe_rules]: "safe (wsd_send_msg os fd ep sa msg rwait)"
  unfolding wsd_send_msg_def by (intro safe_branches safe_rules)

lemma safe_wsd_send_soap_fault [safe_rules]: "safe (wsd_send_soap_fault os fd ep sa code reason detail)"
  unfolding wsd_send_soap_fault_def
  by (intro safe_branches safe_rules)

lemma safe_relates_elem [safe_rules]: "safe (relates_elem os relates)"
  unfolding relates_elem_def
  by (intro safe_branches safe_rules)

lemma safe_wsd_send_soap_msg:
  assumes "\<And>h a b c d e. header = Some h \<Longrightarrow> safe (h a b c d e)"
  shows "safe (wsd_send_soap_msg os fd ep sa to act relates body header status)"
  unfolding wsd_send_soap_msg_def
  by (intro safe_bind_get safe_branches safe_rules)
    (rule assms, assumption)

lemma safe_wsd_send_hello [safe_rules]: "safe (wsd_send_hello os ep)"
  unfolding wsd_send_hello_def
  by (intro safe_branches safe_rules safe_wsd_send_soap_msg) simp

lemma safe_wsd_send_bye [safe_rules]: "safe (wsd_send_bye os ep)"
  unfolding wsd_send_bye_def
  by (intro safe_branches safe_rules safe_wsd_send_soap_msg) simp

lemma safe_wsd_send_probe_match [safe_rules]: "safe (wsd_send_probe_match os fd ep sa info ip)"
  unfolding wsd_send_probe_match_def
  by (intro safe_branches safe_rules safe_wsd_send_soap_msg) simp

lemma safe_wsd_send_resolve_match [safe_rules]: "safe (wsd_send_resolve_match os fd ep sa info ip)"
  unfolding wsd_send_resolve_match_def
  by (intro safe_branches safe_rules safe_wsd_send_soap_msg) simp

lemma safe_send_http_resp_header [safe_rules]: "safe (send_http_resp_header os fd ep sa status len)"
  unfolding send_http_resp_header_def
  by (intro safe_branches safe_rules)

lemma safe_wsd_send_get_response [safe_rules]: "safe (wsd_send_get_response os fd ep sa info ip)"
  unfolding wsd_send_get_response_def
  by (intro safe_bind_get safe_branches safe_rules safe_wsd_send_soap_msg)
    (auto intro: safe_rules)

section \<open>Messages on the wire\<close>

text \<open>The network takes every message whole.\<close>

definition sends_ok :: "os \<Rightarrow> bool" where
  "sends_ok os \<longleftrightarrow> (\<forall>n fd bs. os_send os n fd bs = Inr (length bs)) \<and>
     (\<forall>n fd bs sa. os_sendto os n fd bs sa = Inr (length bs))"

definition sent :: "int \<Rightarrow> endpoint \<Rightarrow> saddr \<Rightarrow> string \<Rightarrow> event" where
  "sent fd ep sa msg = (if type ep = SOCK_STREAM then Ev_send fd (map ord msg)
     else Ev_sendto fd (map ord msg) sa)"

lemma wsd_send_msg_run:
  assumes "sends_ok os"
  shows "wsd_send_msg os fd ep sa msg 0 w =
    Inr (0, w\<lparr>calls := Suc (calls w), trace := trace w @ [sent fd ep sa msg]\<rparr>)"
  using assms
  by (simp add: wsd_send_msg_def sends_ok_def sys_send_def sys_sendto_def failing_def exec_simps
      sent_def)

lemma asprintf_run:
  "mem_ok os \<Longrightarrow> cformat fmt args = Some s \<Longrightarrow> s \<noteq> [] \<Longrightarrow>
   asprintf os fmt args w = Inr (Some s, w\<lparr>calls := Suc (calls w)\<rparr>)"
  by (simp add: asprintf_def exec_simps alloc_ok)

definition relates_text :: "string option \<Rightarrow> string" where
  "relates_text r = (case r of None \<Rightarrow> [] | Some m \<Rightarrow> ''<wsa:RelatesTo>'' @ m @ ''</wsa:RelatesTo>'')"

lemma texts_nonempty:
  "soap_text to act mid inst sq no rel body \<noteq> []" "hello_text uuid \<noteq> []" "bye_text uuid \<noteq> []"
  "probe_match_text uuid uri prt \<noteq> []" "resolve_match_text uuid uri prt \<noteq> []"
  "resp_hdr_text st date len \<noteq> []"
  "metadata_text a1 a2 a3 a4 a5 a6 a7 a8 uuid host wg \<noteq> []"
  by (simp_all add: soap_text_def soap_head_def hello_text_def bye_text_def probe_match_text_def
      resolve_match_text_def resp_hdr_text_def metadata_text_def)

text \<open>The envelope of a message sent in state \<open>w\<close> with message identifier \<open>mid\<close>.\<close>

definition envelope :: "world \<Rightarrow> string \<Rightarrow> string \<Rightarrow> string option \<Rightarrow> string \<Rightarrow> string \<Rightarrow> string" where
  "envelope w to act relates body mid =
     soap_text to act mid (unat (wsd_instance w)) (wsd_sequence w) (unat (msg_no w + 1))
       (relates_text relates) body"

text \<open>
  What sending one message does to the state: the next message number is used up, and the trace grows
  by the events \<open>es\<close> (with the HTTP header, if any) and the message itself.
\<close>

definition one_message ::
    "(nat \<Rightarrow> event list \<Rightarrow> bool) \<Rightarrow> (string \<Rightarrow> event) \<Rightarrow> string \<Rightarrow> string \<Rightarrow> string option \<Rightarrow> string \<Rightarrow>
     world \<Rightarrow> world \<Rightarrow> bool" where
  "one_message H mk to act relates body w t \<longleftrightarrow>
     msg_no t = msg_no w + 1 \<and>
     (\<exists>mid es. is_uuid mid \<and> H (length (envelope w to act relates body mid)) es \<and>
       trace t = trace w @ es @ [mk (envelope w to act relates body mid)])"

definition no_header :: "nat \<Rightarrow> event list \<Rightarrow> bool" where
  "no_header n es \<longleftrightarrow> es = []"

lemma relates_elem_run:
  assumes "mem_ok os"
  shows "relates_elem os relates w = Inr (Some (relates_text relates), w\<lparr>calls := Suc (calls w)\<rparr>)"
  by (cases relates) (simp_all add: relates_elem_def exec_simps relates_text_def strdup_ok [OF assms]
      asprintf_run [OF assms cformat_relates])

lemma soap_msg_run:
  assumes "mem_ok os" and "sends_ok os"
    and header: "\<And>h v n. header = Some h \<Longrightarrow>
      runs (h fd ep sa status n) v (\<lambda>r t. r = 0 \<and> msg_no t = msg_no v \<and>
        (\<exists>es. H n es \<and> trace t = trace v @ es))"
    and none: "header = None \<Longrightarrow> H = no_header"
  shows "runs (wsd_send_soap_msg os fd ep sa to act relates body header status) w (\<lambda>r t.
    r = 0 \<and> one_message H (sent fd ep sa) to act relates body w t)"
proof -
  obtain mid v where uuid: "uuid_random os UUIDLEN w = Inr (mid, v)" and mid: "is_uuid mid"
    and st: "steady w v"
    by (rule runsE [OF uuid_random_run]) blast
  note steady = steadyD [OF st]
  let ?msg = "envelope w to act relates body mid"
  let ?tail = "bind (case header of None \<Rightarrow> ret 0 | Some h \<Rightarrow> h fd ep sa status (length ?msg)) (\<lambda>rv.
      if rv \<noteq> 0 then ret rv
      else bind (wsd_send_msg os fd ep sa ?msg 0) (\<lambda>rv.
        if rv \<noteq> 0 then bind (set_err ''wsd_send_soap_msg: send'') (\<lambda>_. ret (- 1))
        else ret 0))"
  let ?v = "v\<lparr>calls := Suc (Suc (calls v)), msg_no := msg_no v + 1\<rparr>"
  have ne: "?msg \<noteq> []" by (simp add: envelope_def texts_nonempty)
  have args: "cformat soap_msg_templ [Astr (Some to), Astr (Some act), Astr (Some mid),
      Auint (unat (wsd_instance w)), Astr (Some (wsd_sequence w)), Auint (unat (msg_no w + 1)),
      Astr (Some (relates_text relates)), Astr (Some body)] = Some ?msg"
    unfolding envelope_def by (rule cformat_texts)
  have run: "wsd_send_soap_msg os fd ep sa to act relates body header status w = ?tail ?v"
    unfolding wsd_send_soap_msg_def
    by (simp add: bind_run [of "uuid_random os UUIDLEN"] bind_run [of "relates_elem os relates"]
        bind_run [of "modify f" for f] bind_run [of "get g" for g] get_run modify_run
        bind_run [of "asprintf os fmt xs" for fmt xs] uuid relates_elem_run [OF assms(1)] steady
        asprintf_run [OF assms(1) args ne] exec_simps(10-))
  have hdr: "runs (case header of None \<Rightarrow> ret 0 | Some h \<Rightarrow> h fd ep sa status n) u
      (\<lambda>r t. r = 0 \<and> msg_no t = msg_no u \<and> (\<exists>es. H n es \<and> trace t = trace u @ es))" for n u
    using header none by (cases header) (simp_all add: no_header_def)
  have "runs ?tail u (\<lambda>r t. r = 0 \<and> msg_no t = msg_no u \<and> (\<exists>es. H (length ?msg) es \<and>
          trace t = trace u @ es @ [sent fd ep sa ?msg]))" for u
    unfolding runs_bind
    by (rule runs_mono [OF hdr]) (auto simp: runs_def wsd_send_msg_run [OF assms(2)] exec_simps)
  from this [of ?v] show ?thesis
    unfolding runs_def run [symmetric] one_message_def
    using mid steady by (auto split: sum.splits)
qed

text \<open>States that agree on what goes into a message send the same messages.\<close>

lemma one_message_cong:
  "trace v = trace w \<Longrightarrow> msg_no v = msg_no w \<Longrightarrow> wsd_instance v = wsd_instance w \<Longrightarrow>
   wsd_sequence v = wsd_sequence w \<Longrightarrow>
   one_message H mk to act relates body v = one_message H mk to act relates body w"
  by (rule ext) (simp add: one_message_def envelope_def)

lemma soap_msg_udp:
  assumes "mem_ok os" and "sends_ok os" and "steady w v"
  shows "runs (wsd_send_soap_msg os fd ep sa to act relates body None status) v (\<lambda>r t.
    r = 0 \<and> one_message no_header (sent fd ep sa) to act relates body w t)"
  using soap_msg_run [OF assms(1,2), of None fd ep sa status no_header to act relates body v]
  by (simp add: one_message_cong [OF steadyD(1,6,3,4) [OF assms(3)]])

lemma steady_calls [simp]: "steady w (w\<lparr>calls := n\<rparr>)"
  by (simp add: steady_def)

lemma wsd_send_hello_run:
  assumes "mem_ok os" and "sends_ok os"
  shows "runs (wsd_send_hello os ep) w (\<lambda>r t. r = 0 \<and>
    one_message no_header (sent (sock ep) ep (mcast ep)) WSD_TO_DISCOVERY WSD_ACT_HELLO None
      (hello_text (wsd_endpoint w)) w t)"
  unfolding wsd_send_hello_def
  using soap_msg_udp [OF assms steady_calls]
  by (simp add: runs_def bind_run get_run asprintf_run [OF assms(1) cformat_hello_templ]
      texts_nonempty)

lemma wsd_send_bye_run:
  assumes "mem_ok os" and "sends_ok os"
  shows "runs (wsd_send_bye os ep) w (\<lambda>r t. r = 0 \<and>
    one_message no_header (sent (sock ep) ep (mcast ep)) WSD_TO_DISCOVERY WSD_ACT_BYE None
      (bye_text (wsd_endpoint w)) w t)"
  unfolding wsd_send_bye_def
  using soap_msg_udp [OF assms steady_calls]
  by (simp add: runs_def bind_run get_run asprintf_run [OF assms(1) cformat_bye_templ]
      texts_nonempty)

text \<open>The address a match message names: the IPv4 address, or for IPv6 the host name.\<close>

definition uri_of :: "os \<Rightarrow> nat \<Rightarrow> string \<Rightarrow> string option" where
  "uri_of os k ip = (if (ip \<noteq> [] \<and> hd ip = CHR ''['') \<or> CHR '':'' \<notin> set ip then Some ip
     else case os_gethostname os k of Inl e \<Rightarrow> None | Inr nm \<Rightarrow> Some (upto_NUL nm))"

lemma ip2uri_run:
  assumes "mem_ok os"
  shows "runs (ip2uri os ip) w (\<lambda>u t. u = uri_of os (calls w) ip \<and> steady w t)"
  by (auto simp: ip2uri_def uri_of_def runs_def strdup_ok [OF assms] failing_def exec_simps
      steady_def split: sum.splits)

lemma wsd_send_probe_match_run:
  assumes "mem_ok os" and "sends_ok os" and uri: "uri_of os (calls w) ip = Some uri"
  shows "runs (wsd_send_probe_match os fd ep sa info ip) w (\<lambda>r t. r = 0 \<and>
    one_message no_header (sent fd ep sa) WSD_TO_ANONYMOUS WSD_ACT_PROBEMATCH (msgid info)
      (probe_match_text (wsd_endpoint w) uri (unat (port ep))) w t)"
proof -
  obtain v where v: "ip2uri os ip w = Inr (Some uri, v)" and st: "steady w v"
    by (rule runsE [OF ip2uri_run [OF assms(1), of ip w]]) (simp add: uri)
  have "steady w (v\<lparr>calls := n\<rparr>)" for n
    using st by (simp add: steady_def)
  from soap_msg_udp [OF assms(1,2) this] show ?thesis
    by (simp add: wsd_send_probe_match_def runs_def bind_run v get_run steadyD(5) [OF st]
        asprintf_run [OF assms(1) cformat_probe_match_templ] texts_nonempty)
qed

lemma wsd_send_resolve_match_run:
  assumes "mem_ok os" and "sends_ok os" and uri: "uri_of os (calls w) ip = Some uri"
  shows "runs (wsd_send_resolve_match os fd ep sa info ip) w (\<lambda>r t. r = 0 \<and>
    one_message no_header (sent fd ep sa) WSD_TO_ANONYMOUS WSD_ACT_RESOLVEMATCH (msgid info)
      (resolve_match_text (wsd_endpoint w) uri (unat (port ep))) w t)"
proof -
  obtain v where v: "ip2uri os ip w = Inr (Some uri, v)" and st: "steady w v"
    by (rule runsE [OF ip2uri_run [OF assms(1), of ip w]]) (simp add: uri)
  have "steady w (v\<lparr>calls := n\<rparr>)" for n
    using st by (simp add: steady_def)
  from soap_msg_udp [OF assms(1,2) this] show ?thesis
    by (simp add: wsd_send_resolve_match_def runs_def bind_run v get_run steadyD(5) [OF st]
        asprintf_run [OF assms(1) cformat_resolve_match_templ] texts_nonempty)
qed

text \<open>The HTTP header: a pause of less than 50 ms, then the status line and the length.\<close>

definition http_header :: "int \<Rightarrow> endpoint \<Rightarrow> saddr \<Rightarrow> int \<Rightarrow> nat \<Rightarrow> event list \<Rightarrow> bool" where
  "http_header fd ep sa status len es \<longleftrightarrow>
     (\<exists>us date. us < 50000 \<and>
       es = [Ev_usleep us, sent fd ep sa (resp_hdr_text (status_str status) date len)])"

lemma send_http_resp_header_run:
  assumes "mem_ok os" and "sends_ok os"
  shows "runs (send_http_resp_header os fd ep sa status len) w (\<lambda>r t. r = 0 \<and> msg_no t = msg_no w \<and>
    (\<exists>es. http_header fd ep sa status len es \<and> trace t = trace w @ es))"
proof -
  have send: "wsd_send_msg os fd ep sa msg 50000 v = Inr (0, v\<lparr>calls := calls v + 2,
      trace := trace v @ [Ev_usleep (os_random os (calls v) mod 50000), sent fd ep sa msg]\<rparr>)" for msg v
    using assms(2)
    by (simp add: wsd_send_msg_def sends_ok_def sys_send_def sys_sendto_def failing_def exec_simps
        sent_def)
  show ?thesis
    by (auto simp: send_http_resp_header_def runs_def bind_run sys_run send ret_run texts_nonempty
        asprintf_run [OF assms(1) cformat_resp_hdr_fmt] http_header_def)
qed

definition metadata_body :: "world \<Rightarrow> string" where
  "metadata_body w = metadata_text ''Microsoft Publication Service Device Host'' ''1.0'' ''20050718''
     (get_getresp (bootinfo w) ''vendor:'') (get_getresp (bootinfo w) ''vendorurl:'')
     (get_getresp (bootinfo w) ''model:'') (get_getresp (bootinfo w) ''modelurl:'')
     (get_getresp (bootinfo w) ''presentationurl:'') (wsd_endpoint w) (netbiosname w) (workgroup w)"

lemma wsd_send_get_response_run:
  assumes "mem_ok os" and "sends_ok os"
  shows "runs (wsd_send_get_response os fd ep sa info ip) w (\<lambda>r t. r = 0 \<and>
    one_message (http_header fd ep sa 200) (sent fd ep sa) WSD_TO_ANONYMOUS WXT_ACT_GETRESPONSE
      (msgid info) (metadata_body w) w t)"
proof -
  let ?v = "w\<lparr>calls := Suc (calls w)\<rparr>"
  have "runs (wsd_send_soap_msg os fd ep sa WSD_TO_ANONYMOUS WXT_ACT_GETRESPONSE (msgid info)
      (metadata_body w) (Some (send_http_resp_header os)) 200) ?v (\<lambda>r t. r = 0 \<and>
    one_message (http_header fd ep sa 200) (sent fd ep sa) WSD_TO_ANONYMOUS WXT_ACT_GETRESPONSE
      (msgid info) (metadata_body w) ?v t)"
    using send_http_resp_header_run [OF assms] by (intro soap_msg_run assms) auto
  then show ?thesis
    by (simp add: wsd_send_get_response_def runs_def bind_run get_run texts_nonempty
        asprintf_run [OF assms(1) cformat_get_response_templ] metadata_body_def
        one_message_cong [of ?v w])
qed

section \<open>Our own messages parse back\<close>

text \<open>No tail of \<open>pre\<close> can be the beginning of an occurrence of \<open>n\<close>.\<close>

fun apart :: "string \<Rightarrow> string \<Rightarrow> bool" where
  "apart n [] = True"
| "apart n (c # cs) = (\<not> prefix n (c # cs) \<and> \<not> prefix (c # cs) n \<and> apart n cs)"

lemma strstr_apart:
  "apart n pre \<Longrightarrow> strstr (pre @ s) n = map_option (\<lambda>i. length pre + i) (strstr s n)"
proof (induction pre)
  case (Cons c pre)
  then have "\<not> prefix n ((c # pre) @ s)"
    by (metis apart.simps(2) prefix_same_cases prefixI)
  with Cons show ?case
    by (cases "strstr s n") simp_all
next
  case Nil
  show ?case by (cases "strstr s n") simp_all
qed

lemma strstr_plain:
  "CHR ''<'' \<notin> set pre \<Longrightarrow>
   strstr (pre @ s) (CHR ''<'' # n) = map_option (\<lambda>i. length pre + i) (strstr s (CHR ''<'' # n))"
  by (rule strstr_skip) (auto simp: prefix_def Cons_eq_append_conv dest!: in_set_dropD
      intro!: nth_mem, metis append_Cons drop_eq_Nil in_set_dropD list.set_intros(1) not_less
      append_eq_Cons_conv)

lemma strstr_here: "strstr (n @ s) n = Some 0"
  by (cases "n @ s") (simp_all, metis prefixI)

lemma apart_head: "apart ''<wsa:Action>'' soap_head" "apart ''<wsa:MessageID>'' soap_head"
  by (simp_all add: soap_head_def)

lemma apart_tags:
  "apart ''<wsa:Action>'' ''<wsa:To>''" "apart ''<wsa:MessageID>'' ''<wsa:To>''"
  "apart ''<wsa:Action>'' ''</wsa:To>''" "apart ''<wsa:MessageID>'' ''</wsa:To>''"
  "apart ''<wsa:MessageID>'' ''<wsa:Action>''" "apart ''<wsa:MessageID>'' ''</wsa:Action>''"
  by simp_all

lemma uuid_pos_plain: "uuid_pos i c \<Longrightarrow> c \<noteq> CHR ''<'' \<and> \<not> isspace c"
  by (auto simp: uuid_pos_def lower_hex_def isspace_def split: if_splits)

lemma is_uuid_plain: "is_uuid u \<Longrightarrow> plain_text (''urn:uuid:'' @ u)"
proof -
  assume u: "is_uuid u"
  then have all: "c \<noteq> CHR ''<'' \<and> \<not> isspace c" if "c \<in> set u" for c
    using that uuid_pos_plain by (metis in_set_conv_nth is_uuid_def)
  moreover have "u \<noteq> []" using u by (auto simp: is_uuid_def)
  ultimately show ?thesis
    by (auto simp: plain_text_def isspace_def [of "CHR ''u''"] dest: last_in_set)
qed

lemma soap_text_parse:
  assumes "mem_ok os" and to: "CHR ''<'' \<notin> set to" and act: "plain_text act" and mid: "is_uuid mid"
  shows "wsd_req_parse os (soap_text to act mid inst sq no rel body) w =
    Inr (Some \<lparr>action = Some act, msgid = Some (''urn:uuid:'' @ mid)\<rparr>, w\<lparr>calls := calls w + 3\<rparr>)"
proof -
  let ?xml = "soap_text to act mid inst sq no rel body"
  define post where "post = ''<wsd:AppSequence InstanceId=\"'' @ dec inst @ ''\" SequenceId=\"urn:uuid:'' @ sq @
    ''\" MessageNumber=\"'' @ dec no @ ''\" />'' @ rel @ ''</soap:Header>'' @ body @ ''</soap:Envelope>''"
  define pre where "pre = soap_head @ ''<wsa:To>'' @ to @ ''</wsa:To>''"
  have xml: "?xml = pre @ ''<wsa:Action>'' @ act @ ''</wsa:Action>'' @ ''<wsa:MessageID>'' @
      (''urn:uuid:'' @ mid) @ ''</wsa:MessageID>'' @ post"
    unfolding soap_text_def pre_def post_def append_assoc by (simp only: append.assoc)
  have alt: "CHR ''<'' \<notin> set act" using act by (simp add: plain_text_def)
  have pre: "strstr (pre @ s) ''<wsa:Action>'' = map_option (\<lambda>i. length pre + i) (strstr s ''<wsa:Action>'')"
    "strstr (pre @ s) ''<wsa:MessageID>'' =
      map_option (\<lambda>i. length pre + i) (strstr s ''<wsa:MessageID>'')" for s
    unfolding pre_def append_assoc
    by (simp_all only: strstr_apart [OF apart_head(1)] strstr_apart [OF apart_head(2)]
        strstr_apart [OF apart_tags(1)] strstr_apart [OF apart_tags(2)] strstr_apart [OF apart_tags(3)]
        strstr_apart [OF apart_tags(4)] strstr_plain [OF to] option.map_comp)
      (simp_all add: comp_def add.assoc)
  show ?thesis
  proof (rule wsd_req_parse_found [OF assms(1)])
    show "?xml = pre @ ''<wsa:Action>'' @ [] @ act @ [] @ ''</wsa:Action>'' @
        (''<wsa:MessageID>'' @ (''urn:uuid:'' @ mid) @ ''</wsa:MessageID>'' @ post)"
      unfolding xml by (simp only: append_Nil)
    show "?xml = (pre @ ''<wsa:Action>'' @ act @ ''</wsa:Action>'') @ ''<wsa:MessageID>'' @ [] @
        (''urn:uuid:'' @ mid) @ [] @ ''</wsa:MessageID>'' @ post"
      unfolding xml by (simp only: append_Nil append_assoc)
    show "strstr ?xml ''<wsa:Action>'' = Some (length pre)"
      unfolding xml pre by (simp only: strstr_here) simp
    show "strstr ?xml ''<wsa:MessageID>'' =
        Some (length (pre @ ''<wsa:Action>'' @ act @ ''</wsa:Action>''))"
      unfolding xml pre strstr_apart [OF apart_tags(5)] strstr_plain [OF alt]
        strstr_apart [OF apart_tags(6)] strstr_here by simp
    show "blanks []" "blanks []" "blanks []" "blanks []" by (simp_all add: blanks_def)
  qed (use act is_uuid_plain [OF mid] in auto)
qed

text \<open>The actions of the messages we send, with their numbers, and the places they are sent to.\<close>

definition sent_actions :: "(string \<times> wsd_action) list" where
  "sent_actions =
     [(WSD_ACT_HELLO, WSD_ACTION_HELLO), (WSD_ACT_BYE, WSD_ACTION_BYE),
      (WSD_ACT_PROBEMATCH, WSD_ACTION_PROBEMATCH), (WSD_ACT_RESOLVEMATCH, WSD_ACTION_RESOLVEMATCH),
      (WXT_ACT_GETRESPONSE, WSD_ACTION_GETRESPONSE)]"

lemmas action_names = WSD_ACT_HELLO_def WSD_ACT_BYE_def WSD_ACT_PROBE_def WSD_ACT_PROBEMATCH_def
  WSD_ACT_RESOLVE_def WSD_ACT_RESOLVEMATCH_def WXT_ACT_GET_def WXT_ACT_GETRESPONSE_def

lemma action_names_plain:
  "plain_text WSD_ACT_HELLO" "plain_text WSD_ACT_BYE" "plain_text WSD_ACT_PROBEMATCH"
  "plain_text WSD_ACT_RESOLVEMATCH" "plain_text WXT_ACT_GETRESPONSE"
  "plain_text WSD_ACT_PROBE" "plain_text WSD_ACT_RESOLVE" "plain_text WXT_ACT_GET"
  by (simp_all add: action_names plain_text_def isspace_def)

lemma wsd_action_id_names:
  "wsd_action_id (Some \<lparr>action = Some WSD_ACT_HELLO, msgid = m\<rparr>) = WSD_ACTION_HELLO"
  "wsd_action_id (Some \<lparr>action = Some WSD_ACT_BYE, msgid = m\<rparr>) = WSD_ACTION_BYE"
  "wsd_action_id (Some \<lparr>action = Some WSD_ACT_PROBE, msgid = m\<rparr>) = WSD_ACTION_PROBE"
  "wsd_action_id (Some \<lparr>action = Some WSD_ACT_PROBEMATCH, msgid = m\<rparr>) = WSD_ACTION_PROBEMATCH"
  "wsd_action_id (Some \<lparr>action = Some WSD_ACT_RESOLVE, msgid = m\<rparr>) = WSD_ACTION_RESOLVE"
  "wsd_action_id (Some \<lparr>action = Some WSD_ACT_RESOLVEMATCH, msgid = m\<rparr>) = WSD_ACTION_RESOLVEMATCH"
  "wsd_action_id (Some \<lparr>action = Some WXT_ACT_GET, msgid = m\<rparr>) = WSD_ACTION_GET"
  "wsd_action_id (Some \<lparr>action = Some WXT_ACT_GETRESPONSE, msgid = m\<rparr>) = WSD_ACTION_GETRESPONSE"
  by (simp_all add: wsd_action_id_def action_names)

lemma envelope_parse:
  assumes "mem_ok os" and "is_uuid mid" and "(act, aid) \<in> set sent_actions"
    and "to = WSD_TO_DISCOVERY \<or> to = WSD_TO_ANONYMOUS"
  shows "runs (wsd_req_parse os (envelope w to act relates body mid)) v (\<lambda>i t.
    i = Some \<lparr>action = Some act, msgid = Some (''urn:uuid:'' @ mid)\<rparr> \<and> wsd_action_id i = aid)"
proof -
  have act: "plain_text act"
    using assms(3) action_names_plain by (auto simp: sent_actions_def)
  have to: "CHR ''<'' \<notin> set to"
    using assms(4) by (auto simp: WSD_TO_DISCOVERY_def WSD_TO_ANONYMOUS_def)
  have aid: "wsd_action_id (Some \<lparr>action = Some act, msgid = m\<rparr>) = aid" for m
    using assms(3) wsd_action_id_names by (auto simp: sent_actions_def)
  show ?thesis
    by (simp add: runs_def envelope_def soap_text_parse [OF assms(1) to act assms(2)] aid)
qed

text \<open>
  The last action of a run sends a message that the request parser understands, from any state: it
  finds the action, its number and the message identifier, which has the form of a UUID.
\<close>

definition understood :: "os \<Rightarrow> (string \<Rightarrow> event) \<Rightarrow> string \<Rightarrow> wsd_action \<Rightarrow> world \<Rightarrow> bool" where
  "understood os mk act aid t \<longleftrightarrow>
     (\<exists>es msg mid. trace t = es @ [mk msg] \<and> is_uuid mid \<and>
       (\<forall>v. runs (wsd_req_parse os msg) v (\<lambda>i _.
         i = Some \<lparr>action = Some act, msgid = Some (''urn:uuid:'' @ mid)\<rparr> \<and> wsd_action_id i = aid)))"

lemma one_message_understood:
  assumes "mem_ok os" and "(act, aid) \<in> set sent_actions" and "to = WSD_TO_DISCOVERY \<or> to = WSD_TO_ANONYMOUS"
    and "one_message H mk to act relates body w t"
  shows "understood os mk act aid t"
proof -
  from assms(4) obtain mid es where mid: "is_uuid mid"
    and t: "trace t = (trace w @ es) @ [mk (envelope w to act relates body mid)]"
    by (auto simp: one_message_def)
  show ?thesis
    unfolding understood_def
    using t mid envelope_parse [OF assms(1) mid assms(2,3)] by blast
qed

text \<open>
  C15. What the senders put on the wire their own parser reads: after a Hello, a Bye, a ProbeMatch, a
  ResolveMatch or a GetResponse the last action was to send a message whose action and message
  identifier \<open>wsd_req_parse\<close> finds exactly, and whose action has the number of that message. (A SOAP
  fault has no message identifier; it is not covered.)
\<close>

theorem sent_messages_understood:
  assumes "mem_ok os" and "sends_ok os" and "uri_of os (calls w) ip = Some uri"
  shows "runs (wsd_send_hello os ep) w (\<lambda>r t. r = 0 \<and>
      understood os (sent (sock ep) ep (mcast ep)) WSD_ACT_HELLO WSD_ACTION_HELLO t) \<and>
    runs (wsd_send_bye os ep) w (\<lambda>r t. r = 0 \<and>
      understood os (sent (sock ep) ep (mcast ep)) WSD_ACT_BYE WSD_ACTION_BYE t) \<and>
    runs (wsd_send_probe_match os fd ep sa info ip) w (\<lambda>r t. r = 0 \<and>
      understood os (sent fd ep sa) WSD_ACT_PROBEMATCH WSD_ACTION_PROBEMATCH t) \<and>
    runs (wsd_send_resolve_match os fd ep sa info ip) w (\<lambda>r t. r = 0 \<and>
      understood os (sent fd ep sa) WSD_ACT_RESOLVEMATCH WSD_ACTION_RESOLVEMATCH t) \<and>
    runs (wsd_send_get_response os fd ep sa info ip) w (\<lambda>r t. r = 0 \<and>
      understood os (sent fd ep sa) WXT_ACT_GETRESPONSE WSD_ACTION_GETRESPONSE t)"
proof -
  note read = one_message_understood [OF assms(1)]
  show ?thesis
    by (intro conjI runs_mono [OF wsd_send_hello_run [OF assms(1,2)]]
        runs_mono [OF wsd_send_bye_run [OF assms(1,2)]]
        runs_mono [OF wsd_send_probe_match_run [OF assms]]
        runs_mono [OF wsd_send_resolve_match_run [OF assms]]
        runs_mono [OF wsd_send_get_response_run [OF assms(1,2)]])
      (auto elim!: read [rotated 2] simp: sent_actions_def)
qed

lemma sends_ok_lan: "sends_ok lan_os"
  by (simp add: sends_ok_def lan_os_def quiet_os_def)

theorem sent_messages_understood_witness:
  "runs (wsd_send_hello lan_os udp_ep) zero_world (\<lambda>r t. r = 0 \<and>
     understood lan_os (sent (sock udp_ep) udp_ep (mcast udp_ep)) WSD_ACT_HELLO WSD_ACTION_HELLO t)"
proof -
  have "uri_of lan_os (calls zero_world) ''10.0.0.1'' = Some ''10.0.0.1''"
    by (simp add: uri_of_def)
  from conjunct1 [OF sent_messages_understood [OF mem_ok_lan sends_ok_lan this]] show ?thesis .
qed

section \<open>The messages\<close>

text \<open>
  Building and sending a message is memory safe from every state and with every operating
  system: each of the format strings of wsd.c gets the arguments it asks for, and failing
  allocations and null strings are handled.
\<close>

theorem wsd_send_safe:
  "safe (wsd_send_hello os ep) \<and> safe (wsd_send_bye os ep) \<and>
   safe (wsd_send_probe_match os fd ep sa info ip) \<and> safe (wsd_send_resolve_match os fd ep sa info ip) \<and>
   safe (wsd_send_get_response os fd ep sa info ip) \<and> safe (send_http_resp_header os fd ep sa status n) \<and>
   safe (wsd_send_soap_fault os fd ep sa code reason detail)"
  by (intro conjI safe_rules)

text \<open>
  Hello and Bye put exactly one message on the wire, to the multicast group, announcing this
  device's endpoint; it carries a fresh UUID, the instance and sequence of this run and the next
  message number.
\<close>

theorem wsd_hello_bye_wire:
  assumes "mem_ok os" and "sends_ok os"
  shows "runs (wsd_send_hello os ep) w (\<lambda>r t. r = 0 \<and>
      one_message no_header (sent (sock ep) ep (mcast ep)) WSD_TO_DISCOVERY WSD_ACT_HELLO None
        (hello_text (wsd_endpoint w)) w t) \<and>
    runs (wsd_send_bye os ep) w (\<lambda>r t. r = 0 \<and>
      one_message no_header (sent (sock ep) ep (mcast ep)) WSD_TO_DISCOVERY WSD_ACT_BYE None
        (bye_text (wsd_endpoint w)) w t)"
  by (intro conjI wsd_send_hello_run wsd_send_bye_run assms)

theorem wsd_hello_bye_wire_witness:
  "runs (wsd_send_hello lan_os udp_ep) zero_world (\<lambda>r t. r = 0 \<and> msg_no t = 1)"
  using conjunct1 [OF wsd_hello_bye_wire [OF mem_ok_lan sends_ok_lan, of udp_ep zero_world]]
  by (auto simp: one_message_def zero_world_def elim!: runs_mono)

text \<open>
  A Probe or Resolve is answered with one message to the sender that repeats the identifier of
  the request and names this device's endpoint and, in the transport address, our address on the
  link (for IPv6 our host name), the port and the endpoint.
\<close>

theorem wsd_match_wire:
  assumes "mem_ok os" and "sends_ok os" and "uri_of os (calls w) ip = Some uri"
  shows "runs (wsd_send_probe_match os fd ep sa info ip) w (\<lambda>r t. r = 0 \<and>
      one_message no_header (sent fd ep sa) WSD_TO_ANONYMOUS WSD_ACT_PROBEMATCH (msgid info)
        (probe_match_text (wsd_endpoint w) uri (unat (port ep))) w t) \<and>
    runs (wsd_send_resolve_match os fd ep sa info ip) w (\<lambda>r t. r = 0 \<and>
      one_message no_header (sent fd ep sa) WSD_TO_ANONYMOUS WSD_ACT_RESOLVEMATCH (msgid info)
        (resolve_match_text (wsd_endpoint w) uri (unat (port ep))) w t)"
  by (intro conjI wsd_send_probe_match_run wsd_send_resolve_match_run assms)

theorem wsd_match_wire_witness:
  "runs (wsd_send_probe_match lan_os 7 udp_ep peer \<lparr>action = None, msgid = Some ''m''\<rparr> ''10.0.0.1'')
     zero_world (\<lambda>r t. r = 0 \<and> msg_no t = 1)"
proof -
  have "uri_of lan_os (calls zero_world) ''10.0.0.1'' = Some ''10.0.0.1''"
    by (simp add: uri_of_def)
  then show ?thesis
    by (intro runs_mono [OF conjunct1 [OF wsd_match_wire [OF mem_ok_lan sends_ok_lan]]])
      (auto simp: one_message_def zero_world_def)
qed

text \<open>
  C27. A Get is answered over HTTP: a header with status 200 whose Content-Length is the length of the
  message that follows, then the message with the device's metadata.
\<close>

theorem wsd_get_response_wire:
  assumes "mem_ok os" and "sends_ok os"
  shows "runs (wsd_send_get_response os fd ep sa info ip) w (\<lambda>r t. r = 0 \<and>
    msg_no t = msg_no w + 1 \<and>
    (\<exists>mid us date. is_uuid mid \<and> us < 50000 \<and>
      (let msg = envelope w WSD_TO_ANONYMOUS WXT_ACT_GETRESPONSE (msgid info) (metadata_body w) mid in
       trace t = trace w @ [Ev_usleep us,
         sent fd ep sa (resp_hdr_text ''200 OK'' date (length msg)), sent fd ep sa msg])))"
  by (rule runs_mono [OF wsd_send_get_response_run [OF assms]])
    (auto simp: one_message_def http_header_def status_str_def Let_def, blast)

theorem wsd_get_response_wire_witness:
  "runs (wsd_send_get_response lan_os 8 udp_ep peer \<lparr>action = None, msgid = Some ''m''\<rparr> []) zero_world
     (\<lambda>r t. r = 0 \<and> length (trace t) = 3)"
  by (rule runs_mono [OF wsd_get_response_wire [OF mem_ok_lan sends_ok_lan]])
    (auto simp: zero_world_def Let_def)

end
