(* ===== verification/Wsd_Http.thy ===== *)
theory Wsd_Http
  imports Wsd_Messages
begin

text \<open>
  \<open>wsd_parse_http_header\<close> of wsd.c: the request line and the header lines of a POST are checked in the
  receive buffer itself, which is refilled from the connection while the header is incomplete and
  once more for the body. The buffer is a character list with offsets into it, every access checked;
  \<open>len\<close> and \<open>contentlength\<close> are 32-bit \<open>size_t\<close> values, so their arithmetic wraps.
\<close>

section \<open>Buffers\<close>

abbreviation CRLF :: string where "CRLF \<equiv> [CR, LF]"

definition size32 :: "int \<Rightarrow> nat" where
  "size32 i = nat (i mod 2 ^ 32)"

lemma size32_negative: "i < 0 \<Longrightarrow> - (2 ^ 32) \<le> i \<Longrightarrow> size32 i = nat (i + 2 ^ 32)"
proof -
  assume "i < 0" "- (2 ^ 32) \<le> i"
  then have "(i + 2 ^ 32) mod 2 ^ 32 = i + 2 ^ 32"
    by (intro mod_pos_pos_trivial) simp_all
  then show ?thesis by (simp add: size32_def)
qed

text \<open>The C string at an offset of a buffer.\<close>

definition cstr_at :: "char list \<Rightarrow> nat \<Rightarrow> string M" where
  "cstr_at buf p = (case cstr buf p of None \<Rightarrow> crash Unterminated | Some s \<Rightarrow> ret s)"

text \<open>\<open>buf[i] = c\<close>\<close>

definition put :: "char list \<Rightarrow> nat \<Rightarrow> char \<Rightarrow> char list M" where
  "put buf i c = (if i < length buf then ret (buf[i := c]) else crash OobWrite)"

text \<open>\<open>memmove(buf, buf + p, n)\<close>\<close>

definition memmove :: "char list \<Rightarrow> nat \<Rightarrow> nat \<Rightarrow> char list M" where
  "memmove buf p n =
     (if length buf < p + n then crash OobRead
      else ret (take n (drop p buf) @ drop n buf))"

text \<open>\<open>recv(fd, buf + i, n, 0)\<close>: the length, negative on failure, and the buffer.\<close>

definition recv_at :: "os \<Rightarrow> int \<Rightarrow> char list \<Rightarrow> nat \<Rightarrow> nat \<Rightarrow> (int \<times> char list) M" where
  "recv_at os fd buf i n =
     bind (sys_recv os fd n) (\<lambda>r. case r of
       None \<Rightarrow> ret (- 1, buf)
     | Some bs \<Rightarrow>
         if length buf < i + length bs then crash OobWrite
         else ret (int (length bs), take i buf @ map chr bs @ drop (i + length bs) buf))"

section \<open>Header lines\<close>

definition header_is :: "string \<Rightarrow> string \<Rightarrow> string option" where
  "header_is p h = (if strncasecmp_eq p h (length h) then Some (drop (length h) p) else None)"

text \<open>
  The body of the line loop: the new content length, or the error text. The content length is
  unsigned, so the test \<open><= 0\<close> is only true of zero.
\<close>

definition header_line :: "string \<Rightarrow> nat \<Rightarrow> string + nat" where
  "header_line line contentlength = (case header_is line ''Content-Type: '' of
       Some v \<Rightarrow>
         if v \<noteq> ''application/soap+xml''
         then Inl ''wsd_pars_http_header: Unsupported Content-Type'' else Inr contentlength
     | None \<Rightarrow> (case header_is line ''Content-Length: '' of
         Some v \<Rightarrow>
           if size32 (atoi v) = 0 then Inl ''wsd_pars_http_header: Invalid Content-Length''
           else Inr (size32 (atoi v))
       | None \<Rightarrow> Inr contentlength))"

text \<open>
  The line loop: from offset \<open>p\<close> each line is cut off and checked. It ends in an error, or with the
  offset reached and whether the blank line that ends the header stands there.
\<close>

datatype lines_end =
    Lines_fault fault
  | Lines_bad string
  | Lines_stop bool "char list" nat nat

function http_lines :: "char list \<Rightarrow> nat \<Rightarrow> nat \<Rightarrow> lines_end" where
  "http_lines buf p contentlength = (case cstr buf p of
       None \<Rightarrow> Lines_fault Unterminated
     | Some s \<Rightarrow>
         if s = [] then Lines_stop False buf p contentlength
         else (case strstr s CRLF of
           None \<Rightarrow> Lines_stop False buf p contentlength
         | Some i \<Rightarrow>
             if i = 0 then Lines_stop True buf p contentlength
             else (case header_line (take i s) contentlength of
               Inl e \<Rightarrow> Lines_bad e
             | Inr cl \<Rightarrow> http_lines (buf[p + i := NUL]) (p + i + 2) cl)))"
  by pat_completeness auto
termination
  by (relation "measure (\<lambda>(buf, p, cl). length buf - p)")
    (auto dest!: cstr_SomeD(2) strstr_bound)

declare http_lines.simps [simp del]

section \<open>Refilling the buffer\<close>

text \<open>How many bytes are still to come: what makes the refilling end.\<close>

fun rx_bytes :: "rx_item list \<Rightarrow> nat" where
  "rx_bytes [] = 0"
| "rx_bytes (Seg bs # items) = length bs + rx_bytes items"
| "rx_bytes (Rx_err e # items) = rx_bytes items"

lemma rx_take_bytes:
  "rx_take n items = (Inr bs, items') \<Longrightarrow> rx_bytes items' + length bs = rx_bytes items"
  by (induction n items rule: rx_take.induct) (auto split: if_splits)

lemma recv_at_bytes:
  assumes "recv_at os fd buf i n w = Inr ((k, buf'), w')" and "0 < k"
  shows "rx_bytes (rx w') < rx_bytes (rx w)"
  using assms
  by (auto simp: recv_at_def sys_recv_def exec_simps split: sum.splits prod.splits option.splits
      if_splits dest!: rx_take_bytes)
    (metis length_greater_0_conv less_add_same_cancel1)

lemma put_Inr:
  "put b i c w = Inr (x, w') \<longleftrightarrow> i < length b \<and> x = b[i := c] \<and> w' = w"
  by (auto simp: put_def ret_def crash_def)

lemma memmove_Inr:
  "memmove b p n w = Inr (x, w') \<longleftrightarrow> p + n \<le> length b \<and> x = take n (drop p b) @ drop n b \<and> w' = w"
  by (auto simp: memmove_def ret_def crash_def)

text \<open>
  From the label \<open>again\<close> to the end of the header: the status and error text of a failure, or the
  buffer, the length of what is in it and the content length. The offset \<open>p\<close> stays as it is when the
  buffer is moved to the front and refilled.
\<close>

function http_again ::
    "os \<Rightarrow> int \<Rightarrow> nat \<Rightarrow> char list \<Rightarrow> nat \<Rightarrow> nat \<Rightarrow> nat \<Rightarrow>
     (int \<times> string + char list \<times> nat \<times> nat) M" where
  "http_again os fd bsize buf p len contentlength w =
     (case http_lines buf p contentlength of
        Lines_fault f \<Rightarrow> Inl f
      | Lines_bad e \<Rightarrow> Inr (Inl (400, e), w)
      | Lines_stop eoh buf1 p1 cl \<Rightarrow>
          let p2 = (if eoh then p1 + 2 else p1);
              len1 = size32 (int len - int p2) in
          (case bind (memmove buf1 p2 len1) (\<lambda>b. put b len1 NUL) w of
             Inl f \<Rightarrow> Inl f
           | Inr (buf2, w1) \<Rightarrow>
               if eoh then Inr (Inr (buf2, len1, cl), w1)
               else (case recv_at os fd buf2 len1 (bsize - len1 - 1) w1 of
                  Inl f \<Rightarrow> Inl f
                | Inr ((len2, buf3), w2) \<Rightarrow>
                    if len2 \<le> 0 then Inr (Inl (500, ''wsd_pars_http_header: Data receiving error''), w2)
                    else (case put buf3 (len1 + nat len2) NUL w2 of
                       Inl f \<Rightarrow> Inl f
                     | Inr (buf4, w3) \<Rightarrow> http_again os fd bsize buf4 p2 (len1 + nat len2) cl w3))))"
  by pat_completeness auto
termination
  by (relation "measure (\<lambda>(os, fd, bsize, buf, p, len, cl, w). rx_bytes (rx w))")
    (auto simp: bind_eq_Inr put_Inr memmove_Inr dest: recv_at_bytes)

declare http_again.simps [simp del]

section \<open>The header\<close>

text \<open>From the check of the content length to the end: the rest of the body is received.\<close>

definition http_body :: "os \<Rightarrow> int \<Rightarrow> nat \<Rightarrow> char list \<Rightarrow> nat \<Rightarrow> nat \<Rightarrow> (int \<times> char list) M" where
  "http_body os fd bsize buf len contentlength =
     (if contentlength = 0 then
       bind (set_errstr ''wsd_pars_http_header: Invalid Content-Length'') (\<lambda>_. ret (400, buf))
     else if len < contentlength then
       (if bsize \<le> contentlength then
         bind (set_errstr ''wsd_pars_http_header: Content-Length too large'') (\<lambda>_. ret (500, buf))
       else
       bind (recv_at os fd buf len (contentlength - len)) (\<lambda>(len2, buf).
       if size32 len2 < contentlength - len then
         bind (set_errstr ''wsd_pars_http_header: Data receiving error'') (\<lambda>_. ret (500, buf))
       else bind (put buf contentlength NUL) (\<lambda>buf. ret (200, buf))))
     else bind (put buf contentlength NUL) (\<lambda>buf. ret (200, buf)))"

text \<open>
  The header and the body. The buffer that goes with an error is the one from before the header was
  read; the caller does not look at it.
\<close>

definition http_rest :: "os \<Rightarrow> int \<Rightarrow> nat \<Rightarrow> char list \<Rightarrow> nat \<Rightarrow> nat \<Rightarrow> (int \<times> char list) M" where
  "http_rest os fd bsize buf p len =
     bind (http_again os fd bsize buf p len 0) (\<lambda>r. case r of
       Inl (status, e) \<Rightarrow> bind (set_errstr e) (\<lambda>_. ret (status, buf))
     | Inr (buf, len, contentlength) \<Rightarrow> http_body os fd bsize buf len contentlength)"

definition wsd_parse_http_header ::
    "os \<Rightarrow> int \<Rightarrow> endpoint \<Rightarrow> char list \<Rightarrow> nat \<Rightarrow> nat \<Rightarrow> (int \<times> char list) M" where
  "wsd_parse_http_header os fd ep buf len bsize =
     bind (cstr_at buf 0) (\<lambda>s.
     bind (modify (\<lambda>w. if endpointlen w = 0 then w\<lparr>endpointlen := length (wsd_endpoint w)\<rparr> else w)) (\<lambda>_.
     case strstr s CRLF of None \<Rightarrow> crash NullDeref | Some eol \<Rightarrow>
     bind (put buf eol NUL) (\<lambda>buf.
     bind (cstr_at buf 0) (\<lambda>line.
     if \<not> strncmp_eq line ''POST /'' 6 then
       bind (set_errstr ''wsd_pars_http_header: Only POST method supported'') (\<lambda>_. ret (405, buf))
     else
     bind (get wsd_endpoint) (\<lambda>uuid.
     bind (get endpointlen) (\<lambda>n.
     bind (cstr_at buf 6) (\<lambda>at_uuid.
     if \<not> strncmp_eq at_uuid uuid n then
       bind (set_errstr ''wsd_pars_http_header: Invalid endpoint UUID'') (\<lambda>_. ret (404, buf))
     else
     bind (cstr_at buf (6 + n)) (\<lambda>at_version.
     if \<not> strncmp_eq at_version '' HTTP/'' 6 then
       bind (set_errstr ''wsd_pars_http_header: Must be HTTP/1.0 and up'') (\<lambda>_. ret (405, buf))
     else
     http_rest os fd bsize buf (eol + 2) len))))))))"

section \<open>Specification of the header\<close>

text \<open>The header as a list of lines, and what the lines say when read one after the other.\<close>

definition line_ok :: "string \<Rightarrow> bool" where
  "line_ok l \<longleftrightarrow> l \<noteq> [] \<and> NUL \<notin> set l \<and> CR \<notin> set l"

definition enc_lines :: "string list \<Rightarrow> string" where
  "enc_lines ls = concat (map (\<lambda>l. l @ CRLF) ls)"

fun read_lines :: "string list \<Rightarrow> nat \<Rightarrow> string + nat" where
  "read_lines [] cl = Inr cl"
| "read_lines (l # ls) cl = (case header_line l cl of Inl e \<Rightarrow> Inl e | Inr cl' \<Rightarrow> read_lines ls cl')"

lemma takeWhile_NUL_append: "NUL \<notin> set l \<Longrightarrow> upto_NUL (l @ s) = l @ upto_NUL s"
  unfolding upto_NUL_def by (induction l) auto

lemma cstr_prefix:
  assumes "drop p buf = l @ rest" and "NUL \<notin> set l" and "NUL \<in> set rest"
  shows "cstr buf p = Some (l @ upto_NUL rest)"
  using assms takeWhile_NUL_append [OF assms(2), of rest] by (simp add: cstr_def upto_NUL_def)

lemma strstr_CRLF: "CR \<notin> set l \<Longrightarrow> strstr (l @ CR # LF # s) CRLF = Some (length l)"
  using strstr_first [of CR l "[LF]" s] by simp

lemma drop_update: "i < j \<Longrightarrow> drop j (xs[i := x]) = drop j xs"
  by (simp add: drop_update_cancel)

lemma http_lines_step:
  assumes buf: "drop p buf = l @ CR # LF # rest" and l: "line_ok l" and nul: "NUL \<in> set rest"
  shows "http_lines buf p cl = (case header_line l cl of
    Inl e \<Rightarrow> Lines_bad e
  | Inr cl' \<Rightarrow> http_lines (buf[p + length l := NUL]) (p + length l + 2) cl')"
proof -
  have "cstr buf p = Some (l @ upto_NUL (CR # LF # rest))"
    by (rule cstr_prefix [OF buf]) (use l nul in \<open>auto simp: line_ok_def\<close>)
  then have s: "cstr buf p = Some (l @ CR # LF # upto_NUL rest)"
    by (simp add: upto_NUL_def)
  have "strstr (l @ CR # LF # upto_NUL rest) CRLF = Some (length l)"
    using l by (intro strstr_CRLF) (simp add: line_ok_def)
  then show ?thesis
    using l by (subst http_lines.simps) (simp add: s line_ok_def split: sum.splits)
qed

lemma http_lines_end:
  assumes "drop p buf = CR # LF # rest" and "NUL \<in> set rest"
  shows "http_lines buf p cl = Lines_stop True buf p cl"
proof -
  have "cstr buf p = Some (CR # LF # upto_NUL rest)"
    using cstr_prefix [of p buf CRLF rest] assms by simp
  then show ?thesis by (subst http_lines.simps) simp
qed

lemma http_lines_enc:
  assumes "drop p buf = enc_lines ls @ CR # LF # rest" and "list_all line_ok ls" and "NUL \<in> set rest"
  shows "\<exists>buf'. http_lines buf p cl = (case read_lines ls cl of
      Inl e \<Rightarrow> Lines_bad e
    | Inr cl' \<Rightarrow> Lines_stop True buf' (p + length (enc_lines ls)) cl') \<and>
      length buf' = length buf \<and>
      drop (p + length (enc_lines ls)) buf' = CR # LF # rest"
  using assms(1,2)
proof (induction ls arbitrary: p buf cl)
  case Nil
  then show ?case
    using http_lines_end [of p buf rest cl] assms(3) by (auto simp: enc_lines_def)
next
  case (Cons l ls)
  let ?buf = "buf[p + length l := NUL]" and ?p = "p + length l + 2"
  let ?rest = "enc_lines ls @ CR # LF # rest"
  have buf: "drop p buf = l @ CR # LF # ?rest" and l: "line_ok l"
    using Cons.prems by (simp_all add: enc_lines_def)
  have nul: "NUL \<in> set ?rest" using assms(3) by simp
  have "drop (length l + 2) (drop p buf) = ?rest"
    unfolding buf by simp
  then have tl: "drop ?p ?buf = ?rest"
    by (simp add: drop_update add.commute add.left_commute)
  have len: "p + length (enc_lines (l # ls)) = ?p + length (enc_lines ls)"
    by (simp add: enc_lines_def)
  show ?case
  proof (cases "header_line l cl")
    case (Inl e)
    have "drop (length (enc_lines (l # ls))) (drop p buf) = CR # LF # rest"
      unfolding Cons.prems(1) by simp
    with Inl show ?thesis
      using http_lines_step [OF buf l nul, of cl]
      by (intro exI [of _ buf]) (simp add: add.commute)
  next
    case (Inr cl')
    then show ?thesis
      using Cons.IH [OF tl, of cl'] http_lines_step [OF buf l nul, of cl] Cons.prems(2)
      unfolding len by auto
  qed
qed

lemma http_again_eoh:
  "http_lines buf p cl = Lines_stop True b p1 c \<Longrightarrow> size32 (int len - int (p1 + 2)) = n \<Longrightarrow>
   bind (memmove b (p1 + 2) n) (\<lambda>x. put x n NUL) w = Inr (b', w) \<Longrightarrow>
   http_again os fd bsize buf p len cl w = Inr (Inr (b', n, c), w)"
  by (subst http_again.simps) (simp only: lines_end.case Let_def if_True sum.case prod.case)

text \<open>An incomplete header: one more round, at the same offset; or the move faults.\<close>

lemma http_again_refill:
  "http_lines buf p cl = Lines_stop False b p1 c \<Longrightarrow> size32 (int len - int p1) = n \<Longrightarrow>
   bind (memmove b p1 n) (\<lambda>x. put x n NUL) w = Inr (b2, w) \<Longrightarrow>
   recv_at os fd b2 n (bsize - n - 1) w = Inr ((k, b3), w2) \<Longrightarrow> \<not> k \<le> 0 \<Longrightarrow>
   put b3 (n + nat k) NUL w2 = Inr (b4, w2) \<Longrightarrow>
   http_again os fd bsize buf p len cl w = http_again os fd bsize b4 p1 (n + nat k) c w2"
  by (subst http_again.simps) (simp only: lines_end.case Let_def if_False sum.case prod.case)

lemma http_again_move_fault:
  "http_lines buf p cl = Lines_stop False b p1 c \<Longrightarrow> size32 (int len - int p1) = n \<Longrightarrow>
   bind (memmove b p1 n) (\<lambda>x. put x n NUL) w = Inl f \<Longrightarrow>
   http_again os fd bsize buf p len cl w = Inl f"
  by (subst http_again.simps) (simp only: lines_end.case Let_def if_False sum.case prod.case)

text \<open>A complete header in the buffer: its lines are read and it is moved out of the buffer.\<close>

lemma http_again_enc:
  assumes buf: "drop p buf = enc_lines ls @ CR # LF # rest" and ls: "list_all line_ok ls"
    and rest: "rest = body @ NUL # junk" and len: "len = p + length (enc_lines ls) + 2 + length body"
    and size: "length buf \<le> 2 ^ 31" and cl: "read_lines ls cl = Inr cl'"
  shows "\<exists>buf'. http_again os fd bsize buf p len cl w = Inr (Inr (buf', length body, cl'), w) \<and>
    length buf' = length buf \<and> take (length body + 1) buf' = body @ [NUL]"
proof -
  let ?p = "p + length (enc_lines ls)"
  obtain buf1 where lines: "http_lines buf p cl = Lines_stop True buf1 ?p cl'"
      and len1: "length buf1 = length buf" and at: "drop ?p buf1 = CR # LF # rest"
    using http_lines_enc [OF buf ls, of cl] cl rest by auto
  have "length (drop ?p buf1) = 2 + length rest" unfolding at by simp
  then have bound: "?p + 2 + length rest = length buf" using len1 by simp
  have tl: "drop (?p + 2) buf1 = rest"
    using at by (metis add.commute drop0 drop_Suc_Cons drop_drop numeral_2_eq_2)
  have n: "size32 (int len - int (?p + 2)) = length body"
    using size bound by (simp add: size32_def len rest)
  have move: "bind (memmove buf1 (?p + 2) (length body)) (\<lambda>b. put b (length body) NUL) w =
      Inr ((body @ drop (length body) buf1)[length body := NUL], w)"
    using bound len1 by (simp add: bind_run memmove_def put_def tl [simplified] rest ret_run)
  let ?buf' = "(body @ drop (length body) buf1)[length body := NUL]"
  have "length ?buf' = length buf"
    using bound len1 rest by simp
  moreover have "take (length body + 1) ?buf' = body @ [NUL]"
    using bound len1 rest by (cases "drop (length body) buf1") auto
  moreover have "http_again os fd bsize buf p len cl w = Inr (Inr (?buf', length body, cl'), w)"
    by (rule http_again_eoh [OF lines n move])
  ultimately show ?thesis by blast
qed

section \<open>A well-formed request\<close>

text \<open>The request a Windows client sends: request line, header lines, blank line, body.\<close>

definition request_line :: "string \<Rightarrow> string \<Rightarrow> string" where
  "request_line uuid version = ''POST /'' @ uuid @ '' HTTP/'' @ version"

definition http_request :: "string \<Rightarrow> string \<Rightarrow> string list \<Rightarrow> string \<Rightarrow> string" where
  "http_request uuid version ls body =
     request_line uuid version @ CRLF @ enc_lines ls @ CRLF @ body"

text \<open>The state the parser leaves: only the cached length of the endpoint may be new.\<close>

definition with_endpointlen :: "world \<Rightarrow> world" where
  "with_endpointlen w =
     (if endpointlen w = 0 then w\<lparr>endpointlen := length (wsd_endpoint w)\<rparr> else w)"

lemma take_prefix_iff: "take (length u) s = u \<longleftrightarrow> prefix u s"
  by (metis append_eq_conv_conj append_take_drop_id prefix_def)

lemma strncmp_prefix: "strncmp_eq s u (length u) \<longleftrightarrow> prefix u s"
  by (simp add: strncmp_eq_def take_prefix_iff)

lemma strncmp_post: "strncmp_eq s ''POST /'' 6 \<longleftrightarrow> prefix ''POST /'' s"
  using strncmp_prefix [of s "''POST /''"] by (simp add: eval_nat_numeral)

lemma strncmp_http: "strncmp_eq s '' HTTP/'' 6 \<longleftrightarrow> prefix '' HTTP/'' s"
  using strncmp_prefix [of s "'' HTTP/''"] by (simp add: eval_nat_numeral)

text \<open>What the parser makes of a first line: it is cut off, and its parts are compared.\<close>

lemma first_line_run:
  assumes e: "endpointlen w = 0 \<or> endpointlen w = length (wsd_endpoint w)"
    and nul: "NUL \<notin> set l" and cr: "CR \<notin> set l"
    and buf: "buf = l @ CR # LF # rest" and rest: "NUL \<in> set rest"
  shows "wsd_parse_http_header os fd ep buf len bsize w =
    (if \<not> prefix ''POST /'' l then bind
       (set_errstr ''wsd_pars_http_header: Only POST method supported'') (\<lambda>_. ret (405, buf[length l := NUL]))
     else if \<not> prefix (wsd_endpoint w) (drop 6 l) then bind
       (set_errstr ''wsd_pars_http_header: Invalid endpoint UUID'') (\<lambda>_. ret (404, buf[length l := NUL]))
     else if \<not> prefix '' HTTP/'' (drop (6 + length (wsd_endpoint w)) l) then bind
       (set_errstr ''wsd_pars_http_header: Must be HTTP/1.0 and up'') (\<lambda>_. ret (405, buf[length l := NUL]))
     else http_rest os fd bsize (buf[length l := NUL]) (length l + 2) len) (with_endpointlen w)"
proof -
  let ?buf = "buf[length l := NUL]"
  have s: "cstr buf 0 = Some (l @ CR # LF # upto_NUL rest)"
    using cstr_prefix [of 0 buf l "CR # LF # rest"] nul rest buf by (simp add: upto_NUL_def)
  have cut: "?buf = l @ NUL # LF # rest" and inb: "length l < length buf"
    by (simp_all add: buf)
  have at: "cstr ?buf k = Some (drop k l)" if "k \<le> length l" for k
  proof -
    have "cstring (drop k l)"
      using nul by (auto simp: cstring_def dest: in_set_dropD)
    from cstr_terminated [OF this, of "take k l" k "LF # rest"] that show ?thesis
      by (simp add: cut flip: append_assoc)
  qed
  have six: "6 \<le> length l" if "prefix ''POST /'' l" using prefix_length_le [OF that] by simp
  have path: "6 + length (wsd_endpoint w) \<le> length l"
    if "prefix ''POST /'' l" "prefix (wsd_endpoint w) (drop 6 l)"
    using prefix_length_le [OF that(2)] six [OF that(1)] by simp
  have wep: "wsd_endpoint (with_endpointlen w) = wsd_endpoint w"
    "endpointlen (with_endpointlen w) = length (wsd_endpoint w)"
    using e by (auto simp: with_endpointlen_def)
  show ?thesis
    unfolding wsd_parse_http_header_def
    using inb six path
    by (simp add: bind_run cstr_at_def s strstr_CRLF [OF cr] ret_run modify_run put_def at get_run wep
        strncmp_prefix strncmp_post strncmp_http flip: with_endpointlen_def)
qed

lemma request_line_parts:
  "prefix ''POST /'' (request_line uuid version)"
  "prefix uuid (drop 6 (request_line uuid version))"
  "prefix '' HTTP/'' (drop (6 + length uuid) (request_line uuid version))"
  by (simp_all add: request_line_def add.commute [of 6] del: drop_append flip: drop_drop) simp

lemma request_line_iff:
  "(\<exists>version. l = request_line uuid version) \<longleftrightarrow>
   prefix ''POST /'' l \<and> prefix uuid (drop 6 l) \<and> prefix '' HTTP/'' (drop (6 + length uuid) l)"
proof
  assume parts: "prefix ''POST /'' l \<and> prefix uuid (drop 6 l) \<and> prefix '' HTTP/'' (drop (6 + length uuid) l)"
  then obtain r q where "l = ''POST /'' @ r" "drop 6 l = uuid @ q" by (auto simp: prefix_def)
  then have l: "l = ''POST /'' @ uuid @ q" by simp
  with parts have "prefix '' HTTP/'' q" by (simp add: add.commute [of 6] flip: drop_drop)
  then show "\<exists>version. l = request_line uuid version" by (auto simp: l request_line_def prefix_def)
qed (use request_line_parts in blast)

lemma request_line_checks:
  assumes "endpointlen w = 0 \<or> endpointlen w = length (wsd_endpoint w)"
    and "NUL \<notin> set (request_line (wsd_endpoint w) version)"
    and "CR \<notin> set (request_line (wsd_endpoint w) version)"
    and "buf = request_line (wsd_endpoint w) version @ CR # LF # rest" and "NUL \<in> set rest"
  shows "wsd_parse_http_header os fd ep buf len bsize w =
    http_rest os fd bsize (buf[length (request_line (wsd_endpoint w) version) := NUL])
      (length (request_line (wsd_endpoint w) version) + 2) len (with_endpointlen w)"
  unfolding first_line_run [OF assms] by (simp only: request_line_parts simp_thms if_False)

text \<open>The buffer after reception: the request, the terminator \<open>wsd_recv\<close> writes, and what was there.\<close>

definition received :: "string \<Rightarrow> char list \<Rightarrow> char list" where
  "received msg junk = msg @ NUL # junk"

definition http_ready :: "world \<Rightarrow> string \<Rightarrow> string list \<Rightarrow> bool" where
  "http_ready w version ls \<longleftrightarrow>
     (endpointlen w = 0 \<or> endpointlen w = length (wsd_endpoint w)) \<and>
     NUL \<notin> set (request_line (wsd_endpoint w) version) \<and>
     CR \<notin> set (request_line (wsd_endpoint w) version) \<and> list_all line_ok ls"

lemma http_ready_run:
  assumes "http_ready w version ls"
    and buf: "buf = received (http_request (wsd_endpoint w) version ls body) junk"
    and size: "length buf = bsize" "bsize \<le> 2 ^ 31"
    and len: "len = length (http_request (wsd_endpoint w) version ls body)"
    and cl: "read_lines ls 0 = Inr cl"
  shows "\<exists>buf'. wsd_parse_http_header os fd ep buf len bsize w =
      http_body os fd bsize buf' (length body) cl (with_endpointlen w) \<and>
    length buf' = bsize \<and> take (length body + 1) buf' = body @ [NUL]"
proof -
  let ?line = "request_line (wsd_endpoint w) version"
  let ?n = "length ?line"
  let ?rest = "enc_lines ls @ CR # LF # body @ NUL # junk"
  have b: "buf = ?line @ CR # LF # ?rest"
    by (simp add: buf received_def http_request_def)
  have step: "wsd_parse_http_header os fd ep buf len bsize w =
      http_rest os fd bsize (buf[?n := NUL]) (?n + 2) len (with_endpointlen w)"
    by (rule request_line_checks [OF _ _ _ b]) (use assms(1) in \<open>auto simp: http_ready_def\<close>)
  have d: "drop (?n + 2) (buf[?n := NUL]) = enc_lines ls @ CR # LF # (body @ NUL # junk)"
    by (simp add: b)
  have l: "len = ?n + 2 + length (enc_lines ls) + 2 + length body"
    by (simp add: len http_request_def)
  obtain buf' where again: "http_again os fd bsize (buf[?n := NUL]) (?n + 2) len 0 (with_endpointlen w)
      = Inr (Inr (buf', length body, cl), with_endpointlen w)" and "length buf' = length buf"
      and "take (length body + 1) buf' = body @ [NUL]"
    using http_again_enc [OF d _ refl l _ cl, of os fd bsize "with_endpointlen w"] assms(1) size
    by (auto simp: http_ready_def)
  then show ?thesis
    using size by (auto simp: step http_rest_def bind_run)
qed

lemma cstr_take:
  "take (Suc n) buf = s @ [NUL] \<Longrightarrow> length s = n \<Longrightarrow> NUL \<notin> set s \<Longrightarrow> cstr buf 0 = Some s"
  using cstr_terminated [of s "[]" 0 "drop (Suc n) buf"]
  by (simp add: cstring_def) (metis append.assoc append_Cons append_Nil append_take_drop_id)

lemma with_endpointlen_fields [simp]:
  "calls (with_endpointlen w) = calls w" "trace (with_endpointlen w) = trace w"
  "msg_no (with_endpointlen w) = msg_no w" "wsd_instance (with_endpointlen w) = wsd_instance w"
  "wsd_sequence (with_endpointlen w) = wsd_sequence w"
  "wsd_endpoint (with_endpointlen w) = wsd_endpoint w" "bootinfo (with_endpointlen w) = bootinfo w"
  "netbiosname (with_endpointlen w) = netbiosname w" "workgroup (with_endpointlen w) = workgroup w"
  "restart (with_endpointlen w) = restart w"
  by (simp_all add: with_endpointlen_def)

lemma post_accepted_run:
  assumes "http_ready w version ls" and "read_lines ls 0 = Inr (length body)"
    and "NUL \<notin> set body" and "body \<noteq> []"
    and "buf = received (http_request (wsd_endpoint w) version ls body) junk"
    and "length buf = bsize" and "bsize \<le> 2 ^ 31"
  shows "\<exists>buf'. wsd_parse_http_header os fd ep buf
      (length (http_request (wsd_endpoint w) version ls body)) bsize w =
    Inr ((200, buf'), with_endpointlen w) \<and> cstr buf' 0 = Some body"
proof -
  obtain buf' where run: "wsd_parse_http_header os fd ep buf
      (length (http_request (wsd_endpoint w) version ls body)) bsize w =
      http_body os fd bsize buf' (length body) (length body) (with_endpointlen w)"
    and len: "length buf' = bsize" and tk: "take (length body + 1) buf' = body @ [NUL]"
    using http_ready_run [OF assms(1,5,6,7) refl assms(2), of os fd ep] by blast
  have "length (take (length body + 1) buf') = length body + 1" unfolding tk by simp
  then have inb: "length body < length buf'" by simp
  have "buf' ! length body = NUL"
    using tk inb by (metis less_add_one nth_append_length nth_take)
  then have same: "buf'[length body := NUL] = buf'"
    by (metis list_update_id)
  have "cstr buf' 0 = Some body"
    using tk assms(3) by (intro cstr_take [of "length body"]) simp_all
  then show ?thesis
    using assms(4) inb
    by (simp add: run http_body_def bind_run put_def ret_run same)
qed

text \<open>
  C24. A POST that arrives whole, for our endpoint, with header lines that name the length of its body,
  is accepted: status 200, and the buffer then holds exactly the body.
\<close>

theorem http_post_accepted:
  assumes "http_ready w version ls" and "read_lines ls 0 = Inr (length body)"
    and "NUL \<notin> set body" and "body \<noteq> []"
    and "buf = received (http_request (wsd_endpoint w) version ls body) junk"
    and "length buf = bsize" and "bsize \<le> 2 ^ 31"
  shows "runs (wsd_parse_http_header os fd ep buf
      (length (http_request (wsd_endpoint w) version ls body)) bsize) w
    (\<lambda>(status, buf') t. status = 200 \<and> cstr buf' 0 = Some body \<and> silent w t)"
  using post_accepted_run [OF assms, of os fd ep] by (auto simp: runs_def silent_def)

definition http_world :: world where
  "http_world = zero_world\<lparr>wsd_endpoint := ''4f''\<rparr>"

lemma http_world_ready: "http_ready http_world ''1.1'' ls = list_all line_ok ls"
  by (simp add: http_ready_def http_world_def zero_world_def request_line_def)

lemma atoi_2: "atoi ''2'' = 2"
  by (simp add: atoi_def isspace_def isdigit_def clamp32_def)

lemma header_line_length:
  "header_line (''Content-Length: '' @ v) cl =
    (if size32 (atoi v) = 0 then Inl ''wsd_pars_http_header: Invalid Content-Length''
     else Inr (size32 (atoi v)))"
  by (simp add: header_line_def header_is_def strncasecmp_eq_def tolower_def char_of_def bit_0)

theorem http_post_accepted_witness:
  "runs (wsd_parse_http_header lan_os 9 udp_ep
      (received (http_request ''4f'' ''1.1'' [''Content-Length: 2''] ''ok'') (replicate 40 NUL))
      (length (http_request ''4f'' ''1.1'' [''Content-Length: 2''] ''ok''))
      (length (received (http_request ''4f'' ''1.1'' [''Content-Length: 2''] ''ok'') (replicate 40 NUL))))
     http_world (\<lambda>(status, buf') t. status = 200 \<and> cstr buf' 0 = Some ''ok'')"
proof -
  have ready: "http_ready http_world ''1.1'' [''Content-Length: 2'']"
    by (simp add: http_world_ready line_ok_def)
  have cl: "read_lines [''Content-Length: 2''] 0 = Inr (length ''ok'')"
    using header_line_length [of "''2''" 0] by (simp add: atoi_2 size32_def)
  have uuid: "wsd_endpoint http_world = ''4f''"
    by (simp add: http_world_def)
  have size: "length (received (http_request ''4f'' ''1.1'' [''Content-Length: 2''] ''ok'')
      (replicate 40 NUL)) \<le> 2 ^ 31"
    by (simp add: received_def http_request_def request_line_def enc_lines_def)
  show ?thesis
    by (rule runs_mono [OF http_post_accepted [OF ready cl _ _ _ refl size, unfolded uuid]])
      (simp_all split: prod.splits)
qed

section \<open>The rest of the body\<close>

text \<open>
  When the header and a first part of the body have arrived, the missing part is received in one
  piece: exactly what is missing makes a complete body with status 200.
\<close>

theorem http_body_second_segment:
  assumes "http_ready w version ls" and "read_lines ls 0 = Inr cl" and "cl < bsize"
    and "buf = received (http_request (wsd_endpoint w) version ls body) junk"
    and "length buf = bsize" and "bsize \<le> 2 ^ 31"
    and "rx w = Seg bs # items" and "length body + length bs = cl" and "bs \<noteq> []"
    and "NUL \<notin> set (body @ map chr bs)"
  shows "runs (wsd_parse_http_header os fd ep buf
      (length (http_request (wsd_endpoint w) version ls body)) bsize) w
    (\<lambda>(status, buf') t. status = 200 \<and> cstr buf' 0 = Some (body @ map chr bs) \<and> rx t = items)"
proof -
  obtain buf' where run: "wsd_parse_http_header os fd ep buf
      (length (http_request (wsd_endpoint w) version ls body)) bsize w =
      http_body os fd bsize buf' (length body) cl (with_endpointlen w)"
    and len: "length buf' = bsize" and tk: "take (length body + 1) buf' = body @ [NUL]"
    using http_ready_run [OF assms(1,4,5,6) refl assms(2), of os fd ep] by blast
  have body: "take (length body) buf' = body"
    using tk by (metis add.commute append_eq_conv_conj min_add_distrib_right take_take
        min.absorb1 le_add1 plus_1_eq_Suc)
  have k: "cl - length body = length bs" "length body < cl" "size32 (int (length bs)) = length bs"
    using assms(3,6,8,9) by (auto simp: size32_def)
  have rx: "rx (with_endpointlen w) = Seg bs # items"
    using assms(7) by (simp add: with_endpointlen_def)
  let ?buf = "(body @ map chr bs @ drop (length body + length bs) buf')[cl := NUL]"
  have "take (Suc cl) ?buf = (body @ map chr bs) @ [NUL]"
    using assms(3,8) len by (cases "drop (length body + length bs) buf'") (auto simp: list_update_append)
  then have "cstr ?buf 0 = Some (body @ map chr bs)"
    using assms(8,10) by (intro cstr_take [of cl]) simp_all
  then show ?thesis
    using assms(3,8,9) len k
    by (simp add: runs_def run http_body_def recv_at_def sys_recv_def exec_simps rx body put_def)
qed

definition second_world :: world where
  "second_world = http_world\<lparr>rx := [Seg [0x6B]]\<rparr>"

theorem http_body_second_segment_witness:
  "runs (wsd_parse_http_header lan_os 9 udp_ep
      (received (http_request ''4f'' ''1.1'' [''Content-Length: 2''] ''o'') (replicate 40 NUL))
      (length (http_request ''4f'' ''1.1'' [''Content-Length: 2''] ''o''))
      (length (received (http_request ''4f'' ''1.1'' [''Content-Length: 2''] ''o'') (replicate 40 NUL))))
     second_world (\<lambda>(status, buf') t. status = 200 \<and> cstr buf' 0 = Some ''ok'')"
proof -
  have ready: "http_ready second_world ''1.1'' [''Content-Length: 2'']"
    using http_world_ready [of "[''Content-Length: 2'']"]
    by (simp add: http_ready_def second_world_def line_ok_def)
  have cl: "read_lines [''Content-Length: 2''] 0 = Inr 2"
    using header_line_length [of "''2''" 0] by (simp add: atoi_2 size32_def)
  have uuid: "wsd_endpoint second_world = ''4f''" and rx: "rx second_world = Seg [0x6B] # []"
    by (simp_all add: second_world_def http_world_def)
  have size: "length (received (http_request ''4f'' ''1.1'' [''Content-Length: 2''] ''o'')
      (replicate 40 NUL)) \<le> 2 ^ 31" "2 < length (received (http_request ''4f'' ''1.1''
      [''Content-Length: 2''] ''o'') (replicate 40 NUL))"
    by (simp_all add: received_def http_request_def request_line_def enc_lines_def)
  have k: "chr 0x6B = CHR ''k''"
    by (simp add: chr_def char_of_def bit_0)
  show ?thesis
    by (rule runs_mono [OF http_body_second_segment [OF ready cl size(2) _ refl size(1) rx,
          unfolded uuid]])
      (simp_all add: k split: prod.splits)
qed

section \<open>Faults and misreadings\<close>

text \<open>
  C26. If receiving the rest of the body fails (the client is silent for a second), the parser does not
  notice, since the result -1 is compared as an unsigned number: it reports 200 and passes on the
  part received, filled up with what the buffer held before.
\<close>

theorem http_body_error_ignored:
  assumes "http_ready w version ls" and "read_lines ls 0 = Inr cl" and "cl < bsize"
    and "buf = received (http_request (wsd_endpoint w) version ls body) junk"
    and "length buf = bsize" and "bsize \<le> 2 ^ 31"
    and "rx w = Rx_err e # items" and "length body < cl"
  shows "runs (wsd_parse_http_header os fd ep buf
      (length (http_request (wsd_endpoint w) version ls body)) bsize) w
    (\<lambda>(status, buf') t. status = 200 \<and> take (length body) buf' = body \<and> rx t = items)"
proof -
  obtain buf' where run: "wsd_parse_http_header os fd ep buf
      (length (http_request (wsd_endpoint w) version ls body)) bsize w =
      http_body os fd bsize buf' (length body) cl (with_endpointlen w)"
    and len: "length buf' = bsize" and tk: "take (length body + 1) buf' = body @ [NUL]"
    using http_ready_run [OF assms(1,4,5,6) refl assms(2), of os fd ep] by blast
  have body: "take (length body) buf' = body"
    using tk by (metis add.commute append_eq_conv_conj min_add_distrib_right take_take
        min.absorb1 le_add1 plus_1_eq_Suc)
  have rx: "rx (with_endpointlen w) = Rx_err e # items"
    using assms(7) by (simp add: with_endpointlen_def)
  have wrap: "\<not> size32 (- 1) < cl - length body"
    using assms(3,6) by (simp add: size32_def)
  show ?thesis
    using assms(3,8) len
    by (simp add: runs_def run http_body_def recv_at_def sys_recv_def exec_simps rx body put_def wrap)
qed

theorem http_body_error_ignored_witness:
  "runs (wsd_parse_http_header lan_os 9 udp_ep
      (received (http_request ''4f'' ''1.1'' [''Content-Length: 2''] ''o'') (replicate 40 NUL))
      (length (http_request ''4f'' ''1.1'' [''Content-Length: 2''] ''o''))
      (length (received (http_request ''4f'' ''1.1'' [''Content-Length: 2''] ''o'') (replicate 40 NUL))))
     (http_world\<lparr>rx := [Rx_err 11]\<rparr>) (\<lambda>(status, buf') t. status = 200)"
proof -
  let ?w = "http_world\<lparr>rx := [Rx_err 11]\<rparr>"
  have ready: "http_ready ?w ''1.1'' [''Content-Length: 2'']"
    using http_world_ready [of "[''Content-Length: 2'']"]
    by (simp add: http_ready_def line_ok_def)
  have cl: "read_lines [''Content-Length: 2''] 0 = Inr 2"
    using header_line_length [of "''2''" 0] by (simp add: atoi_2 size32_def)
  have uuid: "wsd_endpoint ?w = ''4f''" and rx: "rx ?w = Rx_err 11 # []"
    by (simp_all add: http_world_def)
  have size: "length (received (http_request ''4f'' ''1.1'' [''Content-Length: 2''] ''o'')
      (replicate 40 NUL)) \<le> 2 ^ 31" "2 < length (received (http_request ''4f'' ''1.1''
      [''Content-Length: 2''] ''o'') (replicate 40 NUL))"
    by (simp_all add: received_def http_request_def request_line_def enc_lines_def)
  show ?thesis
    by (rule runs_mono [OF http_body_error_ignored [OF ready cl size(2) _ refl size(1) rx,
          unfolded uuid]])
      (simp_all split: prod.splits)
qed

text \<open>
  C38. A negative Content-Length is not refused as invalid (400), as the test \<open><= 0\<close> means to: the
  number is unsigned by then, and the answer is 500, Content-Length too large.
\<close>

theorem http_negative_length:
  assumes "http_ready w version [''Content-Length: '' @ v]" and "atoi v < 0"
    and "buf = received (http_request (wsd_endpoint w) version [''Content-Length: '' @ v] body) junk"
    and "length buf = bsize" and "bsize \<le> 2 ^ 31"
  shows "runs (wsd_parse_http_header os fd ep buf
      (length (http_request (wsd_endpoint w) version [''Content-Length: '' @ v] body)) bsize) w
    (\<lambda>(status, buf') t. status = 500 \<and>
      ep_errstr t = Some ''wsd_pars_http_header: Content-Length too large'')"
proof -
  let ?cl = "size32 (atoi v)"
  have big: "2 ^ 31 \<le> ?cl"
    using assms(2) atoi_range [of v] by (simp add: size32_negative le_nat_iff)
  then have "header_line (''Content-Length: '' @ v) 0 = Inr ?cl"
    by (simp only: header_line_length) simp
  then have cl: "read_lines [''Content-Length: '' @ v] 0 = Inr ?cl" by simp
  obtain buf' where run: "wsd_parse_http_header os fd ep buf
      (length (http_request (wsd_endpoint w) version [''Content-Length: '' @ v] body)) bsize w =
      http_body os fd bsize buf' (length body) ?cl (with_endpointlen w)"
    using http_ready_run [OF assms(1,3,4,5) refl cl, of os fd ep] by blast
  have "length body < bsize"
    using assms(3,4) by (simp add: received_def http_request_def)
  then show ?thesis
    unfolding runs_def run using big assms(5) by (simp add: http_body_def exec_simps)
qed

lemma atoi_minus_2: "atoi ''-2'' = - 2"
  by (simp add: atoi_def isspace_def isdigit_def clamp32_def)

theorem http_negative_length_witness:
  "runs (wsd_parse_http_header lan_os 9 udp_ep
      (received (http_request ''4f'' ''1.1'' [''Content-Length: -2''] []) (replicate 40 NUL))
      (length (http_request ''4f'' ''1.1'' [''Content-Length: -2''] []))
      (length (received (http_request ''4f'' ''1.1'' [''Content-Length: -2''] []) (replicate 40 NUL))))
     http_world (\<lambda>(status, buf') t. status = 500)"
proof -
  have ready: "http_ready http_world ''1.1'' [''Content-Length: '' @ ''-2'']"
    by (simp add: http_world_ready line_ok_def)
  have neg: "atoi ''-2'' < 0" by (simp add: atoi_minus_2)
  have eq: "''Content-Length: '' @ ''-2'' = ''Content-Length: -2''" by simp
  have uuid: "wsd_endpoint http_world = ''4f''" by (simp add: http_world_def)
  have size: "length (received (http_request ''4f'' ''1.1'' [''Content-Length: -2''] [])
      (replicate 40 NUL)) \<le> 2 ^ 31"
    by (simp add: received_def http_request_def request_line_def enc_lines_def)
  show ?thesis
    by (rule runs_mono [OF http_negative_length [OF ready neg refl refl, unfolded eq uuid, OF size]])
      (simp_all split: prod.splits)
qed

text \<open>
  A message without a line end crashes the daemon: the result of the search for the line end is
  written through without a test.
\<close>

lemma http_no_line_end_crash:
  assumes "strstr msg CRLF = None" and "NUL \<notin> set msg"
  shows "wsd_parse_http_header os fd ep (received msg junk) len bsize w = Inl NullDeref"
proof -
  have "cstr (received msg junk) 0 = Some msg"
    using cstr_terminated [of msg "[]" 0 junk] assms(2) by (simp add: cstring_def received_def)
  then show ?thesis
    by (simp add: wsd_parse_http_header_def bind_run cstr_at_def assms(1) exec_simps)
qed

lemma http_lines_empty: "drop p buf = NUL # junk \<Longrightarrow> http_lines buf p cl = Lines_stop False buf p cl"
  by (subst http_lines.simps) (simp add: cstr_def)

text \<open>When \<open>p\<close> is behind the end of the data, the length left to move is negative, that is, huge.\<close>

lemma http_again_behind:
  assumes "drop p buf = NUL # junk" and "len < p" and "p \<le> length buf" and "length buf \<le> 2 ^ 31"
  shows "http_again os fd bsize buf p len cl w = Inl OobRead"
proof (rule http_again_move_fault [OF http_lines_empty [OF assms(1)] refl])
  have "size32 (int len - int p) = nat (int len - int p + 2 ^ 32)"
    using assms(2-4) by (subst size32_negative) simp_all
  then have "length buf < p + size32 (int len - int p)"
    using assms(4) by (simp add: zless_nat_eq_int_zless nat_less_iff)
  then show "bind (memmove buf p (size32 (int len - int p)))
      (\<lambda>x. put x (size32 (int len - int p)) NUL) w = Inl OobRead"
    by (simp only: bind_run memmove_def if_True crash_run sum.case)
qed

text \<open>
  C25. A request whose request line arrives alone, with the header lines in a second, shorter segment,
  crashes the daemon: after the buffer has been moved to the front the parser goes on at the old
  offset, finds nothing there and subtracts it from the new length, so that it moves almost 4 GB.
\<close>

theorem http_split_header_crash:
  assumes "http_ready w version []"
    and line: "line = request_line (wsd_endpoint w) version"
    and "buf = received (line @ CRLF) junk" and "length buf = bsize" and "bsize \<le> 2 ^ 31"
    and "rx w = Seg bs # items" and "bs \<noteq> []" and "length bs < length line + 2"
  shows "wsd_parse_http_header os fd ep buf (length line + 2) bsize w = Inl OobRead"
proof -
  let ?p = "length line + 2"
  let ?buf1 = "line @ NUL # LF # NUL # junk"
  let ?w = "with_endpointlen w"
  have b: "buf = line @ CR # LF # NUL # junk"
    using assms(3) by (simp add: received_def)
  have step: "wsd_parse_http_header os fd ep buf ?p bsize w = http_rest os fd bsize ?buf1 ?p ?p ?w"
    using request_line_checks [of w version buf "NUL # junk" os fd ep ?p bsize] assms(1) line b
    by (simp add: http_ready_def)
  have rx: "rx ?w = Seg bs # items"
    using assms(6) by (simp add: with_endpointlen_def)
  have first: "bind (memmove ?buf1 ?p 0) (\<lambda>x. put x 0 NUL) v = Inr (?buf1[0 := NUL], v)" for v
    by (simp add: bind_run memmove_def put_def ret_run)
  let ?buf2 = "map chr bs @ drop (length bs) (?buf1[0 := NUL])"
  let ?buf3 = "?buf2[length bs := NUL]"
  have len: "length ?buf1 = bsize" "length bs < bsize"
    using assms(4,8) b by simp_all
  have "drop ?p (?buf1[0 := NUL]) = NUL # junk"
    by (simp add: drop_update del: One_nat_def)
  then have tl: "drop ?p ?buf3 = NUL # junk"
    using assms(8) by (simp add: drop_update)
  have n: "size32 (int ?p - int ?p) = 0" by (simp add: size32_def)
  let ?k = "int (length bs)"
  obtain v where recv: "recv_at os fd (?buf1[0 := NUL]) 0 (bsize - 0 - 1) ?w = Inr ((?k, ?buf2), v)"
    using len by (simp add: recv_at_def sys_recv_def exec_simps rx)
  have pos: "\<not> ?k \<le> 0" using assms(7) by simp
  have put: "put ?buf2 (0 + nat ?k) NUL v = Inr (?buf3, v)"
    using len by (simp add: put_def ret_run)
  have "http_again os fd bsize ?buf1 ?p ?p 0 ?w = http_again os fd bsize ?buf3 ?p (0 + nat ?k) 0 v"
    by (rule http_again_refill [OF http_lines_empty n first recv pos put]) simp
  moreover have "http_again os fd bsize ?buf3 ?p (0 + nat ?k) 0 v = Inl OobRead"
    by (rule http_again_behind [OF tl]) (use assms(5,8) len in simp_all)
  ultimately show ?thesis
    by (simp only: step http_rest_def bind_run sum.case)
qed

theorem http_split_header_crash_witness:
  "wsd_parse_http_header lan_os 9 udp_ep
     (received (''POST /4f HTTP/1.1'' @ CRLF) (replicate 40 NUL)) (length ''POST /4f HTTP/1.1'' + 2)
     (length (received (''POST /4f HTTP/1.1'' @ CRLF) (replicate 40 NUL)))
     (http_world\<lparr>rx := [Seg (map ord ''Host: nas'')]\<rparr>) = Inl OobRead"
proof -
  let ?w = "http_world\<lparr>rx := [Seg (map ord ''Host: nas'')]\<rparr>"
  have ready: "http_ready ?w ''1.1'' []"
    using http_world_ready [of "[]"] by (simp add: http_ready_def)
  have line: "''POST /4f HTTP/1.1'' = request_line (wsd_endpoint ?w) ''1.1''"
    by (simp add: request_line_def http_world_def)
  have rx: "rx ?w = Seg (map ord ''Host: nas'') # []" by simp
  have size: "length (received (''POST /4f HTTP/1.1'' @ CRLF) (replicate 40 NUL)) \<le> 2 ^ 31"
    by (simp add: received_def)
  show ?thesis
    by (rule http_split_header_crash [OF ready line refl refl size rx]) simp_all
qed

section \<open>Requests that are refused\<close>

text \<open>
  A request line that is not \<^verbatim>\<open>POST /\<close>\<open>uuid\<close>\<^verbatim>\<open> HTTP/\<close> with the device's own endpoint is refused: 404 when the
  path does not start with the endpoint, 405 when the method or the version is another.
\<close>

theorem http_request_line_refused:
  assumes "endpointlen w = 0 \<or> endpointlen w = length (wsd_endpoint w)"
    and "NUL \<notin> set l" and "CR \<notin> set l" and other: "\<not> (\<exists>version. l = request_line (wsd_endpoint w) version)"
    and buf: "buf = received (l @ CRLF @ s) junk"
  shows "runs (wsd_parse_http_header os fd ep buf len bsize) w (\<lambda>(status, buf') t. silent w t \<and>
    status = (if prefix ''POST /'' l \<and> \<not> prefix (wsd_endpoint w) (drop 6 l) then 404 else 405))"
proof -
  have "buf = l @ CR # LF # (s @ NUL # junk)" using buf by (simp add: received_def)
  from first_line_run [OF assms(1-3) this] other show ?thesis
    by (auto simp: request_line_iff runs_def bind_run set_errstr_run ret_run silent_def)
qed

theorem http_request_line_refused_witness:
  "runs (wsd_parse_http_header lan_os 9 udp_ep (received (''POST /xx HTTP/1.1'' @ CRLF @ []) [])
     20 10000) http_world (\<lambda>(status, buf') t. status = 404)"
proof -
  have "\<not> (\<exists>version. ''POST /xx HTTP/1.1'' = request_line (wsd_endpoint http_world) version)"
    by (simp add: request_line_def http_world_def)
  from http_request_line_refused [OF _ _ _ this refl, of lan_os 9 udp_ep "[]" "[]" 20 10000]
  show ?thesis
    by (simp add: http_world_def zero_world_def runs_def split: sum.splits prod.splits)
qed

end
