(* ===== verification/Wsd_Recv.thy ===== *)
theory Wsd_Recv
  imports Wsd_Http
begin

text \<open>
  The entry points of wsd.c: \<open>wsd_init\<close> settles the identity of the device and says Hello,
  \<open>wsd_recv\<close> receives one message, over UDP or on a TCP connection it accepts, and answers Probe,
  Resolve and Get, \<open>wsd_exit\<close> says Bye. The properties are about whole receptions: what is answered,
  that nothing leaks and where memory faults can come from.
\<close>

section \<open>Start and end\<close>

text \<open>
  When \<open>gethostname\<close> fails the array \<open>hostname\<close> is taken to stay as it was. (The documentation leaves open
  whether part of a name that is too long is stored.)
\<close>

definition wsd_init :: "os \<Rightarrow> endpoint \<Rightarrow> int M" where
  "wsd_init os ep =
     bind (get wsd_instance) (\<lambda>inst.
     bind (if inst = 0 then bind (sys (os_time os)) (\<lambda>now. modify (\<lambda>w. w\<lparr>wsd_instance := now\<rparr>))
           else ret ()) (\<lambda>_.
     bind (get wsd_sequence) (\<lambda>sq.
     bind (if sq = [] then
             bind (uuid_random os UUIDLEN) (\<lambda>u. modify (\<lambda>w. w\<lparr>wsd_sequence := u\<rparr>))
           else ret ()) (\<lambda>_.
     bind (get wsd_endpoint) (\<lambda>epuuid.
     bind (if epuuid = [] then
             bind (uuid_endpoint os) (\<lambda>u. case u of None \<Rightarrow> ret ()
             | Some u \<Rightarrow> modify (\<lambda>w. w\<lparr>wsd_endpoint := u\<rparr>))
           else ret ()) (\<lambda>_.
     bind (get wsd_endpoint) (\<lambda>epuuid.
     if epuuid = [] then bind (set_err ''wsd_init: uuid_endpoint'') (\<lambda>_. ret (- 1)) else
     bind (get hostname) (\<lambda>hn.
     bind (if hn = [] then
             bind (failing (os_gethostname os)) (\<lambda>h. case h of None \<Rightarrow> ret False
             | Some nm \<Rightarrow> bind (modify (\<lambda>w. w\<lparr>hostname := upto_NUL nm\<rparr>)) (\<lambda>_. ret True))
           else ret True) (\<lambda>ok.
     if \<not> ok then bind (set_err ''wsd_init: gethostname'') (\<lambda>_. ret (- 1)) else
     bind (get workgroup) (\<lambda>wg.
     bind (if wg = None then
             bind (get_smbparm os ''workgroup'' ''WORKGROUP'') (\<lambda>p.
             bind (modify (\<lambda>w. w\<lparr>workgroup := p\<rparr>)) (\<lambda>_. ret (p \<noteq> None)))
           else ret True) (\<lambda>ok.
     if \<not> ok then ret (- 1) else
     bind (get netbiosname) (\<lambda>nb.
     bind (get hostname) (\<lambda>hn.
     bind (if nb = None then
             bind (get_smbparm os ''netbios name'' hn) (\<lambda>p.
             bind (modify (\<lambda>w. w\<lparr>netbiosname := p\<rparr>)) (\<lambda>_. ret (p \<noteq> None)))
           else ret True) (\<lambda>ok.
     if \<not> ok then ret (- 1) else
     bind (get getresp_inited) (\<lambda>inited.
     bind (if inited then ret () else init_getresp os) (\<lambda>_.
     wsd_send_hello os ep))))))))))))))))"

definition wsd_exit :: "os \<Rightarrow> endpoint \<Rightarrow> unit M" where
  "wsd_exit os ep = bind (wsd_send_bye os ep) (\<lambda>_. ret ())"

section \<open>Reception\<close>

definition wsd_recv_action ::
    "os \<Rightarrow> (int \<Rightarrow> endpoint \<Rightarrow> saddr \<Rightarrow> wsd_req_info \<Rightarrow> string \<Rightarrow> int M) \<Rightarrow>
     int \<Rightarrow> endpoint \<Rightarrow> saddr \<Rightarrow> wsd_req_info \<Rightarrow> int M" where
  "wsd_recv_action os f fd ep sa info =
     bind (connected_if os sa) (\<lambda>(rv, ci).
     if rv \<noteq> 0 then bind (set_err ''wsd_recv_action: connected_if'') (\<lambda>_. ret (- 1))
     else bind (inet_ntop (ss_family sa) (sin_addr ci)) (\<lambda>ip. case ip of
       None \<Rightarrow> bind (set_err ''wsd_recv_action: inet_ntop'') (\<lambda>_. ret (- 1))
     | Some ip \<Rightarrow> f fd ep sa info ip))"

text \<open>The switch on the action of a request; its result is only reported.\<close>

definition wsd_dispatch :: "os \<Rightarrow> int \<Rightarrow> endpoint \<Rightarrow> saddr \<Rightarrow> wsd_req_info option \<Rightarrow> int M" where
  "wsd_dispatch os fd ep sa info =
     (case info of None \<Rightarrow> ret 0
      | Some i \<Rightarrow> (case wsd_action_id info of
          WSD_ACTION_PROBE \<Rightarrow> wsd_recv_action os (wsd_send_probe_match os) fd ep sa i
        | WSD_ACTION_RESOLVE \<Rightarrow> wsd_recv_action os (wsd_send_resolve_match os) fd ep sa i
        | WSD_ACTION_GET \<Rightarrow> wsd_recv_action os (wsd_send_get_response os) fd ep sa i
        | _ \<Rightarrow> ret 0))"

text \<open>The buffer of 10000 characters after \<open>n\<close> of them have been received and terminated.\<close>

definition recv_buffer :: "os \<Rightarrow> byte list \<Rightarrow> char list M" where
  "recv_buffer os dat = bind (sys (os_stack os)) (\<lambda>stale.
     ret (map chr dat @ [NUL] @ map (\<lambda>i. chr (stale i)) [length dat + 1..<10000]))"

text \<open>
  The end of \<open>wsd_recv\<close>: with the status of the HTTP header (0 when there was none) the request is
  refused, or its action is carried out.
\<close>

definition wsd_reply :: "os \<Rightarrow> endpoint \<Rightarrow> int \<Rightarrow> saddr \<Rightarrow> int \<Rightarrow> char list \<Rightarrow> int M" where
  "wsd_reply os ep fd sa status buf =
     (if status > 200 then
       bind (send_http_resp_header os fd ep sa status 0) (\<lambda>_.
       bind (get ep_errstr) (\<lambda>e.
       bind (if status \<ge> 400 then wsd_send_soap_fault os fd ep sa status e e else ret 0) (\<lambda>_.
       bind (sys_close fd) (\<lambda>_. ret 0))))
     else
       bind (cstr_at buf 0) (\<lambda>xml.
       bind (wsd_req_parse os xml) (\<lambda>info.
       bind (wsd_dispatch os fd ep sa info) (\<lambda>_.
       bind (if sock ep \<noteq> fd then sys_close fd else ret ()) (\<lambda>_. ret 0)))))"

text \<open>What is done with a message received on \<open>fd\<close> from \<open>sa\<close>.\<close>

definition wsd_handle :: "os \<Rightarrow> endpoint \<Rightarrow> int \<Rightarrow> saddr \<Rightarrow> byte list \<Rightarrow> int M" where
  "wsd_handle os ep fd sa dat =
     bind (recv_buffer os dat) (\<lambda>buf.
     bind (cstr_at buf 0) (\<lambda>msg.
     bind (if type ep = SOCK_STREAM \<and> strncmp_eq msg ''POST '' 5
           then wsd_parse_http_header os fd ep buf (length dat) 10000
           else ret (0, buf)) (\<lambda>(status, buf). wsd_reply os ep fd sa status buf)))"

text \<open>The accepted connection: a receive time-out of a second, the first segment, the message.\<close>

definition wsd_serve :: "os \<Rightarrow> endpoint \<Rightarrow> int \<Rightarrow> saddr \<Rightarrow> int M" where
  "wsd_serve os ep fd sa =
     bind (sys_setsockopt os fd ''SO_RCVTIMEO'') (\<lambda>_.
     bind (sys_recv os fd (10000 - 1)) (\<lambda>m. case m of
       None \<Rightarrow> bind (if sock ep \<noteq> fd then sys_close fd else ret ()) (\<lambda>_. ret (- 1))
     | Some dat \<Rightarrow>
         if dat = [] then bind (if sock ep \<noteq> fd then sys_close fd else ret ()) (\<lambda>_. ret 0)
         else wsd_handle os ep fd sa dat))"

definition wsd_recv :: "os \<Rightarrow> endpoint \<Rightarrow> int M" where
  "wsd_recv os ep =
     (if type ep = SOCK_STREAM then
       bind (sys_accept os (sock ep)) (\<lambda>r. case r of
         None \<Rightarrow> bind (set_err ''wsd_recv: accept'') (\<lambda>_. ret (- 1))
       | Some (fd, sa) \<Rightarrow> wsd_serve os ep fd sa)
     else
       bind (sys_recvfrom os (sock ep) (10000 - 1)) (\<lambda>m. case m of
         None \<Rightarrow> ret (- 1)
       | Some (dat, sa) \<Rightarrow> if dat = [] then ret 0 else wsd_handle os ep (sock ep) sa dat))"

section \<open>Descriptors\<close>

text \<open>
  Events that create or close a descriptor, and the runs in which there are none and nothing asks
  for a restart.
\<close>

fun fd_event :: "event \<Rightarrow> bool" where
  "fd_event (Ev_socket a b c d) = True"
| "fd_event (Ev_accept a b) = True"
| "fd_event (Ev_close a) = True"
| "fd_event _ = False"

definition calm :: "world \<Rightarrow> world \<Rightarrow> bool" where
  "calm s t \<longleftrightarrow> restart t = restart s \<and>
     (\<exists>es. trace t = trace s @ es \<and> list_all (\<lambda>e. \<not> fd_event e) es)"

interpretation calm: frame calm
proof
  show "calm s s" for s by (simp add: calm_def)
  show "calm s u" if "calm s t" "calm t u" for s t u
    using that unfolding calm_def by (metis append.assoc list_all_append)
qed

lemma silent_calm: "silent s t \<Longrightarrow> calm s t"
  by (simp add: silent_def calm_def)

lemma calm_emit: "\<not> fd_event e \<Longrightarrow> keeps calm (emit e)"
  by (auto simp: keeps_def emit_run calm_def)

lemma calm_silent: "keeps silent m \<Longrightarrow> keeps calm m"
  by (auto elim: keeps_mono intro: silent_calm)

lemma calm_sys_send: "keeps calm (sys_send os fd bs)"
  unfolding sys_send_def by (intro calm.keeps_intros calm_emit calm_silent frame_rules) simp

lemma calm_sys_sendto: "keeps calm (sys_sendto os fd bs sa)"
  unfolding sys_sendto_def by (intro calm.keeps_intros calm_emit calm_silent frame_rules) simp

lemma calm_sys_recvfrom: "keeps calm (sys_recvfrom os fd n)"
  unfolding sys_recvfrom_def by (intro calm.keeps_intros calm_emit calm_silent frame_rules) simp_all

lemma calm_sys_recv: "keeps calm (sys_recv os fd n)"
  unfolding sys_recv_def by (intro calm.keeps_intros calm_emit calm_silent frame_rules) simp_all

lemma calm_setsockopt: "keeps calm (sys_setsockopt os fd opt)"
  unfolding sys_setsockopt_def by (intro calm.keeps_intros calm_emit calm_silent frame_rules) simp

lemma silent_asprintf [frame_rules]: "keeps silent (asprintf os fmt args)"
  unfolding asprintf_def by (intro sil.keeps_intros frame_rules)

lemma silent_relates_elem [frame_rules]: "keeps silent (relates_elem os relates)"
  unfolding relates_elem_def by (intro sil.keeps_intros frame_rules)

lemma silent_uuid_random [frame_rules]: "keeps silent (uuid_random os n)"
  unfolding uuid_random_def set_seed_def srand48_def mrand48_def
  by (intro sil.keeps_intros frame_rules) simp_all

lemma calm_wsd_send_msg: "keeps calm (wsd_send_msg os fd ep sa msg rwait)"
  unfolding wsd_send_msg_def
  by (intro calm.keeps_intros calm_emit calm_sys_send calm_sys_sendto calm_silent [OF silent_sys])
    simp

lemma calm_soap_msg:
  assumes "\<And>h n. header = Some h \<Longrightarrow> keeps calm (h fd ep sa status n)"
  shows "keeps calm (wsd_send_soap_msg os fd ep sa to act relates body header status)"
  unfolding wsd_send_soap_msg_def
  by (cases header; simp only: option.case;
      intro calm.keeps_bind calm.keeps_if calm.keeps_ret calm.keeps_get calm_wsd_send_msg
        calm_silent [OF silent_uuid_random] calm_silent [OF silent_relates_elem]
        calm_silent [OF silent_asprintf] calm_silent [OF silent_set_err] calm.keeps_modify
        calm.keeps_case_option assms; simp add: calm_def)

lemma calm_http_header: "keeps calm (send_http_resp_header os fd ep sa status n)"
  unfolding send_http_resp_header_def
  by (intro calm.keeps_intros calm_wsd_send_msg calm_silent frame_rules)

lemma calm_soap_fault: "keeps calm (wsd_send_soap_fault os fd ep sa code reason detail)"
  unfolding wsd_send_soap_fault_def
  by (intro calm.keeps_intros calm_wsd_send_msg calm_silent [OF silent_asprintf] calm.keeps_modify)
    (simp add: calm_def)

lemma calm_probe_match: "keeps calm (wsd_send_probe_match os fd ep sa info ip)"
  unfolding wsd_send_probe_match_def
  by (intro calm.keeps_intros calm_soap_msg calm_silent [OF silent_ip2uri]
      calm_silent [OF silent_asprintf] calm_silent [OF silent_set_err]) simp

lemma calm_resolve_match: "keeps calm (wsd_send_resolve_match os fd ep sa info ip)"
  unfolding wsd_send_resolve_match_def
  by (intro calm.keeps_intros calm_soap_msg calm_silent [OF silent_ip2uri]
      calm_silent [OF silent_asprintf] calm_silent [OF silent_set_err]) simp

lemma calm_get_response: "keeps calm (wsd_send_get_response os fd ep sa info ip)"
  unfolding wsd_send_get_response_def
  by (intro calm.keeps_intros calm_soap_msg calm_silent [OF silent_asprintf]
      calm_silent [OF silent_set_err]) (auto intro: calm_http_header)

lemma calm_recv_at: "keeps calm (recv_at os fd buf i n)"
  unfolding recv_at_def by (intro calm.keeps_intros calm_sys_recv)

text \<open>The refilling loop keeps every frame that one call of \<open>recv\<close> keeps.\<close>

lemma http_again_frame:
  assumes R: "frame R" and once: "\<And>os fd buf i n. keeps R (recv_at os fd buf i n)"
  shows "http_again os fd bsize buf p len cl w = Inr (r, t) \<Longrightarrow> R w t"
proof (induction os fd bsize buf p len cl w rule: http_again.induct)
  case (1 os fd bsize buf p len cl w)
  show ?case
  proof (cases "http_lines buf p cl")
    case (Lines_stop eoh b p1 c)
    note lines = Lines_stop
    let ?p2 = "if eoh then p1 + 2 else p1"
    let ?n = "size32 (int len - int ?p2)"
    from "1.prems" obtain b2 where move: "bind (memmove b ?p2 ?n) (\<lambda>x. put x ?n NUL) w = Inr (b2, w)"
      by (subst (asm) http_again.simps) (auto simp: lines Let_def bind_eq_Inr put_Inr memmove_Inr
          split: sum.splits prod.splits)
    show ?thesis
    proof (cases eoh)
      case True
      with "1.prems" move show ?thesis
        by (subst (asm) http_again.simps) (simp add: lines Let_def frame.frame_refl [OF R])
    next
      case False
      with "1.prems" move lines obtain k b3 w2 where
        recv: "recv_at os fd b2 ?n (bsize - ?n - 1) w = Inr ((k, b3), w2)"
        by (subst (asm) http_again.simps) (auto simp: Let_def split: sum.splits prod.splits)
      then have c: "R w w2" by (rule keepsD [OF once])
      show ?thesis
      proof (cases "k \<le> 0")
        case True
        with "1.prems" move lines False recv c show ?thesis
          by (subst (asm) http_again.simps) (simp add: Let_def)
      next
        case pos: False
        with "1.prems" move lines False recv obtain b4 where
          b4: "put b3 (?n + nat k) NUL w2 = Inr (b4, w2)" and
          rec: "http_again os fd bsize b4 p1 (?n + nat k) c w2 = Inr (r, t)"
          by (subst (asm) http_again.simps) (auto simp: Let_def put_Inr split: sum.splits prod.splits)
        have "R w2 t"
          using "1.IH" [OF lines refl refl move refl] False recv pos b4 rec by simp
        with c show ?thesis by (rule frame.frame_trans [OF R])
      qed
    qed
  qed (use "1.prems" in \<open>auto simp: http_again.simps [of os fd bsize buf p len cl w] frame.frame_refl [OF R]\<close>)
qed

lemma calm_http_again: "keeps calm (http_again os fd bsize buf p len cl)"
  unfolding keeps_def
  using http_again_frame [OF calm.frame_axioms calm_recv_at] by blast

lemma silent_cstr_at [frame_rules]: "keeps silent (cstr_at buf p)"
  unfolding cstr_at_def by (intro sil.keeps_intros)

lemma silent_put [frame_rules]: "keeps silent (put buf i c)"
  unfolding put_def by (intro sil.keeps_intros)

lemma calm_http_body: "keeps calm (http_body os fd bsize buf len cl)"
  unfolding http_body_def
  by (intro calm.keeps_intros calm_recv_at calm_silent [OF silent_set_errstr] calm_silent [OF silent_put])

lemma calm_http_rest: "keeps calm (http_rest os fd bsize buf p len)"
  unfolding http_rest_def
  by (intro calm.keeps_intros calm_http_body calm_http_again calm_silent [OF silent_set_errstr])

lemma calm_parse_http_header: "keeps calm (wsd_parse_http_header os fd ep buf len bsize)"
  unfolding wsd_parse_http_header_def
  by (intro calm.keeps_intros calm_http_rest calm_silent [OF silent_set_errstr]
      calm_silent [OF silent_put] calm_silent [OF silent_cstr_at] calm_silent [OF silent_modify]) simp_all

lemma calm_recv_action:
  assumes "\<And>ip. keeps calm (f fd ep sa info ip)"
  shows "keeps calm (wsd_recv_action os f fd ep sa info)"
  unfolding wsd_recv_action_def
  by (intro calm.keeps_intros assms calm_silent [OF silent_connected_if] calm_silent [OF silent_set_err]
      calm_silent [OF silent_inet_ntop])

lemma calm_dispatch: "keeps calm (wsd_dispatch os fd ep sa info)"
  unfolding wsd_dispatch_def
  by (auto intro!: calm.keeps_ret calm_recv_action calm_probe_match calm_resolve_match
      calm_get_response split: option.splits wsd_action.splits)

lemma silent_recv_buffer [frame_rules]: "keeps silent (recv_buffer os dat)"
  unfolding recv_buffer_def by (intro sil.keeps_intros frame_rules)

text \<open>
  Calm apart from closing descriptor \<open>c\<close> once, at the end.
\<close>

definition closes :: "int \<Rightarrow> world \<Rightarrow> world \<Rightarrow> bool" where
  "closes c s t \<longleftrightarrow> restart t = restart s \<and>
     (\<exists>es. trace t = trace s @ es @ [Ev_close c] \<and> list_all (\<lambda>e. \<not> fd_event e) es)"

lemma calm_closes: "calm s t \<Longrightarrow> closes c t u \<Longrightarrow> closes c s u"
  by (auto simp: calm_def closes_def)

lemma closes_close: "keeps (closes c) (bind (sys_close c) (\<lambda>_. ret r))"
  by (auto simp: keeps_def closes_def sys_close_def exec_simps)

lemma closes_bind: "keeps calm m \<Longrightarrow> (\<And>a. keeps (closes c) (k a)) \<Longrightarrow> keeps (closes c) (bind m k)"
  by (rule keeps_after [OF _ calm_closes])

lemma closes_close_if:
  "sock ep \<noteq> fd \<Longrightarrow>
   keeps (closes fd) (bind (if sock ep \<noteq> fd then sys_close fd else ret ()) (\<lambda>_. ret r))"
  by (simp add: closes_close)

lemmas calm_steps =
  calm_silent [OF silent_recv_buffer] calm_silent [OF silent_cstr_at] calm_http_header calm_dispatch
  calm_silent [OF silent_wsd_req_parse] calm.keeps_get calm.keeps_ret calm_parse_http_header
  calm_soap_fault

lemma handle_closes:
  assumes "sock ep \<noteq> fd"
  shows "keeps (closes fd) (wsd_handle os ep fd sa dat)"
  unfolding wsd_handle_def wsd_reply_def
  by (rule closes_close closes_close_if [OF assms] | rule closes_bind keeps_ifI keeps_prodI calm_steps)+

lemma handle_calm:
  assumes "type ep \<noteq> SOCK_STREAM"
  shows "keeps calm (wsd_handle os ep (sock ep) sa dat)"
proof -
  have "wsd_handle os ep (sock ep) sa dat = bind (recv_buffer os dat) (\<lambda>buf. bind (cstr_at buf 0)
      (\<lambda>msg. wsd_reply os ep (sock ep) sa 0 buf))"
    using assms by (simp add: wsd_handle_def)
  then show ?thesis
    by (simp add: wsd_reply_def)
      (intro calm.keeps_bind calm_silent [OF silent_recv_buffer] calm_silent [OF silent_cstr_at]
        calm_dispatch calm_silent [OF silent_wsd_req_parse] calm.keeps_ret)
qed

text \<open>The state in which an accepted connection is served.\<close>

definition accepted_world :: "world \<Rightarrow> int \<Rightarrow> int \<Rightarrow> rx_item list \<Rightarrow> world" where
  "accepted_world w fd c items =
     w\<lparr>calls := Suc (calls w), trace := trace w @ [Ev_accept fd c], rx := items\<rparr>"

lemma wsd_recv_accepted:
  assumes "type ep = SOCK_STREAM" and "os_accept os (calls w) (sock ep) = Inr (c, sa, items)"
  shows "wsd_recv os ep w = wsd_serve os ep c sa (accepted_world w (sock ep) c items)"
  using assms
  by (simp add: wsd_recv_def sys_accept_def failing_def bind_run sys_run emit_run modify_run ret_run
      accepted_world_def exec_simps)

lemma recv_udp_calm:
  assumes "type ep \<noteq> SOCK_STREAM"
  shows "keeps calm (wsd_recv os ep)"
  unfolding wsd_recv_def using assms
  by (auto intro!: calm.keeps_intros calm_sys_recvfrom handle_calm)

lemma recv_accept_failed:
  assumes "type ep = SOCK_STREAM" and "os_accept os (calls w) (sock ep) = Inl e"
    and "wsd_recv os ep w = Inr (r, t)"
  shows "trace t = trace w @ [Ev_accept (sock ep) (- 1)]" and "restart t = restart w" and "r = - 1"
  using assms by (auto simp: wsd_recv_def sys_accept_def failing_def exec_simps)

lemma recv_tcp_closes:
  assumes tcp: "type ep = SOCK_STREAM" and x: "os_accept os (calls w) (sock ep) = Inr (c, sa, items)"
    and "c \<noteq> sock ep" and run: "wsd_recv os ep w = Inr (r, t)"
  shows "closes c (accepted_world w (sock ep) c items) t"
proof -
  have ne: "sock ep \<noteq> c" using assms(3) by simp
  have closes: "keeps (closes c) (wsd_serve os ep c sa)"
    unfolding wsd_serve_def
    by (rule closes_close closes_close_if [OF ne] |
        rule closes_bind keeps_ifI keeps_optionI handle_closes [OF ne] calm_setsockopt calm_sys_recv)+
  from run have "wsd_serve os ep c sa (accepted_world w (sock ep) c items) = Inr (r, t)"
    by (simp only: wsd_recv_accepted [OF tcp x])
  with closes show ?thesis by (rule keepsD)
qed

text \<open>
  C8. A reception leaks no descriptor: over UDP no descriptor is made or closed; over TCP either the
  \<open>accept\<close> fails, or the connection it returns is closed exactly once, as the last thing done, on
  every path through the HTTP and SOAP code, errors included.
\<close>

theorem wsd_recv_descriptors:
  assumes run: "wsd_recv os ep w = Inr (r, t)"
    and fresh: "\<And>n c sa items. os_accept os n (sock ep) = Inr (c, sa, items) \<Longrightarrow> c \<noteq> sock ep"
  shows "if type ep = SOCK_STREAM
    then trace t = trace w @ [Ev_accept (sock ep) (- 1)] \<or>
      (\<exists>c es. trace t = trace w @ Ev_accept (sock ep) c # es @ [Ev_close c] \<and>
        list_all (\<lambda>e. \<not> fd_event e) es)
    else calm w t"
proof (cases "type ep = SOCK_STREAM")
  case False
  then show ?thesis using keepsD [OF recv_udp_calm run] by simp
next
  case tcp: True
  show ?thesis
  proof (cases "os_accept os (calls w) (sock ep)")
    case (Inl e)
    with recv_accept_failed(1) [OF tcp Inl run] tcp show ?thesis by simp
  next
    case (Inr x)
    then obtain c sa items where x: "os_accept os (calls w) (sock ep) = Inr (c, sa, items)"
      by (cases x) auto
    from recv_tcp_closes [OF tcp x fresh [OF x] run] tcp show ?thesis
      by (auto simp: closes_def accepted_world_def)
  qed
qed

section \<open>Memory safety\<close>

lemma http_again_status:
  "http_again os fd bsize buf p len cl w = Inr (Inl (status, e), t) \<Longrightarrow> status = 400 \<or> status = 500"
proof (induction os fd bsize buf p len cl w rule: http_again.induct)
  case (1 os fd bsize buf p len cl w)
  show ?case
  proof (cases "http_lines buf p cl")
    case (Lines_stop eoh b p1 c)
    note lines = Lines_stop
    let ?p2 = "if eoh then p1 + 2 else p1"
    let ?n = "size32 (int len - int ?p2)"
    from "1.prems" obtain b2 where move: "bind (memmove b ?p2 ?n) (\<lambda>x. put x ?n NUL) w = Inr (b2, w)"
      by (subst (asm) http_again.simps) (auto simp: lines Let_def bind_eq_Inr put_Inr memmove_Inr
          split: sum.splits prod.splits)
    have eoh: "\<not> eoh"
      using "1.prems" move by (subst (asm) http_again.simps) (auto simp: lines Let_def)
    then obtain k b3 w2 where recv: "recv_at os fd b2 ?n (bsize - ?n - 1) w = Inr ((k, b3), w2)"
      using "1.prems" move lines
      by (subst (asm) http_again.simps) (auto simp: Let_def split: sum.splits prod.splits)
    show ?thesis
    proof (cases "k \<le> 0")
      case True
      with "1.prems" move lines eoh recv show ?thesis
        by (subst (asm) http_again.simps) (simp add: Let_def)
    next
      case pos: False
      with "1.prems" move lines eoh recv obtain b4 where
        b4: "put b3 (?n + nat k) NUL w2 = Inr (b4, w2)" and
        rec: "http_again os fd bsize b4 p1 (?n + nat k) c w2 = Inr (Inl (status, e), t)"
        by (subst (asm) http_again.simps) (auto simp: Let_def put_Inr split: sum.splits prod.splits)
      show ?thesis
        using "1.IH" [OF lines refl refl move refl] eoh recv pos b4 rec by simp
    qed
  qed (use "1.prems" in \<open>auto simp: http_again.simps [of os fd bsize buf p len cl w]\<close>)
qed

text \<open>A request that is not refused leaves a terminated body.\<close>

definition refused_or_terminated :: "int \<times> char list \<Rightarrow> bool" where
  "refused_or_terminated r \<longleftrightarrow> fst r > 200 \<or> NUL \<in> set (snd r)"

lemma http_body_terminated: "yields refused_or_terminated (http_body os fd bsize buf len cl)"
  unfolding http_body_def
  by (intro yields_intros) (auto simp: refused_or_terminated_def put_Inr set_update_memI)

lemma http_rest_terminated: "yields refused_or_terminated (http_rest os fd bsize buf p len)"
  unfolding http_rest_def
  by (intro yields_intros http_body_terminated)
    (auto simp: refused_or_terminated_def dest!: http_again_status)

lemma parse_terminated:
  "yields refused_or_terminated (wsd_parse_http_header os fd ep buf len bsize)"
  unfolding wsd_parse_http_header_def
  by (intro yields_intros http_rest_terminated) (auto simp: refused_or_terminated_def)

lemma recv_buffer_run:
  "recv_buffer os dat w = Inr (map chr dat @ NUL # map (\<lambda>i. chr (os_stack os (calls w) i))
     [length dat + 1..<10000], w\<lparr>calls := Suc (calls w)\<rparr>)"
  by (simp add: recv_buffer_def exec_simps)

lemma safe_recv_buffer [safe_rules]: "safe (recv_buffer os dat)"
  unfolding recv_buffer_def by (intro safe_branches safe_rules)

lemma safe_cstr_at: "NUL \<in> set buf \<Longrightarrow> safe (cstr_at buf 0)"
  by (simp add: cstr_at_def cstr_def safe_rules)

lemma safe_recv_action:
  assumes "ifs_ok os" and "\<And>ip. safe (f fd ep sa info ip)"
  shows "safe (wsd_recv_action os f fd ep sa info)"
  unfolding wsd_recv_action_def
  by (intro safe_branches safe_rules safe_connected_if assms)

lemma safe_dispatch:
  assumes "ifs_ok os"
  shows "safe (wsd_dispatch os fd ep sa info)"
  unfolding wsd_dispatch_def
  by (auto intro!: safe_rules safe_recv_action assms split: option.splits wsd_action.splits)

lemma bind_Inr: "m s = Inr (a, t) \<Longrightarrow> bind m k s = k a t"
  by (simp add: bind_run)

lemma safe_wsd_reply:
  assumes "ifs_ok os" and "refused_or_terminated (status, buf)"
  shows "safe (wsd_reply os ep fd sa status buf)"
proof -
  have "\<not> status > 200 \<Longrightarrow> safe (cstr_at buf 0)"
    using assms(2) by (intro safe_cstr_at) (simp add: refused_or_terminated_def)
  then show ?thesis
    unfolding wsd_reply_def by (intro safe_branches safe_rules safe_dispatch assms(1))
qed

lemma reply_no_fault:
  assumes "ifs_ok os" and "refused_or_terminated r"
  shows "(case r of (status, buf) \<Rightarrow> wsd_reply os ep fd sa status buf) v \<noteq> Inl f"
proof -
  obtain status buf where r: "r = (status, buf)" by (cases r)
  from safe_wsd_reply [OF assms(1) assms(2) [unfolded r], of ep fd sa]
  obtain a t where "wsd_reply os ep fd sa status buf v = Inr (a, t)" unfolding safe_def by blast
  then show ?thesis by (simp add: r)
qed

text \<open>The buffer of a reception that starts in \<open>w\<close>.\<close>

definition rx_buffer :: "os \<Rightarrow> world \<Rightarrow> byte list \<Rightarrow> char list" where
  "rx_buffer os w dat =
     received (map chr dat) (map (\<lambda>i. chr (os_stack os (calls w) i)) [length dat + 1..<10000])"

lemma NUL_rx_buffer [simp]: "NUL \<in> set (rx_buffer os w dat)"
  by (simp add: rx_buffer_def received_def)

lemma upto_NUL_rx_buffer: "upto_NUL (rx_buffer os w dat) = upto_NUL (map chr dat)"
proof (cases "NUL \<in> set (map chr dat)")
  case True
  then have "\<not> (\<forall>c\<in>set (map chr dat). c \<noteq> NUL)" by blast
  then show ?thesis by (simp only: rx_buffer_def received_def upto_NUL_def takeWhile_append if_False)
next
  case False
  then have "upto_NUL (rx_buffer os w dat) = map chr dat"
    unfolding rx_buffer_def received_def upto_NUL_def by (intro takeWhile_append_stop; metis)
  moreover from False have "upto_NUL (map chr dat) = map chr dat"
    unfolding upto_NUL_def by (intro takeWhile_all; metis)
  ultimately show ?thesis by simp
qed

lemma handle_run:
  "wsd_handle os ep fd sa dat w = bind
      (if type ep = SOCK_STREAM \<and> strncmp_eq (upto_NUL (map chr dat)) ''POST '' 5
       then wsd_parse_http_header os fd ep (rx_buffer os w dat) (length dat) 10000
       else ret (0, rx_buffer os w dat))
      (\<lambda>(status, buf). wsd_reply os ep fd sa status buf) (w\<lparr>calls := Suc (calls w)\<rparr>)"
proof -
  have str: "cstr_at (rx_buffer os w dat) 0 v = Inr (upto_NUL (map chr dat), v)" for v :: world
    using upto_NUL_rx_buffer [of os w dat]
    by (simp add: cstr_at_def cstr_def ret_run upto_NUL_def)
  show ?thesis
    unfolding wsd_handle_def
    by (simp only: rx_buffer_def [unfolded received_def, symmetric] bind_Inr [where m = "recv_buffer os dat", OF recv_buffer_run]
        bind_Inr [where m = "cstr_at (rx_buffer os w dat) 0", OF str])
qed

lemma handle_fault:
  assumes ifs: "ifs_ok os" and fault: "wsd_handle os ep fd sa dat w = Inl f"
  shows "type ep = SOCK_STREAM \<and> prefix ''POST '' (map chr dat) \<and>
    (\<exists>buf v. wsd_parse_http_header os fd ep buf (length dat) 10000 v = Inl f)"
proof -
  let ?buf = "rx_buffer os w dat"
  let ?post = "type ep = SOCK_STREAM \<and> strncmp_eq (upto_NUL (map chr dat)) ''POST '' 5"
  let ?v = "w\<lparr>calls := Suc (calls w)\<rparr>"
  let ?reply = "\<lambda>(status, buf). wsd_reply os ep fd sa status buf"
  have run: "bind (if ?post then wsd_parse_http_header os fd ep ?buf (length dat) 10000
      else ret (0, ?buf)) ?reply ?v = Inl f"
    using fault unfolding handle_run .
  have plain: "refused_or_terminated (0, ?buf)" by (simp add: refused_or_terminated_def)
  have post: "?post"
  proof (rule ccontr)
    assume no: "\<not> ?post"
    from run have "?reply (0, ?buf) ?v = Inl f" by (simp only: if_not_P [OF no] bind_ret)
    with reply_no_fault [OF ifs plain] show False by blast
  qed
  from run have run': "bind (wsd_parse_http_header os fd ep ?buf (length dat) 10000) ?reply ?v = Inl f"
    by (simp only: if_P [OF post])
  have "wsd_parse_http_header os fd ep ?buf (length dat) 10000 ?v = Inl f"
  proof (rule disjE [OF run' [unfolded bind_eq_Inl]], assumption, elim exE conjE)
    fix r t
    assume parse: "wsd_parse_http_header os fd ep ?buf (length dat) 10000 ?v = Inr (r, t)"
      and reply: "?reply r t = Inl f"
    show ?thesis
      using reply reply_no_fault [OF ifs yieldsD [OF parse_terminated parse]] by blast
  qed
  moreover have "prefix ''POST '' (map chr dat)"
  proof -
    have "prefix ''POST '' (upto_NUL (map chr dat))"
      using post take_prefix_iff [of "''POST ''" "upto_NUL (map chr dat)"]
      by (simp add: strncmp_eq_def eval_nat_numeral)
    moreover have "prefix (upto_NUL (map chr dat)) (map chr dat)"
      by (simp add: upto_NUL_def takeWhile_is_prefix)
    ultimately show ?thesis by (rule prefix_order.trans)
  qed
  ultimately show ?thesis using post by blast
qed

lemma safe_no_Inl: "safe m \<Longrightarrow> m w \<noteq> Inl f"
  unfolding safe_def by (metis sum.distinct(1))

lemma serve_fault:
  assumes ifs: "ifs_ok os" and fault: "wsd_serve os ep fd sa w = Inl f"
  shows "\<exists>dat v. wsd_handle os ep fd sa dat v = Inl f \<and> dat \<noteq> [] \<and> length dat \<le> 9999 \<and>
    rx_take 9999 (rx w) = (Inr dat, rx v)"
proof -
  have "\<exists>dat v. wsd_handle os ep fd sa dat v = Inl f \<and> dat \<noteq> [] \<and>
    rx_take 9999 (rx w) = (Inr dat, rx v)"
    using fault
    by (auto simp: wsd_serve_def sys_setsockopt_def sys_recv_def sys_close_def exec_simps
      split: sum.splits prod.splits if_splits)
  moreover have "length dat \<le> 9999" if "rx_take 9999 items = (Inr dat, items')" for dat items items'
    using that by (cases "(9999::nat, items)" rule: rx_take.cases) auto
  ultimately show ?thesis by blast
qed

lemma safe_handle_udp:
  assumes "ifs_ok os" and "type ep \<noteq> SOCK_STREAM"
  shows "safe (wsd_handle os ep fd sa dat)"
  unfolding safe_def
proof
  fix w
  show "\<exists>r t. wsd_handle os ep fd sa dat w = Inr (r, t)"
  proof (cases "wsd_handle os ep fd sa dat w")
    case (Inl f)
    with handle_fault [OF assms(1) Inl] assms(2) show ?thesis by blast
  qed auto
qed

lemma safe_recv_udp:
  assumes "ifs_ok os" and "type ep \<noteq> SOCK_STREAM"
  shows "safe (wsd_recv os ep)"
  unfolding wsd_recv_def if_not_P [OF assms(2)]
  by (intro safe_branches safe_rules safe_handle_udp assms)


section \<open>What is answered\<close>

text \<open>The state in which the first segment of a connection has been received.\<close>

definition got_segment :: "os \<Rightarrow> int \<Rightarrow> world \<Rightarrow> byte list \<Rightarrow> rx_item list \<Rightarrow> world" where
  "got_segment os fd w bs items =
     (let e = os_setsockopt os (calls w) fd ''SO_RCVTIMEO'' in
      w\<lparr>calls := Suc (calls w), errno := (if e = 0 then errno w else e), rx := items,
        trace := trace w @ [Ev_setsockopt fd ''SO_RCVTIMEO'' (if e = 0 then 0 else - 1),
          Ev_recv fd (int (length bs))]\<rparr>)"

lemma got_segment_fields [simp]:
  "calls (got_segment os fd w bs items) = Suc (calls w)"
  "wsd_instance (got_segment os fd w bs items) = wsd_instance w"
  "wsd_sequence (got_segment os fd w bs items) = wsd_sequence w"
  "wsd_endpoint (got_segment os fd w bs items) = wsd_endpoint w"
  "endpointlen (got_segment os fd w bs items) = endpointlen w"
  "msg_no (got_segment os fd w bs items) = msg_no w"
  "bootinfo (got_segment os fd w bs items) = bootinfo w"
  "netbiosname (got_segment os fd w bs items) = netbiosname w"
  "workgroup (got_segment os fd w bs items) = workgroup w"
  "trace (got_segment os fd w bs items) = trace w @ [Ev_setsockopt fd ''SO_RCVTIMEO''
     (if os_setsockopt os (calls w) fd ''SO_RCVTIMEO'' = 0 then 0 else - 1), Ev_recv fd (int (length bs))]"
  by (simp_all add: got_segment_def Let_def)

lemma serve_run:
  assumes "rx w = Seg bs # items" and "bs \<noteq> []" and "length bs \<le> 9999"
  shows "wsd_serve os ep fd sa w = wsd_handle os ep fd sa bs (got_segment os fd w bs items)"
  using assms
  by (simp add: wsd_serve_def sys_setsockopt_def sys_recv_def exec_simps got_segment_def Let_def)

lemma post_prefix: "strncmp_eq s ''POST '' 5 = prefix ''POST '' s"
  using take_prefix_iff [of "''POST ''" s] by (simp add: strncmp_eq_def eval_nat_numeral)

lemma recv_no_line_end:
  assumes tcp: "type ep = SOCK_STREAM"
    and acc: "os_accept os (calls w) (sock ep) = Inr (c, sa, Seg bs # items)"
    and bs: "prefix ''POST '' (map chr bs)" "strstr (map chr bs) CRLF = None" "NUL \<notin> set (map chr bs)"
      "length bs \<le> 9999"
  shows "wsd_recv os ep w = Inl NullDeref"
proof -
  have "bs \<noteq> []" using bs(1) by auto
  let ?w = "accepted_world w (sock ep) c (Seg bs # items)"
  have "wsd_recv os ep w = wsd_serve os ep c sa ?w"
    by (rule wsd_recv_accepted [OF tcp acc])
  moreover have "rx ?w = Seg bs # items" by (simp add: accepted_world_def)
  moreover have "wsd_handle os ep c sa bs v = Inl NullDeref" for v
    using tcp bs(1)
    by (simp add: handle_run upto_NUL_id [OF bs(3) [folded cstring_def]] post_prefix rx_buffer_def bind_run
        http_no_line_end_crash [OF bs(2,3)] del: set_map)
  ultimately show ?thesis
    using serve_run [OF _ \<open>bs \<noteq> []\<close> bs(4)] by simp
qed

text \<open>
  C17. One TCP segment that begins with \<^verbatim>\<open>POST\<close> and a blank and has no line end crashes the daemon
  through a null pointer, whatever the state and whoever sends it.
\<close>

theorem wsd_recv_no_line_end_crash:
  assumes "type ep = SOCK_STREAM"
    and "os_accept os (calls w) (sock ep) = Inr (c, sa, Seg bs # items)"
    and "prefix ''POST '' (map chr bs)" "strstr (map chr bs) CRLF = None" "NUL \<notin> set (map chr bs)"
      "length bs \<le> 9999"
  shows "wsd_recv os ep w = Inl NullDeref"
  using assms by (rule recv_no_line_end)

definition tcp_ep :: endpoint where
  "tcp_ep = udp_ep\<lparr>type := SOCK_STREAM, port := 3702\<rparr>"

definition short_post :: "byte list" where
  "short_post = map ord ''POST / HTTP/1.1''"

definition crash_os :: os where
  "crash_os = lan_os\<lparr>os_accept := (\<lambda>n fd. Inr (9, peer, [Seg short_post]))\<rparr>"

lemma crash_os_facts:
  "type tcp_ep = SOCK_STREAM"
  "os_accept crash_os (calls zero_world) (sock tcp_ep) = Inr (9, peer, [Seg short_post])"
  "prefix ''POST '' (map chr short_post)" "strstr (map chr short_post) CRLF = None"
  "NUL \<notin> set (map chr short_post)" "length short_post \<le> 9999"
  by (simp_all add: tcp_ep_def crash_os_def short_post_def)

theorem wsd_recv_no_line_end_crash_witness: "wsd_recv crash_os tcp_ep zero_world = Inl NullDeref"
  by (rule wsd_recv_no_line_end_crash [OF crash_os_facts])

lemma ifs_ok_crash: "ifs_ok crash_os"
  by (simp add: ifs_ok_def crash_os_def lan_os_def wf_ifaddrs_def eth0_def wf_saddr_def addr_size_def)


theorem wsd_recv_descriptors_witness:
  "\<exists>r t. wsd_recv lan_os tcp_ep zero_world = Inr (r, t) \<and> trace t = [Ev_accept 7 (- 1)]"
proof -
  have run: "\<exists>t. wsd_recv lan_os tcp_ep zero_world = Inr (- 1, t)"
    by (simp add: wsd_recv_def sys_accept_def failing_def exec_simps tcp_ep_def lan_os_def quiet_os_def)
  then obtain t where t: "wsd_recv lan_os tcp_ep zero_world = Inr (- 1, t)" ..
  have "trace t = [Ev_accept 7 (- 1)]"
    using wsd_recv_descriptors [OF t] t
    by (auto simp: tcp_ep_def udp_ep_def zero_world_def lan_os_def quiet_os_def wsd_recv_def
        sys_accept_def failing_def exec_simps)
  with t show ?thesis by blast
qed

end
