(* ===== verification/Wsd_Answers.thy ===== *)
theory Wsd_Answers
  imports Wsd_Recv
begin

text \<open>
  Whole exchanges of the WSD component: a Probe, Resolve or Get that arrives at \<open>wsd_recv\<close> and the
  bytes that leave; the identity \<open>wsd_init\<close> gives the device and that no later start changes it.
\<close>

section \<open>Requests\<close>

text \<open>
  A request with action \<open>a\<close> and message identifier \<open>m\<close>: each stands, but for blanks, between the
  first pair of its tags.
\<close>

definition field_at :: "string \<Rightarrow> string \<Rightarrow> string \<Rightarrow> string \<Rightarrow> bool" where
  "field_at xml start stop v \<longleftrightarrow> plain_text v \<and>
     (\<exists>pre ws1 ws2 post. xml = pre @ start @ ws1 @ v @ ws2 @ stop @ post \<and>
        strstr xml start = Some (length pre) \<and> blanks ws1 \<and> blanks ws2)"

definition soap_request :: "string \<Rightarrow> string \<Rightarrow> string \<Rightarrow> bool" where
  "soap_request xml a m \<longleftrightarrow> field_at xml ''<wsa:Action>'' ''</wsa:Action>'' a \<and>
     field_at xml ''<wsa:MessageID>'' ''</wsa:MessageID>'' m"

lemma field_atE:
  assumes "field_at xml start stop v"
  obtains pre ws1 ws2 post where "plain_text v" "xml = pre @ start @ ws1 @ v @ ws2 @ stop @ post"
    "strstr xml start = Some (length pre)" "blanks ws1" "blanks ws2"
  using assms unfolding field_at_def by blast

lemma soap_request_parse:
  assumes "mem_ok os" and "soap_request xml a m"
  shows "wsd_req_parse os xml w =
    Inr (Some \<lparr>action = Some a, msgid = Some m\<rparr>, w\<lparr>calls := calls w + 3\<rparr>)"
proof -
  from assms(2) have act: "field_at xml ''<wsa:Action>'' ''</wsa:Action>'' a"
    and mid: "field_at xml ''<wsa:MessageID>'' ''</wsa:MessageID>'' m"
    unfolding soap_request_def by blast+
  from act show ?thesis
  proof (rule field_atE)
    fix pre ws1 ws2 post
    assume a: "plain_text a" "xml = pre @ ''<wsa:Action>'' @ ws1 @ a @ ws2 @ ''</wsa:Action>'' @ post"
      "strstr xml ''<wsa:Action>'' = Some (length pre)" "blanks ws1" "blanks ws2"
    from mid show ?thesis
    proof (rule field_atE)
      fix pre' ws3 ws4 post'
      assume m: "plain_text m"
        "xml = pre' @ ''<wsa:MessageID>'' @ ws3 @ m @ ws4 @ ''</wsa:MessageID>'' @ post'"
        "strstr xml ''<wsa:MessageID>'' = Some (length pre')" "blanks ws3" "blanks ws4"
      show ?thesis
        by (rule wsd_req_parse_found [OF assms(1) a(2,3,4,5,1) m(2,3,4,5,1)])
    qed
  qed
qed

section \<open>The answer to a request\<close>

text \<open>The address in text, and the address of ours that a peer reaches us under.\<close>

definition ntop :: "int \<Rightarrow> byte list \<Rightarrow> string" where
  "ntop fam bs = (if fam = AF_INET then ntop4 bs else ntop6 bs)"

text \<open>Peer \<open>sa\<close> is on the link of interface \<open>ifa\<close> when the interfaces are listed at call \<open>k\<close>.\<close>

definition linked :: "os \<Rightarrow> nat \<Rightarrow> saddr \<Rightarrow> ifaddrs \<Rightarrow> bool" where
  "linked os k sa ifa \<longleftrightarrow> wf_saddr sa \<and>
     (\<exists>ifas. os_getifaddrs os k = Inr ifas \<and> (\<forall>i\<in>set ifas. wf_ifaddrs i) \<and>
        find (on_link sa) ifas = Some ifa)"

lemma linked_run:
  assumes "linked os (calls w) sa ifa"
  shows "connected_if os sa w = Inr ((0, \<lparr>ss_family = ss_family sa, sin_port = 0,
    sin_addr = if_bytes ifa\<rparr>), w\<lparr>calls := Suc (calls w), errno := EADDRNOTAVAIL\<rparr>)"
  using assms connected_if_run [of sa os w] by (auto simp: linked_def)

lemma linked_family: "linked os k sa ifa \<Longrightarrow> ss_family sa = AF_INET \<or> ss_family sa = AF_INET6"
  by (auto simp: linked_def dest!: find_on_link(2) simp: on_link_def split: option.splits)

lemma recv_action_run:
  assumes "linked os (calls w) sa ifa"
  shows "wsd_recv_action os f fd ep sa info w =
    f fd ep sa info (ntop (ss_family sa) (if_bytes ifa))
      (w\<lparr>calls := Suc (calls w), errno := EADDRNOTAVAIL\<rparr>)"
  using linked_family [OF assms]
  by (auto simp: wsd_recv_action_def bind_run linked_run [OF assms] inet_ntop_def ntop_def exec_simps)

lemma reply_run:
  assumes "mem_ok os" and "cstr buf 0 = Some xml" and "soap_request xml a m" and "\<not> 200 < status"
  shows "wsd_reply os ep fd sa status buf w =
    bind (wsd_dispatch os fd ep sa (Some \<lparr>action = Some a, msgid = Some m\<rparr>)) (\<lambda>_.
      bind (if sock ep \<noteq> fd then sys_close fd else ret ()) (\<lambda>_. ret 0)) (w\<lparr>calls := calls w + 3\<rparr>)"
  using assms(4)
  by (simp add: wsd_reply_def cstr_at_def assms(2) soap_request_parse [OF assms(1,3)] bind_run ret_run)

lemma one_message_calls [simp]:
  "one_message H mk to act rel body (w\<lparr>calls := n\<rparr>) = one_message H mk to act rel body w"
  "one_message H mk to act rel body (w\<lparr>calls := n, errno := e\<rparr>) = one_message H mk to act rel body w"
  by (rule one_message_cong; simp)+

lemma handle_post:
  assumes "mem_ok os" and "type ep = SOCK_STREAM"
    and "strncmp_eq (upto_NUL (map chr dat)) ''POST '' 5"
    and parse: "wsd_parse_http_header os fd ep (rx_buffer os w dat) (length dat) 10000
        (w\<lparr>calls := Suc (calls w)\<rparr>) = Inr ((200, buf), u)"
    and "cstr buf 0 = Some xml" and "soap_request xml a m"
  shows "wsd_handle os ep fd sa dat w =
    bind (wsd_dispatch os fd ep sa (Some \<lparr>action = Some a, msgid = Some m\<rparr>)) (\<lambda>_.
      bind (if sock ep \<noteq> fd then sys_close fd else ret ()) (\<lambda>_. ret 0)) (u\<lparr>calls := calls u + 3\<rparr>)"
  using assms(2,3)
  by (simp add: handle_run bind_run [of "wsd_parse_http_header os fd ep buf n k" for buf n k] parse
      reply_run [OF assms(1,5,6)] del: set_map)

lemma cstr_rx_buffer: "NUL \<notin> set xml \<Longrightarrow> cstr (rx_buffer os w (map ord xml)) 0 = Some xml"
  unfolding rx_buffer_def received_def map_chr_ord
  using cstr_terminated [of xml "[]" 0] by (simp add: cstring_def)

text \<open>What a Probe or Resolve is answered with.\<close>

definition match_answer :: "string \<Rightarrow> (string \<times> (string \<Rightarrow> string \<Rightarrow> nat \<Rightarrow> string)) option" where
  "match_answer a =
     (if a = WSD_ACT_PROBE then Some (WSD_ACT_PROBEMATCH, probe_match_text)
      else if a = WSD_ACT_RESOLVE then Some (WSD_ACT_RESOLVEMATCH, resolve_match_text)
      else None)"

lemma match_dispatch_run:
  assumes "mem_ok os" "sends_ok os" and link: "linked os (calls w) sa ifa"
    and uri: "uri_of os (calls w + 1) (ntop (ss_family sa) (if_bytes ifa)) = Some uri"
    and ans: "match_answer a = Some (act, text)"
  shows "runs (wsd_dispatch os fd ep sa (Some \<lparr>action = Some a, msgid = Some m\<rparr>)) w (\<lambda>r t.
    one_message no_header (sent fd ep sa) WSD_TO_ANONYMOUS act (Some m)
      (text (wsd_endpoint w) uri (unat (port ep))) w t)"
proof -
  let ?v = "w\<lparr>calls := Suc (calls w), errno := EADDRNOTAVAIL\<rparr>"
  have uri': "uri_of os (calls ?v) (ntop (ss_family sa) (if_bytes ifa)) = Some uri"
    using uri by simp
  consider "a = WSD_ACT_PROBE" "act = WSD_ACT_PROBEMATCH" "text = probe_match_text"
    | "a = WSD_ACT_RESOLVE" "act = WSD_ACT_RESOLVEMATCH" "text = resolve_match_text"
    using ans by (auto simp: match_answer_def split: if_splits)
  then show ?thesis
  proof cases
    case 1
    have "runs (wsd_send_probe_match os fd ep sa \<lparr>action = Some a, msgid = Some m\<rparr>
        (ntop (ss_family sa) (if_bytes ifa))) ?v (\<lambda>r t. one_message no_header (sent fd ep sa)
          WSD_TO_ANONYMOUS act (Some m) (text (wsd_endpoint w) uri (unat (port ep))) w t)"
      by (rule runs_mono [OF wsd_send_probe_match_run [OF assms(1,2) uri']]) (simp add: 1)
    then show ?thesis
      by (simp add: wsd_dispatch_def 1(1) wsd_action_id_names runs_def recv_action_run [OF link])
  next
    case 2
    have "runs (wsd_send_resolve_match os fd ep sa \<lparr>action = Some a, msgid = Some m\<rparr>
        (ntop (ss_family sa) (if_bytes ifa))) ?v (\<lambda>r t. one_message no_header (sent fd ep sa)
          WSD_TO_ANONYMOUS act (Some m) (text (wsd_endpoint w) uri (unat (port ep))) w t)"
      by (rule runs_mono [OF wsd_send_resolve_match_run [OF assms(1,2) uri']]) (simp add: 2)
    then show ?thesis
      by (simp add: wsd_dispatch_def 2(1) wsd_action_id_names runs_def recv_action_run [OF link])
  qed
qed

text \<open>
  C2. A Probe or Resolve that arrives in a datagram from a host on one of our links is answered with
  exactly one datagram, to its sender and nowhere else: the match message, which repeats the
  identifier of the request and names this device's endpoint, the port and, as \<open>ip2uri\<close> gives it, our
  address on that link when that is an IPv4 address, and our host name when it is an IPv6 address.
\<close>

theorem wsd_recv_answers_udp:
  assumes "mem_ok os" "sends_ok os" and udp: "type ep \<noteq> SOCK_STREAM"
    and rx: "os_recvfrom os (calls w) (sock ep) = Inr (map ord xml, sa)"
    and xml: "length xml \<le> 9999" "NUL \<notin> set xml" "soap_request xml a m"
    and ans: "match_answer a = Some (act, text)"
    and link: "linked os (calls w + 5) sa ifa"
    and uri: "uri_of os (calls w + 6) (ntop (ss_family sa) (if_bytes ifa)) = Some uri"
  shows "runs (wsd_recv os ep) w (\<lambda>r t. r = 0 \<and> msg_no t = msg_no w + 1 \<and>
    (\<exists>mid. is_uuid mid \<and> trace t = trace w @ [Ev_recv (sock ep) (int (length xml)),
       Ev_sendto (sock ep) (map ord (envelope w WSD_TO_ANONYMOUS act (Some m)
         (text (wsd_endpoint w) uri (unat (port ep))) mid)) sa]))"
proof -
  let ?d = "map ord xml"
  let ?v = "w\<lparr>calls := Suc (calls w), trace := trace w @ [Ev_recv (sock ep) (int (length xml))]\<rparr>"
  let ?v5 = "?v\<lparr>calls := calls w + 5\<rparr>"
  let ?buf = "rx_buffer os ?v ?d"
  have ne: "?d \<noteq> []" using xml(3) by (auto simp: soap_request_def field_at_def)
  have recv: "wsd_recv os ep w = wsd_handle os ep (sock ep) sa ?d ?v"
    using udp ne xml(1) by (simp add: wsd_recv_def bind_run sys_recvfrom_run [OF rx])
  have buf: "cstr ?buf 0 = Some xml"
    by (rule cstr_rx_buffer [OF xml(2)])
  have handle: "wsd_handle os ep (sock ep) sa ?d ?v =
      bind (wsd_dispatch os (sock ep) ep sa (Some \<lparr>action = Some a, msgid = Some m\<rparr>))
        (\<lambda>_. ret 0) ?v5"
    using udp
    by (simp add: handle_run reply_run [OF assms(1) buf xml(3)] numeral_eq_Suc del: set_map)
  have "runs (wsd_dispatch os (sock ep) ep sa (Some \<lparr>action = Some a, msgid = Some m\<rparr>)) ?v5
      (\<lambda>r t. one_message no_header (sent (sock ep) ep sa) WSD_TO_ANONYMOUS act (Some m)
        (text (wsd_endpoint ?v5) uri (unat (port ep))) ?v5 t)"
    using link uri by (intro match_dispatch_run [OF assms(1,2) _ _ ans]) (simp_all add: add.commute)
  then have "runs (wsd_handle os ep (sock ep) sa ?d) ?v (\<lambda>r t. r = 0 \<and>
      one_message no_header (sent (sock ep) ep sa) WSD_TO_ANONYMOUS act (Some m)
        (text (wsd_endpoint ?v5) uri (unat (port ep))) ?v5 t)"
    unfolding runs_def handle
    by (auto simp: bind_run ret_run split: sum.splits)
  then show ?thesis
    unfolding runs_def recv
    using udp by (auto simp: one_message_def no_header_def sent_def envelope_def split: sum.splits)
qed

lemma http_request_post: "prefix ''POST '' (http_request uuid version ls body)"
  by (simp add: http_request_def request_line_def)

text \<open>What carrying out a Get puts on a connection.\<close>

definition get_answered :: "int \<Rightarrow> string \<Rightarrow> world \<Rightarrow> event list \<Rightarrow> bool" where
  "get_answered c m w es \<longleftrightarrow> (\<exists>mid us date. is_uuid mid \<and> us < 50000 \<and>
     (let msg = envelope w WSD_TO_ANONYMOUS WXT_ACT_GETRESPONSE (Some m) (metadata_body w) mid in
      es = [Ev_usleep us, Ev_send c (map ord (resp_hdr_text ''200 OK'' date (length msg))),
        Ev_send c (map ord msg)]))"

lemma get_dispatch_run:
  assumes "mem_ok os" "sends_ok os" and tcp: "type ep = SOCK_STREAM"
    and link: "linked os (calls w) sa ifa"
  shows "\<exists>t es. wsd_dispatch os c ep sa (Some \<lparr>action = Some WXT_ACT_GET, msgid = Some m\<rparr>) w = Inr (0, t) \<and>
    msg_no t = msg_no w + 1 \<and> trace t = trace w @ es \<and> get_answered c m w es"
proof -
  let ?info = "\<lparr>action = Some WXT_ACT_GET, msgid = Some m\<rparr>"
  let ?v = "w\<lparr>calls := Suc (calls w), errno := EADDRNOTAVAIL\<rparr>"
  let ?msg = "envelope w WSD_TO_ANONYMOUS WXT_ACT_GETRESPONSE (Some m) (metadata_body w)"
  have same: "envelope ?v to act rel body mid = envelope w to act rel body mid"
    "metadata_body ?v = metadata_body w" for to act rel body mid
    by (simp_all add: envelope_def metadata_body_def)
  obtain t where get: "wsd_send_get_response os c ep sa ?info (ntop (ss_family sa) (if_bytes ifa))
      ?v = Inr (0, t)" and msg: "one_message (http_header c ep sa 200) (sent c ep sa)
        WSD_TO_ANONYMOUS WXT_ACT_GETRESPONSE (Some m) (metadata_body w) ?v t"
    using wsd_send_get_response_run [OF assms(1,2), of c ep sa ?info _ ?v]
    unfolding same wsd_req_info.simps by (blast elim: runsE)
  from msg obtain mid es where mid: "is_uuid mid" and no: "msg_no t = msg_no ?v + 1"
    and es: "http_header c ep sa 200 (length (?msg mid)) es"
      "trace t = trace ?v @ es @ [sent c ep sa (?msg mid)]"
    unfolding one_message_def same by blast
  from es(1) tcp obtain us date where us: "us < 50000" "es = [Ev_usleep us,
      Ev_send c (map ord (resp_hdr_text ''200 OK'' date (length (?msg mid))))]"
    by (auto simp: http_header_def sent_def status_str_def)
  have "wsd_dispatch os c ep sa (Some ?info) w = Inr (0, t)"
    using get by (simp add: wsd_dispatch_def wsd_action_id_names recv_action_run [OF link])
  moreover have "get_answered c m w (es @ [Ev_send c (map ord (?msg mid))])"
    using mid us by (auto simp: get_answered_def Let_def)
  ultimately show ?thesis
    using no es(2) tcp by (auto simp: sent_def)
qed

lemma get_handle_run:
  assumes "mem_ok os" "sends_ok os" and tcp: "type ep = SOCK_STREAM" and "c \<noteq> sock ep"
    and req: "req = http_request (wsd_endpoint w) version ls xml" "length req \<le> 9999"
    and ready: "http_ready w version ls" "read_lines ls 0 = Inr (length xml)" "NUL \<notin> set req"
    and xml: "soap_request xml WXT_ACT_GET m"
    and link: "linked os (calls w + 4) sa ifa"
  shows "\<exists>t es. wsd_handle os ep c sa (map ord req) w = Inr (0, t) \<and> msg_no t = msg_no w + 1 \<and>
    trace t = trace w @ es @ [Ev_close c] \<and> get_answered c m w es"
proof -
  let ?d = "map ord req"
  let ?v = "w\<lparr>calls := Suc (calls w)\<rparr>"
  let ?u = "(with_endpointlen ?v)\<lparr>calls := calls w + 4\<rparr>"
  have xml_ne: "xml \<noteq> []" using xml by (auto simp: soap_request_def field_at_def)
  have post: "strncmp_eq (upto_NUL (map chr ?d)) ''POST '' 5"
    using ready(3) http_request_post req(1)
    by (simp add: post_prefix upto_NUL_id cstring_def del: map_map)
  have buf: "rx_buffer os w ?d = received (http_request (wsd_endpoint ?v) version ls xml)
      (map (\<lambda>i. chr (os_stack os (calls w) i)) [length ?d + 1..<10000])"
    by (simp add: rx_buffer_def req(1) del: map_map)
  have len: "length (rx_buffer os w ?d) = 10000"
    using req(2) by (simp add: rx_buffer_def received_def)
  have rdy: "http_ready ?v version ls"
    using ready(1) by (simp add: http_ready_def)
  have "NUL \<notin> set xml" using ready(3) by (simp add: req(1) http_request_def)
  from post_accepted_run [OF rdy ready(2) this xml_ne buf len, of os c ep]
  obtain buf' where parse: "wsd_parse_http_header os c ep (rx_buffer os w ?d) (length ?d) 10000 ?v =
      Inr ((200, buf'), with_endpointlen ?v)" and body: "cstr buf' 0 = Some xml"
    by (auto simp: req(1))
  have handle: "wsd_handle os ep c sa ?d w =
      bind (wsd_dispatch os c ep sa (Some \<lparr>action = Some WXT_ACT_GET, msgid = Some m\<rparr>))
        (\<lambda>_. bind (sys_close c) (\<lambda>_. ret 0)) ?u"
    using handle_post [OF assms(1) tcp post parse body xml, of sa] \<open>c \<noteq> sock ep\<close>
    by (simp add: add.commute)
  have "linked os (calls ?u) sa ifa" using link by simp
  from get_dispatch_run [OF assms(1,2) tcp this, of c m] obtain t es where
    "wsd_dispatch os c ep sa (Some \<lparr>action = Some WXT_ACT_GET, msgid = Some m\<rparr>) ?u = Inr (0, t)"
    "msg_no t = msg_no w + 1" "trace t = trace w @ es" "get_answered c m ?u es" by auto
  moreover have "get_answered c m ?u es = get_answered c m w es" for es
    by (simp add: get_answered_def envelope_def metadata_body_def)
  ultimately show ?thesis
    unfolding handle by (auto simp: bind_run sys_close_def emit_run ret_run)
qed

text \<open>
  C3. A Get in a POST for this device's endpoint, whole in the first segment of a connection from a
  host on one of our links, is answered on that connection with the HTTP header and the metadata
  message whose length the header states; then the connection is closed.
\<close>

theorem wsd_recv_answers_get:
  assumes "mem_ok os" "sends_ok os" and tcp: "type ep = SOCK_STREAM"
    and acc: "os_accept os (calls w) (sock ep) = Inr (c, sa, Seg (map ord req) # items)" and "c \<noteq> sock ep"
    and req: "req = http_request (wsd_endpoint w) version ls xml" "length req \<le> 9999"
    and ready: "http_ready w version ls" "read_lines ls 0 = Inr (length xml)" "NUL \<notin> set req"
    and xml: "soap_request xml WXT_ACT_GET m"
    and link: "linked os (calls w + 6) sa ifa"
  shows "runs (wsd_recv os ep) w (\<lambda>r t. r = 0 \<and> msg_no t = msg_no w + 1 \<and>
    (\<exists>opt es. trace t = trace w @ [Ev_accept (sock ep) c, Ev_setsockopt c ''SO_RCVTIMEO'' opt,
        Ev_recv c (int (length req))] @ es @ [Ev_close c] \<and> get_answered c m w es))"
proof -
  let ?d = "map ord req"
  let ?a = "accepted_world w (sock ep) c (Seg ?d # items)"
  let ?v = "got_segment os c ?a ?d items"
  have ne: "?d \<noteq> []" using http_request_post [of "wsd_endpoint w" version ls xml] req(1) by auto
  have serve: "wsd_recv os ep w = wsd_handle os ep c sa ?d ?v"
    unfolding wsd_recv_accepted [OF tcp acc]
    by (rule serve_run) (use ne req(2) in \<open>simp_all add: accepted_world_def\<close>)
  have fields: "wsd_endpoint ?v = wsd_endpoint w" "calls ?v + 4 = calls w + 6"
    "http_ready ?v version ls = http_ready w version ls" "msg_no ?v = msg_no w"
    "get_answered c m ?v es = get_answered c m w es" for es
    by (simp_all add: accepted_world_def http_ready_def get_answered_def envelope_def metadata_body_def)
  have "\<exists>t es. wsd_handle os ep c sa ?d ?v = Inr (0, t) \<and> msg_no t = msg_no ?v + 1 \<and>
      trace t = trace ?v @ es @ [Ev_close c] \<and> get_answered c m ?v es"
  proof (rule get_handle_run [OF assms(1,2) tcp assms(5) _ req(2) _ ready(2,3) xml])
    show "req = http_request (wsd_endpoint ?v) version ls xml" unfolding fields(1) by (rule req(1))
    show "http_ready ?v version ls" unfolding fields(3) by (rule ready(1))
    show "linked os (calls ?v + 4) sa ifa" unfolding fields(2) by (rule link)
  qed
  then show ?thesis
    unfolding runs_def serve fields by (auto simp: accepted_world_def)
qed

section \<open>Examples\<close>

definition small_request :: "string \<Rightarrow> string \<Rightarrow> string" where
  "small_request a m = ''<wsa:Action>'' @ a @ ''</wsa:Action>'' @ ''<wsa:MessageID>'' @ m @ ''</wsa:MessageID>''"

lemma small_request_ok:
  assumes "plain_text a" and "plain_text m"
  shows "soap_request (small_request a m) a m"
  unfolding soap_request_def field_at_def
proof (intro conjI exI assms)
  let ?xml = "small_request a m"
  have a: "CHR ''<'' \<notin> set a" using assms(1) by (simp add: plain_text_def)
  show "?xml = [] @ ''<wsa:Action>'' @ [] @ a @ [] @ ''</wsa:Action>'' @ (''<wsa:MessageID>'' @ m @
      ''</wsa:MessageID>'')"
    unfolding small_request_def by (simp only: append_Nil)
  show "?xml = (''<wsa:Action>'' @ a @ ''</wsa:Action>'') @ ''<wsa:MessageID>'' @ [] @ m @ [] @
      ''</wsa:MessageID>'' @ []"
    unfolding small_request_def by (simp only: append_Nil append_Nil2 append_assoc)
  show "strstr ?xml ''<wsa:Action>'' = Some (length [])"
    unfolding small_request_def strstr_here by simp
  show "strstr ?xml ''<wsa:MessageID>'' = Some (length (''<wsa:Action>'' @ a @ ''</wsa:Action>''))"
    unfolding small_request_def strstr_apart [OF apart_tags(5)] strstr_plain [OF a]
      strstr_apart [OF apart_tags(6)] strstr_here by simp
  show "blanks []" "blanks []" "blanks []" "blanks []" by (simp_all add: blanks_def)
qed

lemma plain_m: "plain_text ''m''"
  by (simp add: plain_text_def isspace_def)

lemma eth0_linked:
  assumes "os_getifaddrs os k = Inr [eth0]"
  shows "linked os k peer eth0"
  using assms
  by (simp add: linked_def wf_saddr_def peer_def addr_size_def wf_ifaddrs_def eth0_def on_link_def
      masked_def)

lemma eth0_uri: "uri_of os k (ntop (ss_family peer) (if_bytes eth0)) = Some ''192.168.1.10''"
proof -
  have "ntop4 [192, 168, 1, 10] = ''192.168.1.10''" by code_simp
  then show ?thesis by (simp add: ntop_def peer_def if_bytes_def eth0_def uri_of_def)
qed

definition probe_os :: os where
  "probe_os = lan_os\<lparr>os_recvfrom := (\<lambda>n fd. Inr (map ord (small_request WSD_ACT_PROBE ''m''), peer))\<rparr>"

theorem wsd_recv_answers_udp_witness:
  "runs (wsd_recv probe_os udp_ep) zero_world (\<lambda>r t. r = 0 \<and> msg_no t = 1 \<and> length (trace t) = 2)"
proof (rule runs_mono [OF wsd_recv_answers_udp])
  show "mem_ok probe_os" "sends_ok probe_os"
    by (simp_all add: probe_os_def lan_os_def quiet_os_def mem_ok_def sends_ok_def)
  show "type udp_ep \<noteq> SOCK_STREAM" by (simp add: udp_ep_def)
  show "os_recvfrom probe_os (calls zero_world) (sock udp_ep) =
      Inr (map ord (small_request WSD_ACT_PROBE ''m''), peer)"
    by (simp add: probe_os_def)
  show "length (small_request WSD_ACT_PROBE ''m'') \<le> 9999" "NUL \<notin> set (small_request WSD_ACT_PROBE ''m'')"
    by (simp_all add: small_request_def WSD_ACT_PROBE_def)
  show "soap_request (small_request WSD_ACT_PROBE ''m'') WSD_ACT_PROBE ''m''"
    by (rule small_request_ok [OF action_names_plain(6) plain_m])
  show "match_answer WSD_ACT_PROBE = Some (WSD_ACT_PROBEMATCH, probe_match_text)"
    by (simp add: match_answer_def)
  show "linked probe_os (calls zero_world + 5) peer eth0"
    by (rule eth0_linked) (simp add: probe_os_def lan_os_def)
  show "uri_of probe_os (calls zero_world + 6) (ntop (ss_family peer) (if_bytes eth0)) =
      Some ''192.168.1.10''"
    by (rule eth0_uri)
qed (auto simp: zero_world_def)

definition get_world :: world where
  "get_world = zero_world\<lparr>wsd_endpoint := ''4f''\<rparr>"

definition get_xml :: string where
  "get_xml = small_request WXT_ACT_GET ''m''"

definition get_request :: string where
  "get_request = http_request ''4f'' ''1.1'' [''Content-Length: 107''] get_xml"

definition get_os :: os where
  "get_os = lan_os\<lparr>os_accept := (\<lambda>n fd. Inr (9, peer, [Seg (map ord get_request)]))\<rparr>"

lemma get_xml_length: "length get_xml = 107"
  by (simp add: get_xml_def small_request_def WXT_ACT_GET_def)

theorem wsd_recv_answers_get_witness:
  "runs (wsd_recv get_os tcp_ep) get_world (\<lambda>r t. r = 0 \<and> msg_no t = 1 \<and> last (trace t) = Ev_close 9)"
proof (rule runs_mono [OF wsd_recv_answers_get])
  show "mem_ok get_os" "sends_ok get_os"
    by (simp_all add: get_os_def lan_os_def quiet_os_def mem_ok_def sends_ok_def)
  show "type tcp_ep = SOCK_STREAM" "9 \<noteq> sock tcp_ep" by (simp_all add: tcp_ep_def udp_ep_def)
  show "os_accept get_os (calls get_world) (sock tcp_ep) = Inr (9, peer, [Seg (map ord get_request)])"
    by (simp add: get_os_def)
  show "get_request = http_request (wsd_endpoint get_world) ''1.1'' [''Content-Length: 107''] get_xml"
    by (simp add: get_request_def get_world_def)
  show "length get_request \<le> 9999"
    by (simp add: get_request_def http_request_def request_line_def enc_lines_def get_xml_length)
  show "http_ready get_world ''1.1'' [''Content-Length: 107'']"
    by (simp add: http_ready_def get_world_def zero_world_def request_line_def line_ok_def)
  show "read_lines [''Content-Length: 107''] 0 = Inr (length get_xml)"
    using header_line_length [of "''107''" 0]
    by (simp add: get_xml_length atoi_def isspace_def isdigit_def clamp32_def size32_def)
  show "NUL \<notin> set get_request"
    by (simp add: get_request_def http_request_def request_line_def enc_lines_def get_xml_def
        small_request_def WXT_ACT_GET_def)
  show "soap_request get_xml WXT_ACT_GET ''m''"
    unfolding get_xml_def by (rule small_request_ok [OF action_names_plain(8) plain_m])
  show "linked get_os (calls get_world + 6) peer eth0"
    by (rule eth0_linked) (simp add: get_os_def lan_os_def)
qed (auto simp: get_world_def zero_world_def)

end
