(* ===== verification/Netlink.thy ===== *)
theory Netlink
  imports World
begin

text \<open>
  The address watch of wsdd2.c: \<open>netlink_recv\<close> reads the messages of the kernel's routing socket and
  restarts the service when an address was added or removed. The macros of \<open>linux/netlink.h\<close> and
  \<open>linux/rtnetlink.h\<close> the code walks the buffer with are written out, with the 32-bit unsigned
  arithmetic of \<open>size_t\<close>; every access to the buffer of 4096 bytes is checked.
\<close>

section \<open>Leaving a handler\<close>

text \<open>
  A receive handler returns a number, or leaves through \<open>longjmp\<close> to the place in \<open>main\<close> that closes
  the endpoints.
\<close>

datatype outcome = Return int | Jump

definition restart_service :: "outcome M" where
  "restart_service = bind (modify (\<lambda>w. w\<lparr>restart := 1\<rparr>)) (\<lambda>_. ret Jump)"

section \<open>Reading the buffer\<close>

fun le16 :: "byte list \<Rightarrow> fault + nat" where
  "le16 (a # b # _) = Inr (unat a + 256 * unat b)"
| "le16 _ = Inl OobRead"

fun le32 :: "byte list \<Rightarrow> fault + nat" where
  "le32 (a # b # c # d # _) =
     Inr (unat a + 256 * (unat b + 256 * (unat c + 256 * unat d)))"
| "le32 _ = Inl OobRead"

definition align4 :: "nat \<Rightarrow> nat" where
  "align4 n = (n + 3) div 4 * 4"

definition RTM_NEWADDR :: nat where [simp]: "RTM_NEWADDR = 20"
definition RTM_DELADDR :: nat where [simp]: "RTM_DELADDR = 21"
definition NLMSG_DONE :: nat where [simp]: "NLMSG_DONE = 3"
definition IFA_CACHEINFO :: nat where [simp]: "IFA_CACHEINFO = 6"

section \<open>The attributes of an address message\<close>

text \<open>
  The loop of \<open>is_new_addr\<close>: \<open>p\<close> is \<open>rta\<close>, and \<open>rtasize\<close> what is left of the message, modulo
  \<open>2 ^ 32\<close>: nothing keeps it from wrapping when the last attribute is padded beyond the message.
\<close>

function rta_loop :: "byte list \<Rightarrow> nat \<Rightarrow> nat \<Rightarrow> fault + bool" where
  "rta_loop buf p rtasize =
     (if rtasize < 4 then Inr True else
      case le16 (drop p buf) of Inl f \<Rightarrow> Inl f | Inr rta_len \<Rightarrow>
      if rta_len < 4 \<or> rtasize < rta_len then Inr True else
      case le16 (drop (p + 2) buf) of Inl f \<Rightarrow> Inl f | Inr rta_type \<Rightarrow>
      case (if rta_type = IFA_CACHEINFO then
              (case le32 (drop (p + 4 + 8) buf) of Inl f \<Rightarrow> Inl f | Inr cstamp \<Rightarrow>
               case le32 (drop (p + 4 + 12) buf) of Inl f \<Rightarrow> Inl f | Inr tstamp \<Rightarrow>
               Inr (cstamp = tstamp))
            else Inr True) of
        Inl f \<Rightarrow> Inl f
      | Inr same \<Rightarrow>
          if \<not> same then Inr False
          else rta_loop buf (p + align4 rta_len) (nat ((int rtasize - int (align4 rta_len)) mod 2 ^ 32)))"
  by pat_completeness auto
termination
proof (relation "measure (\<lambda>(buf, p, n). length buf - p)"; clarsimp)
  fix buf :: "byte list" and p rta_len rtasize rta_type :: nat and b :: "fault + bool"
  assume "le16 (drop p buf) = Inr rta_len" and "\<not> rta_len < 4"
  moreover from this(1) have "p < length buf"
    by (cases "p < length buf") simp_all
  moreover have "4 \<le> rta_len \<Longrightarrow> 0 < align4 rta_len" by (simp add: align4_def)
  ultimately show "length buf - (p + align4 rta_len) < length buf - p" by linarith
qed

declare rta_loop.simps [simp del]

definition is_new_addr :: "byte list \<Rightarrow> nat \<Rightarrow> fault + bool" where
  "is_new_addr buf nh =
     (case le32 (drop nh buf) of Inl f \<Rightarrow> Inl f | Inr nlmsg_len \<Rightarrow>
      case le16 (drop (nh + 4) buf) of Inl f \<Rightarrow> Inl f | Inr nlmsg_type \<Rightarrow>
      if nlmsg_type \<noteq> RTM_NEWADDR then Inr False
      else rta_loop buf (nh + 16 + 8) (nat ((int nlmsg_len - 24) mod 2 ^ 32)))"

section \<open>The messages\<close>

text \<open>The loop of \<open>netlink_recv\<close>: whether it comes to restart the service.\<close>

function nlmsg_loop :: "byte list \<Rightarrow> nat \<Rightarrow> int \<Rightarrow> fault + bool" where
  "nlmsg_loop buf nh msglen =
     (if msglen < 16 then Inr False else
      case le32 (drop nh buf) of Inl f \<Rightarrow> Inl f | Inr nlmsg_len \<Rightarrow>
      if nlmsg_len < 16 \<or> msglen < int nlmsg_len then Inr False else
      case le16 (drop (nh + 4) buf) of Inl f \<Rightarrow> Inl f | Inr nlmsg_type \<Rightarrow>
      if nlmsg_type = NLMSG_DONE then Inr False else
      case is_new_addr buf nh of Inl f \<Rightarrow> Inl f | Inr new \<Rightarrow>
      if new \<or> nlmsg_type = RTM_DELADDR then Inr True
      else nlmsg_loop buf (nh + align4 nlmsg_len) (msglen - int (align4 nlmsg_len)))"
  by pat_completeness auto
termination
  by (relation "measure (\<lambda>(buf, p, n). nat n)") (auto simp: align4_def)

declare nlmsg_loop.simps [simp del]

definition netlink_recv :: "os \<Rightarrow> endpoint \<Rightarrow> outcome M" where
  "netlink_recv os ep =
     bind (sys_recvfrom os (sock ep) 4096) (\<lambda>r.
     if (case r of None \<Rightarrow> True | Some (dat, sa) \<Rightarrow> dat = [])
     then bind (set_err ''netlink_recv: netlink_recv: recv'') (\<lambda>_. ret (Return (- 1)))
     else bind (sys (os_stack os)) (\<lambda>stale.
       let dat = fst (the r); buf = dat @ map stale [length dat..<4096] in
       case nlmsg_loop buf 0 (int (length dat)) of
         Inl f \<Rightarrow> crash f
       | Inr again \<Rightarrow> if again then restart_service else ret (Return 0)))"

section \<open>Messages as the kernel writes them\<close>

definition enc16 :: "nat \<Rightarrow> byte list" where
  "enc16 n = [word_of_nat n, word_of_nat (n div 256)]"

definition enc32 :: "nat \<Rightarrow> byte list" where
  "enc32 n = [word_of_nat n, word_of_nat (n div 256), word_of_nat (n div 65536),
     word_of_nat (n div 16777216)]"

definition pad4 :: "byte list \<Rightarrow> byte list" where
  "pad4 bs = bs @ replicate (align4 (length bs) - length bs) 0"

text \<open>An attribute: type and data. The padding counts as part of what holds the attribute.\<close>

type_synonym rtattr = "nat \<times> byte list"

definition enc_attr :: "rtattr \<Rightarrow> byte list" where
  "enc_attr a = pad4 (enc16 (4 + length (snd a)) @ enc16 (fst a) @ snd a)"

record nlmsg =
  nl_type :: nat
  nl_flags :: nat
  nl_seq :: nat
  nl_pid :: nat
  nl_body :: "byte list"
  nl_attrs :: "rtattr list"

definition nl_content :: "nlmsg \<Rightarrow> byte list" where
  "nl_content m = nl_body m @ concat (map enc_attr (nl_attrs m))"

definition enc_nlmsg :: "nlmsg \<Rightarrow> byte list" where
  "enc_nlmsg m = pad4 (enc32 (16 + length (nl_content m)) @ enc16 (nl_type m) @ enc16 (nl_flags m) @
     enc32 (nl_seq m) @ enc32 (nl_pid m) @ nl_content m)"

definition enc_nlmsgs :: "nlmsg list \<Rightarrow> byte list" where
  "enc_nlmsgs ms = concat (map enc_nlmsg ms)"

text \<open>
  Well-formed: the numbers fit their fields, a new address has its eight bytes of \<open>ifaddrmsg\<close> before
  the attributes, and a cache information is the four words of \<open>ifa_cacheinfo\<close>.
\<close>

definition wf_attr :: "rtattr \<Rightarrow> bool" where
  "wf_attr a \<longleftrightarrow> fst a < 65536 \<and> length (snd a) < 65532 \<and>
     (fst a = IFA_CACHEINFO \<longrightarrow> length (snd a) = 16)"

definition wf_nlmsg :: "nlmsg \<Rightarrow> bool" where
  "wf_nlmsg m \<longleftrightarrow> nl_type m < 65536 \<and> (nl_type m = RTM_NEWADDR \<longrightarrow> length (nl_body m) = 8) \<and>
     list_all wf_attr (nl_attrs m)"

text \<open>
  What \<open>netlink_recv\<close> is to notice: before the end of a dump, an address that went, or one that
  came and has not only been refreshed: its time of creation is that of its last update.
\<close>

definition fresh_attr :: "rtattr \<Rightarrow> bool" where
  "fresh_attr a \<longleftrightarrow>
     (fst a = IFA_CACHEINFO \<longrightarrow> take 4 (drop 8 (snd a)) = take 4 (drop 12 (snd a)))"

definition address_change :: "nlmsg \<Rightarrow> bool" where
  "address_change m \<longleftrightarrow> nl_type m = RTM_DELADDR \<or>
     nl_type m = RTM_NEWADDR \<and> list_all fresh_attr (nl_attrs m)"

definition address_changes :: "nlmsg list \<Rightarrow> bool" where
  "address_changes ms \<longleftrightarrow> list_ex address_change (takeWhile (\<lambda>m. nl_type m \<noteq> NLMSG_DONE) ms)"

section \<open>Decoding\<close>

lemma length_enc [simp]: "length (enc16 n) = 2" "length (enc32 n) = 4"
  by (simp_all add: enc16_def enc32_def)

lemma le16_enc [simp]: "n < 65536 \<Longrightarrow> le16 (enc16 n @ xs) = Inr n"
  by (simp add: enc16_def unat_of_nat)

lemma base256:
  "256 * a + r0 = (n::nat) \<Longrightarrow> 256 * b + r1 = a \<Longrightarrow> 256 * c + r2 = b \<Longrightarrow>
   r0 + 256 * (r1 + 256 * (r2 + 256 * c)) = n"
  by simp

lemma le32_enc [simp]: "n < 4294967296 \<Longrightarrow> le32 (enc32 n @ xs) = Inr n"
proof -
  assume n: "n < 4294967296"
  have "n div 16777216 = n div 256 div 256 div 256" "n div 65536 = n div 256 div 256"
    by (simp_all flip: div_mult2_eq)
  moreover from n have "n div 16777216 mod 256 = n div 16777216" by simp
  ultimately have "n mod 256 + 256 * (n div 256 mod 256 + 256 * (n div 65536 mod 256 +
      256 * (n div 16777216 mod 256))) = n"
    using base256 [OF mult_div_mod_eq mult_div_mod_eq mult_div_mod_eq, of n] by simp
  with n show ?thesis by (simp add: enc32_def unat_of_nat)
qed

lemma digit_eq: "r < 256 \<Longrightarrow> r' < 256 \<Longrightarrow> r + 256 * q = r' + 256 * (q'::nat) \<longleftrightarrow> r = r' \<and> q = q'"
proof
  assume lt: "r < 256" "r' < 256" and eq: "r + 256 * q = r' + 256 * q'"
  have "r = (r + 256 * q) mod 256" using lt by simp
  also have "\<dots> = r'" using lt unfolding eq by simp
  finally show "r = r' \<and> q = q'" using eq by simp
qed simp

lemma byte_lt: "unat (b :: byte) < 256"
proof -
  have "(unsigned b :: nat) < 2 ^ LENGTH(8)" by (rule unsigned_less)
  then show ?thesis by simp
qed

lemma le32_four:
  assumes "length xs = 4"
  shows "\<exists>n. le32 (xs @ zs) = Inr n"
  using assms by (rule list4E) simp

lemma le32_four_eq:
  assumes "length xs = 4" and "length ys = 4"
  shows "le32 (xs @ zs) = le32 (ys @ us) \<longleftrightarrow> xs = ys"
proof -
  obtain a b c d where xs: "xs = [a, b, c, d]" using assms(1) by (rule list4E)
  obtain e f g h where ys: "ys = [e, f, g, h]" using assms(2) by (rule list4E)
  show ?thesis
    by (simp only: xs ys append_Cons append_Nil le32.simps sum.inject digit_eq [OF byte_lt byte_lt])
      (simp add: word_unat_eq_iff)
qed

lemma align4_ge: "n \<le> align4 n"
  unfolding align4_def by presburger

lemma length_pad4 [simp]: "length (pad4 bs) = align4 (length bs)"
  by (simp add: pad4_def align4_ge)

lemma length_enc_attr: "length (enc_attr a) = align4 (4 + length (snd a))"
  by (simp only: enc_attr_def length_pad4 length_append length_enc flip: add.assoc) simp

text \<open>What the loop reads of an attribute.\<close>

lemma attr_reads:
  assumes "drop p buf = enc_attr a @ rest" and "wf_attr a"
  shows "le16 (drop p buf) = Inr (4 + length (snd a))" and "le16 (drop (p + 2) buf) = Inr (fst a)"
    and "fst a = IFA_CACHEINFO \<Longrightarrow> \<exists>c t. le32 (drop (p + 4 + 8) buf) = Inr c \<and>
      le32 (drop (p + 4 + 12) buf) = Inr t \<and> (c = t \<longleftrightarrow> fresh_attr a)"
proof -
  obtain z where d: "drop p buf = enc16 (4 + length (snd a)) @ enc16 (fst a) @ snd a @ z"
    using assms(1) by (simp add: enc_attr_def pad4_def)
  have at: "drop (p + k) buf = drop k (drop p buf)" for k
    by (simp add: add.commute)
  show "le16 (drop p buf) = Inr (4 + length (snd a))"
    unfolding d using assms(2) by (simp add: wf_attr_def)
  show "le16 (drop (p + 2) buf) = Inr (fst a)"
    unfolding at d using assms(2) by (simp add: wf_attr_def)
  assume cache: "fst a = IFA_CACHEINFO"
  then have len: "length (snd a) = 16" using assms(2) by (simp add: wf_attr_def)
  let ?c = "take 4 (drop 8 (snd a))" and ?t = "take 4 (drop 12 (snd a))"
  have "drop 8 (snd a) = ?c @ drop 12 (snd a)"
    using append_take_drop_id [of 4 "drop 8 (snd a)"] by (simp add: drop_drop)
  then have c: "drop (p + 12) buf = ?c @ drop 12 (snd a) @ z"
    unfolding at d using len by simp
  have t: "drop (p + 16) buf = ?t @ z"
    unfolding at d using len by simp
  have l: "length ?c = 4" "length ?t = 4" using len by simp_all
  obtain n k where "le32 (?c @ drop 12 (snd a) @ z) = Inr n" "le32 (?t @ z) = Inr k"
    using le32_four [OF l(1)] le32_four [OF l(2)] by blast
  then show "\<exists>c t. le32 (drop (p + 4 + 8) buf) = Inr c \<and> le32 (drop (p + 4 + 12) buf) = Inr t \<and>
      (c = t \<longleftrightarrow> fresh_attr a)"
    using le32_four_eq [OF l, of "drop 12 (snd a) @ z" z] cache
    by (simp add: add.assoc c t fresh_attr_def)
qed

lemma rta_loop_enc:
  assumes "drop p buf = concat (map enc_attr attrs) @ rest" and "list_all wf_attr attrs"
    and "n = length (concat (map enc_attr attrs))" and "n < 2 ^ 32"
  shows "rta_loop buf p n = Inr (list_all fresh_attr attrs)"
  using assms
proof (induction attrs arbitrary: p n)
  case Nil
  then show ?case by (subst rta_loop.simps) simp
next
  case (Cons a attrs)
  let ?len = "4 + length (snd a)" and ?n = "length (concat (map enc_attr attrs))"
  have d: "drop p buf = enc_attr a @ (concat (map enc_attr attrs) @ rest)"
    using Cons.prems(1) by simp
  have wf: "wf_attr a" and wfs: "list_all wf_attr attrs" using Cons.prems(2) by simp_all
  note reads = attr_reads [OF d wf]
  have n: "n = align4 ?len + ?n" using Cons.prems(3) by (simp add: length_enc_attr)
  have le: "?len \<le> align4 ?len" by (rule align4_ge)
  have "drop (p + align4 ?len) buf = drop (align4 ?len) (drop p buf)"
    by (simp add: add.commute)
  also have "\<dots> = concat (map enc_attr attrs) @ rest"
    unfolding d by (simp add: length_enc_attr)
  finally have IH: "rta_loop buf (p + align4 ?len) ?n = Inr (list_all fresh_attr attrs)"
    using Cons.prems(4) n by (intro Cons.IH wfs refl) simp_all
  have next_size: "nat ((int n - int (align4 ?len)) mod 2 ^ 32) = ?n"
    using Cons.prems(4) by (simp add: n)
  have size: "\<not> n < 4" "\<not> (?len < 4 \<or> n < ?len)" using n le by simp_all
  show ?case
  proof (cases "fst a = IFA_CACHEINFO")
    case True
    from reads(3) [OF this] obtain c t where ct: "le32 (drop (p + 4 + 8) buf) = Inr c"
        "le32 (drop (p + 4 + 12) buf) = Inr t" "c = t \<longleftrightarrow> fresh_attr a" by blast
    show ?thesis
      by (subst rta_loop.simps)
        (simp only: size reads(1,2) ct(1,2) True if_False if_True sum.case next_size IH list.pred_inject,
          simp add: ct(3))
  next
    case False
    then have "fresh_attr a" by (simp add: fresh_attr_def)
    with False show ?thesis
      by (subst rta_loop.simps)
        (simp only: size reads(1,2) if_False sum.case next_size IH list.pred_inject, simp)
  qed
qed

definition enc_rest :: "nlmsg \<Rightarrow> byte list" where
  "enc_rest m = enc16 (nl_flags m) @ enc32 (nl_seq m) @ enc32 (nl_pid m)"

lemma nlmsg_reads:
  assumes "drop nh buf = enc_nlmsg m @ rest" and "wf_nlmsg m" and "length (enc_nlmsg m) < 2 ^ 32"
  shows "le32 (drop nh buf) = Inr (16 + length (nl_content m))"
    and "le16 (drop (nh + 4) buf) = Inr (nl_type m)"
    and "length (enc_nlmsg m) = align4 (16 + length (nl_content m))"
    and "\<exists>z. drop (nh + 16) buf = nl_content m @ z"
proof -
  obtain z where d: "drop nh buf = enc32 (16 + length (nl_content m)) @ enc16 (nl_type m) @
      enc_rest m @ nl_content m @ z"
    using assms(1) by (simp add: enc_nlmsg_def pad4_def enc_rest_def)
  have at: "drop (nh + k) buf = drop k (drop nh buf)" for k
    by (simp add: add.commute)
  have rest: "length (enc_rest m) = 10" by (simp add: enc_rest_def)
  show len: "length (enc_nlmsg m) = align4 (16 + length (nl_content m))"
    by (simp add: enc_nlmsg_def)
  then have small: "16 + length (nl_content m) < 4294967296"
    using assms(3) align4_ge [of "16 + length (nl_content m)"] by simp
  show "le32 (drop nh buf) = Inr (16 + length (nl_content m))"
    unfolding d by (rule le32_enc [OF small])
  show "le16 (drop (nh + 4) buf) = Inr (nl_type m)"
    unfolding at d using assms(2) by (simp add: wf_nlmsg_def)
  show "\<exists>z. drop (nh + 16) buf = nl_content m @ z"
    unfolding at d using rest by simp
qed

lemma is_new_addr_enc:
  assumes "drop nh buf = enc_nlmsg m @ rest" and "wf_nlmsg m" and "length (enc_nlmsg m) < 2 ^ 32"
  shows "is_new_addr buf nh = Inr (nl_type m = RTM_NEWADDR \<and> list_all fresh_attr (nl_attrs m))"
proof (cases "nl_type m = RTM_NEWADDR")
  case True
  note reads = nlmsg_reads [OF assms]
  let ?n = "length (concat (map enc_attr (nl_attrs m)))"
  have body: "length (nl_body m) = 8" and wf: "list_all wf_attr (nl_attrs m)"
    using assms(2) True by (simp_all add: wf_nlmsg_def)
  obtain z where z: "drop (nh + 16) buf = nl_content m @ z" using reads(4) by blast
  have "drop (nh + 16 + 8) buf = drop 8 (drop (nh + 16) buf)" by (simp add: add.commute)
  also have "\<dots> = concat (map enc_attr (nl_attrs m)) @ z"
    unfolding z using body by (simp add: nl_content_def)
  finally have d: "drop (nh + 16 + 8) buf = concat (map enc_attr (nl_attrs m)) @ z" .
  have n: "?n < 2 ^ 32"
    using assms(3) align4_ge [of "16 + length (nl_content m)"] reads(3) by (simp add: nl_content_def)
  have size: "nat ((int (16 + length (nl_content m)) - 24) mod 2 ^ 32) = ?n"
    using n body by (simp add: nl_content_def)
  show ?thesis
    by (simp only: is_new_addr_def reads(1,2) sum.case size rta_loop_enc [OF d wf refl n] True
        simp_thms if_False)
next
  case False
  with nlmsg_reads [OF assms] show ?thesis
    by (simp add: is_new_addr_def)
qed

lemma nlmsg_loop_enc:
  assumes "drop nh buf = enc_nlmsgs ms @ rest" and "list_all wf_nlmsg ms"
    and "msglen = int (length (enc_nlmsgs ms))" and "msglen < 2 ^ 31"
  shows "nlmsg_loop buf nh msglen = Inr (address_changes ms)"
  using assms
proof (induction ms arbitrary: nh msglen)
  case Nil
  then show ?case by (subst nlmsg_loop.simps) (simp add: enc_nlmsgs_def address_changes_def)
next
  case (Cons m ms)
  have d: "drop nh buf = enc_nlmsg m @ (enc_nlmsgs ms @ rest)"
    using Cons.prems(1) by (simp add: enc_nlmsgs_def)
  have wf: "wf_nlmsg m" and wfs: "list_all wf_nlmsg ms" using Cons.prems(2) by simp_all
  have len: "msglen = int (length (enc_nlmsg m)) + int (length (enc_nlmsgs ms))"
    using Cons.prems(3) by (simp add: enc_nlmsgs_def)
  have small: "length (enc_nlmsg m) < 2 ^ 32" using len Cons.prems(4) by simp
  note reads = nlmsg_reads [OF d wf small]
  let ?len = "16 + length (nl_content m)"
  have le: "?len \<le> align4 ?len" by (rule align4_ge)
  have "drop (nh + align4 ?len) buf = drop (align4 ?len) (drop nh buf)"
    by (simp add: add.commute)
  also have "\<dots> = enc_nlmsgs ms @ rest"
    unfolding d by (simp add: reads(3))
  finally have IH: "nlmsg_loop buf (nh + align4 ?len) (msglen - int (align4 ?len)) =
      Inr (address_changes ms)"
    using len Cons.prems(4) by (intro Cons.IH wfs) (simp_all add: reads(3))
  have size: "\<not> msglen < 16" "\<not> (?len < 16 \<or> msglen < int ?len)"
    using len le by (simp_all add: reads(3))
  show ?case
    by (subst nlmsg_loop.simps)
      (simp only: size reads(1,2) if_False sum.case is_new_addr_enc [OF d wf small] IH,
        auto simp: address_changes_def address_change_def)
qed

section \<open>What restarts the service\<close>

text \<open>
  C5. \<open>netlink_recv\<close> implements the watch for address changes: on well-formed messages it has no
  fault, and it leaves through \<open>restart_service\<close> exactly when, before the end of a dump, an address
  was removed or one was added that is not just a refresh.
\<close>

theorem netlink_recv_watch:
  assumes "os_recvfrom os (calls w) (sock ep) = Inr (enc_nlmsgs ms, sa)"
    and "list_all wf_nlmsg ms" and "ms \<noteq> []" and "length (enc_nlmsgs ms) \<le> 4096"
  shows "runs (netlink_recv os ep) w (\<lambda>r t.
    r = (if address_changes ms then Jump else Return 0) \<and>
    restart t = (if address_changes ms then 1 else restart w) \<and>
    trace t = trace w @ [Ev_recv (sock ep) (int (length (enc_nlmsgs ms)))])"
proof -
  let ?d = "enc_nlmsgs ms"
  obtain m ms' where ms: "ms = m # ms'" using assms(3) by (cases ms) auto
  have "?d \<noteq> []" by (simp add: ms enc_nlmsgs_def enc_nlmsg_def pad4_def enc32_def)
  moreover have "nlmsg_loop (?d @ z) 0 (int (length ?d)) = Inr (address_changes ms)" for z
    by (rule nlmsg_loop_enc [OF _ assms(2) refl]) (use assms(4) in simp_all)
  ultimately show ?thesis
    by (simp add: runs_def netlink_recv_def bind_run sys_recvfrom_run [OF assms(1,4)] sys_run
        restart_service_def modify_run ret_run Let_def)
qed

text \<open>
  A failed or empty reception is an error of the endpoint, which is recorded; nothing is read
  from the buffer.
\<close>

theorem netlink_recv_error:
  assumes "os_recvfrom os (calls w) (sock ep) = Inl e \<or>
    os_recvfrom os (calls w) (sock ep) = Inr ([], sa) \<and> errno w = e"
  shows "runs (netlink_recv os ep) w (\<lambda>r t. r = Return (- 1) \<and> ep_errno t = e \<and>
    ep_errstr t = Some ''netlink_recv: netlink_recv: recv'' \<and> restart t = restart w)"
  using assms
  by (auto simp: runs_def netlink_recv_def sys_recvfrom_def failing_def exec_simps)

section \<open>Examples\<close>

definition stamps :: "nat \<Rightarrow> nat \<Rightarrow> rtattr" where
  "stamps c t = (6, enc32 4294967295 @ enc32 4294967295 @ enc32 c @ enc32 t)"

definition new_addr :: "nat \<Rightarrow> nat \<Rightarrow> nlmsg" where
  "new_addr c t = \<lparr>nl_type = 20, nl_flags = 0, nl_seq = 0, nl_pid = 0,
     nl_body = [2, 24, 128, 0, 2, 0, 0, 0], nl_attrs = [(3, map ord ''eth0'' @ [0]), stamps c t]\<rparr>"

definition addr_os :: os where
  "addr_os = lan_os\<lparr>os_recvfrom := (\<lambda>n fd. Inr (enc_nlmsgs [new_addr 500 900, new_addr 500 500], peer))\<rparr>"

theorem netlink_recv_watch_witness:
  "runs (netlink_recv addr_os udp_ep) zero_world (\<lambda>r t. r = Jump \<and> restart t = 1)"
proof -
  have changes: "address_changes [new_addr 500 900, new_addr 500 500]"
    by (simp add: address_changes_def address_change_def new_addr_def fresh_attr_def stamps_def enc32_def)
  show ?thesis
  proof (rule runs_mono [OF netlink_recv_watch])
    show "os_recvfrom addr_os (calls zero_world) (sock udp_ep) =
        Inr (enc_nlmsgs [new_addr 500 900, new_addr 500 500], peer)"
      by (simp add: addr_os_def)
    show "list_all wf_nlmsg [new_addr 500 900, new_addr 500 500]"
      by (simp add: wf_nlmsg_def new_addr_def wf_attr_def stamps_def)
    show "length (enc_nlmsgs [new_addr 500 900, new_addr 500 500]) \<le> 4096"
      by (simp add: enc_nlmsgs_def enc_nlmsg_def nl_content_def new_addr_def stamps_def
          length_enc_attr align4_def)
  qed (simp_all add: changes)
qed

theorem netlink_recv_error_witness:
  "runs (netlink_recv lan_os udp_ep) zero_world (\<lambda>r t. r = Return (- 1) \<and> ep_errno t = 11)"
  by (rule runs_mono [OF netlink_recv_error [of lan_os zero_world udp_ep 11]])
    (simp_all add: lan_os_def quiet_os_def)

end
