(* ===== verification/Descriptors.thy ===== *)
theory Descriptors
  imports Wsd_Recv Llmnr_Wire Netlink
begin

text \<open>
  The contract between the main loop and the receive handlers of the services: what a handler may do
  to the descriptors of the process and to the flag \<open>restart\<close>. It is the locale \<open>receiver\<close>, which
  \<open>wsd_recv\<close>, \<open>llmnr_recv\<close> and \<open>netlink_recv\<close> interpret.
\<close>

section \<open>Descriptors held\<close>

text \<open>How often a descriptor has been made and not yet closed, from the visible actions.\<close>

fun gain :: "int \<Rightarrow> event \<Rightarrow> int" where
  "gain x (Ev_socket a b c fd) = (if 0 \<le> fd \<and> fd = x then 1 else 0)"
| "gain x (Ev_accept a fd) = (if 0 \<le> fd \<and> fd = x then 1 else 0)"
| "gain x (Ev_close fd) = (if fd = x then - 1 else 0)"
| "gain x _ = 0"

definition held :: "world \<Rightarrow> int \<Rightarrow> int" where
  "held w x = sum_list (map (gain x) (trace w))"

definition balanced :: "world \<Rightarrow> world \<Rightarrow> bool" where
  "balanced s t \<longleftrightarrow> held t = held s"

interpretation bal: frame balanced
  by unfold_locales (auto simp: balanced_def)

lemma gain_calm: "list_all (\<lambda>e. \<not> fd_event e) es \<Longrightarrow> sum_list (map (gain x) es) = 0"
proof (induction es)
  case (Cons e es)
  then show ?case by (cases e) simp_all
qed simp

lemma calm_balanced: "calm s t \<Longrightarrow> balanced s t"
  by (auto simp: calm_def balanced_def held_def gain_calm)

lemma keeps_calm_balanced: "keeps calm m \<Longrightarrow> keeps balanced m"
  by (erule keeps_mono) (rule calm_balanced)

lemma balanced_eq: "trace t = trace s \<Longrightarrow> balanced s t"
  unfolding balanced_def by (rule ext) (simp add: held_def)

lemma restart_service_balanced: "keeps balanced restart_service"
  unfolding restart_service_def
  by (intro bal.keeps_intros bal.keeps_modify balanced_eq) simp

section \<open>The contract of a receive handler\<close>

text \<open>
  What the kernel promises: \<open>accept\<close> returns a descriptor of its own, never the listening one.
\<close>

definition accept_ok :: "os \<Rightarrow> bool" where
  "accept_ok os \<longleftrightarrow>
     (\<forall>n fd c sa items. os_accept os n fd = Inr (c, sa, items) \<longrightarrow> 0 \<le> c \<and> c \<noteq> fd)"

text \<open>What the main loop makes of a handler's return: an error restarts the service.\<close>

definition after_recv :: "outcome \<Rightarrow> outcome M" where
  "after_recv r = (case r of Jump \<Rightarrow> ret Jump
     | Return n \<Rightarrow> if n < 0 then restart_service else ret (Return n))"

locale receiver =
  fixes recv :: "os \<Rightarrow> endpoint \<Rightarrow> outcome M"
  assumes recv_balanced: "accept_ok os \<Longrightarrow> keeps balanced (recv os ep)"
    and recv_return: "accept_ok os \<Longrightarrow> recv os ep w = Inr (Return n, t) \<Longrightarrow> restart t = restart w"
    and recv_jump: "accept_ok os \<Longrightarrow> recv os ep w = Inr (Jump, t) \<Longrightarrow> restart t = 1"
begin

text \<open>After a handler the loop holds the same descriptors and either goes on with the flag as it
  was, or leaves with the flag at 1.\<close>

lemma dispatch_balanced: "accept_ok os \<Longrightarrow> keeps balanced (bind (recv os ep) after_recv)"
  unfolding after_recv_def
  by (intro bal.keeps_bind recv_balanced)
    (auto split: outcome.split intro: bal.keeps_ret restart_service_balanced)

lemma dispatch_flag:
  assumes ok: "accept_ok os" and "bind (recv os ep) after_recv w = Inr (r, t)"
  shows "(r = Jump \<and> restart t = 1) \<or> (\<exists>n\<ge>0. r = Return n \<and> restart t = restart w)"
proof -
  from assms(2) obtain r' v where recv: "recv os ep w = Inr (r', v)" and after: "after_recv r' v = Inr (r, t)"
    by (auto simp: bind_eq_Inr)
  show ?thesis
  proof (cases r')
    case (Return n)
    with recv have "restart v = restart w" by (blast dest: recv_return [OF ok])
    with after Return show ?thesis
      by (auto simp: after_recv_def restart_service_def exec_simps split: if_splits)
  next
    case Jump
    with recv have "restart v = 1" by (blast dest: recv_jump [OF ok])
    with after Jump show ?thesis by (auto simp: after_recv_def ret_run)
  qed
qed

end

section \<open>The handlers keep the contract\<close>

definition returning :: "int M \<Rightarrow> outcome M" where
  "returning m = bind m (\<lambda>r. ret (Return r))"

lemma returning_Inr: "returning m w = Inr (r, t) \<longleftrightarrow> (\<exists>n. m w = Inr (n, t) \<and> r = Return n)"
  by (auto simp: returning_def bind_eq_Inr ret_run)

lemma wsd_recv_contract:
  assumes ok: "accept_ok os" and run: "wsd_recv os ep w = Inr (r, t)"
  shows "restart t = restart w \<and> balanced w t"
proof (cases "type ep = SOCK_STREAM")
  case False
  with keepsD [OF recv_udp_calm run] show ?thesis
    using calm_balanced by (auto simp: calm_def)
next
  case tcp: True
  show ?thesis
  proof (cases "os_accept os (calls w) (sock ep)")
    case (Inl e)
    from recv_accept_failed [OF tcp Inl run] show ?thesis
      by (auto simp: balanced_def held_def)
  next
    case (Inr x)
    then obtain c sa items where x: "os_accept os (calls w) (sock ep) = Inr (c, sa, items)"
      by (cases x) auto
    with ok have "0 \<le> c" "c \<noteq> sock ep" unfolding accept_ok_def by blast+
    with recv_tcp_closes [OF tcp x _ run] show ?thesis
      by (auto simp: closes_def balanced_def held_def accepted_world_def gain_calm)
  qed
qed

lemma calm_llmnr_send_response: "keeps calm (llmnr_send_response os ep sa inp inlen nm)"
  unfolding llmnr_send_response_def
  by (intro calm.keeps_intros calm_sys_sendto calm_silent [OF silent_connected_if]
      calm_silent [OF silent_set_errno] calm_silent [OF silent_rd] calm_silent [OF silent_rd16]
      calm_silent [OF silent_llmnr_name] calm_silent [OF silent_alloc])

lemma calm_llmnr_recv: "keeps calm (llmnr_recv os ep)"
  unfolding llmnr_recv_def Let_def
  by (intro calm.keeps_intros calm_sys_recvfrom calm_silent [OF silent_failing]
      calm_silent [OF silent_sys] calm_llmnr_send_response)

interpretation llmnr: receiver "\<lambda>os ep. returning (llmnr_recv os ep)"
proof
  show "keeps balanced (returning (llmnr_recv os ep))" for os ep
    unfolding returning_def
    by (intro bal.keeps_bind bal.keeps_ret keeps_calm_balanced calm_llmnr_recv)
  show "restart t = restart w" if "returning (llmnr_recv os ep) w = Inr (Return n, t)" for os ep w n t
    using that keepsD [OF calm_llmnr_recv] by (auto simp: returning_Inr calm_def)
qed (simp add: returning_Inr)

interpretation wsd: receiver "\<lambda>os ep. returning (wsd_recv os ep)"
proof
  show "keeps balanced (returning (wsd_recv os ep))" if "accept_ok os" for os ep
    using that by (auto simp: keeps_def returning_Inr dest: wsd_recv_contract)
  show "restart t = restart w" if "accept_ok os" "returning (wsd_recv os ep) w = Inr (Return n, t)"
    for os ep w n t
    using that by (auto simp: returning_Inr dest: wsd_recv_contract)
qed (simp add: returning_Inr)

interpretation netlink: receiver netlink_recv
proof
  show "keeps balanced (netlink_recv os ep)" for os ep
  proof -
    show ?thesis
      unfolding netlink_recv_def Let_def
      by (intro bal.keeps_intros restart_service_balanced keeps_calm_balanced [OF calm_sys_recvfrom]
          keeps_calm_balanced [OF calm_silent [OF silent_set_err]]
          keeps_calm_balanced [OF calm_silent [OF silent_sys]])
  qed
  show "restart t = restart w" if "netlink_recv os ep w = Inr (Return n, t)" for os ep w n t
    using that
    by (auto simp: netlink_recv_def sys_recvfrom_def failing_def restart_service_def exec_simps Let_def
        split: sum.splits if_splits)
  show "restart t = 1" if "netlink_recv os ep w = Inr (Jump, t)" for os ep w t
    using that
    by (auto simp: netlink_recv_def sys_recvfrom_def failing_def restart_service_def exec_simps Let_def
        split: sum.splits if_splits)
qed

end
