(* ===== verification/Endpoint.thy ===== *)
theory Endpoint
  imports Descriptors
begin

text \<open>
  The endpoints of wsdd2.c: \<open>open_ep\<close> makes the socket of a service on an interface, binds it, joins
  the multicast group, listens and starts the service; \<open>close_ep\<close> undoes it. The library function
  \<open>inet_pton\<close> is written out for the addresses the service table has (no dotted tail in IPv6).
\<close>

unbundle bit_operations_syntax

section \<open>Addresses from text\<close>

fun split_on :: "char \<Rightarrow> string \<Rightarrow> string list" where
  "split_on d [] = [[]]"
| "split_on d (c # cs) = (if c = d then [] # split_on d cs
     else (case split_on d cs of [] \<Rightarrow> [[c]] | w # ws \<Rightarrow> (c # w) # ws))"

definition digit_val :: "char \<Rightarrow> nat" where
  "digit_val c = (let n = (of_char c :: nat) in
     if n < 58 then n - 48 else if n < 71 then n - 55 else n - 87)"

definition num_val :: "nat \<Rightarrow> string \<Rightarrow> nat" where
  "num_val base s = foldl (\<lambda>v c. v * base + digit_val c) 0 s"

definition octet_of :: "string \<Rightarrow> byte option" where
  "octet_of s = (if s \<noteq> [] \<and> length s \<le> 3 \<and> list_all isdigit s \<and> num_val 10 s < 256 \<and>
       (hd s = CHR ''0'' \<longrightarrow> s = ''0'') then Some (word_of_nat (num_val 10 s)) else None)"

definition group_of :: "string \<Rightarrow> (byte list) option" where
  "group_of s = (if s \<noteq> [] \<and> length s \<le> 4 \<and> list_all isxdigit s
     then Some [word_of_nat (num_val 16 s div 256), word_of_nat (num_val 16 s)] else None)"

fun all_some :: "'a option list \<Rightarrow> 'a list option" where
  "all_some [] = Some []"
| "all_some (x # xs) = (case x of None \<Rightarrow> None | Some a \<Rightarrow> map_option ((#) a) (all_some xs))"

definition groups_of :: "string \<Rightarrow> (byte list) option" where
  "groups_of s = (if s = [] then Some []
     else map_option concat (all_some (map group_of (split_on CHR '':'' s))))"

definition inet_pton :: "int \<Rightarrow> string \<Rightarrow> (byte list) option" where
  "inet_pton fam s =
     (if fam = AF_INET then
       (let parts = split_on CHR ''.'' s in
        if length parts = 4 then all_some (map octet_of parts) else None)
      else (case strstr s ''::'' of
        None \<Rightarrow> (case groups_of s of
            Some bs \<Rightarrow> if length bs = 16 then Some bs else None | None \<Rightarrow> None)
      | Some i \<Rightarrow> (case (groups_of (take i s), groups_of (drop (i + 2) s)) of
            (Some l, Some r) \<Rightarrow>
              if length l + length r < 16 then Some (l @ replicate (16 - length l - length r) 0 @ r)
              else None
          | _ \<Rightarrow> None)))"

definition htons :: "16 word \<Rightarrow> 16 word" where
  "htons p = push_bit 8 p OR drop_bit 8 p"

section \<open>Socket parameters\<close>

record sock_param =
  ip_multicast_loop :: string
  ip_add_membership :: string
  ip_drop_membership :: string
  sp_llen :: nat
  sp_mlen :: nat
  sp_mreqlen :: nat

text \<open>The table has names for these families only; an entry without a name is unsupported.\<close>

definition sock_params :: "int \<Rightarrow> sock_param option" where
  "sock_params fam =
     (if fam = AF_INET then Some \<lparr>ip_multicast_loop = ''IP_MULTICAST_LOOP'',
        ip_add_membership = ''IP_ADD_MEMBERSHIP'', ip_drop_membership = ''IP_DROP_MEMBERSHIP'',
        sp_llen = 16, sp_mlen = 16, sp_mreqlen = 8\<rparr>
      else if fam = AF_INET6 then Some \<lparr>ip_multicast_loop = ''IPV6_MULTICAST_LOOP'',
        ip_add_membership = ''IPV6_ADD_MEMBERSHIP'', ip_drop_membership = ''IPV6_DROP_MEMBERSHIP'',
        sp_llen = 28, sp_mlen = 28, sp_mreqlen = 20\<rparr>
      else if fam = AF_NETLINK then Some \<lparr>ip_multicast_loop = [], ip_add_membership = [],
        ip_drop_membership = [], sp_llen = 12, sp_mlen = 0, sp_mreqlen = 0\<rparr>
      else None)"

section \<open>Opening\<close>

text \<open>The text goes to \<open>ep->errstr\<close>, and the number to \<open>ep->_errno\<close>; the result is -1.\<close>

definition ep_fail :: "string \<Rightarrow> int \<Rightarrow> endpoint \<Rightarrow> (int \<times> endpoint) M" where
  "ep_fail s e ep =
     bind (modify (\<lambda>w. w\<lparr>ep_errstr := Some s, ep_errno := e\<rparr>)) (\<lambda>_. ret (- 1, ep))"

definition is_inet :: "int \<Rightarrow> bool" where
  "is_inet fam \<longleftrightarrow> fam = AF_INET \<or> fam = AF_INET6"

text \<open>
  The port: the one \<open>getservbyname\<close> finds, as it finds it, or else the number of the table. The name of
  the protocol is looked up in an array with entries for types 1 and 2 (type 0 has a null pointer).
\<close>

definition ep_port :: "os \<Rightarrow> service \<Rightarrow> (16 word) M" where
  "ep_port os sv =
     (if is_inet (sv_family sv) then
       (case port_name sv of None \<Rightarrow> crash NullDeref | Some nm \<Rightarrow>
        if sv_type sv < 0 \<or> 2 < sv_type sv then crash OobRead else
        let proto = (if sv_type sv = SOCK_STREAM then ''tcp''
                     else if sv_type sv = SOCK_DGRAM then ''udp'' else []) in
        bind (sys (\<lambda>n. os_getservbyname os n nm proto)) (\<lambda>se.
        let p = (case se of Some p \<Rightarrow> p | None \<Rightarrow> 0) in
        ret (if p = 0 then port_num sv else p)))
      else ret 0)"

text \<open>The addresses and the membership request. The result is false when the group is malformed.\<close>

definition ep_addresses :: "os \<Rightarrow> ifaddrs \<Rightarrow> sock_param \<Rightarrow> endpoint \<Rightarrow> (bool \<times> endpoint) M" where
  "ep_addresses os ifa sp ep0 =
     (let fam = family ep0; zeros = replicate (addr_size fam) 0;
          blank = \<lparr>ss_family = fam, sin_port = 0, sin_addr = zeros\<rparr>;
          any = blank\<lparr>sin_port := htons (port ep0)\<rparr>;
          ep = ep0\<lparr>mcast := blank, mlen := sp_llen sp, local := blank, llen := sp_llen sp,
                   mreqlen := sp_mreqlen sp\<rparr> in
      if is_inet fam then
        (case mcast_addr (service ep) of
           None \<Rightarrow> ret (True, ep\<lparr>local := any\<rparr>)
         | Some a \<Rightarrow>
             (case inet_pton fam a of
                None \<Rightarrow> bind (set_err (if fam = AF_INET then ''open_ep: Bad mcast IP addr''
                    else ''open_ep: Bad mcast IPv6 addr'')) (\<lambda>_. ret (False, ep\<lparr>mcast := any\<rparr>))
              | Some bs \<Rightarrow>
                  bind (if fam = AF_INET
                        then (case ifa_addr ifa of None \<Rightarrow> crash NullDeref
                              | Some ia \<Rightarrow> ret (Ip_mreq bs (sin_addr ia)))
                        else bind (sys (\<lambda>n. os_if_nametoindex os n (ifname ep)))
                               (\<lambda>i. ret (Ipv6_mreq bs i))) (\<lambda>mr.
                  ret (True, ep\<lparr>mcast := any\<lparr>sin_addr := bs\<rparr>, mreq := mr, local := any\<rparr>))))
      else ret (True, ep\<lparr>local := blank\<lparr>sin_addr := enc32 (unat (nl_groups (service ep)))\<rparr>\<rparr>))"

text \<open>Joining the group. A failure closes the socket.\<close>

definition ep_join :: "os \<Rightarrow> sock_param \<Rightarrow> endpoint \<Rightarrow> bool M" where
  "ep_join os sp ep =
     (let fd = sock ep;
          failed = (\<lambda>s. bind (set_err s) (\<lambda>_. bind (sys_close fd) (\<lambda>_. ret False))) in
      if mcast_addr (service ep) = None then ret True else
      bind (if family ep = AF_INET then sys_setsockopt os fd ''IP_PKTINFO'' else ret 0) (\<lambda>r.
      if r \<noteq> 0 then failed ''open_ep: IP_PKTINFO'' else
      bind (sys_setsockopt os fd (ip_multicast_loop sp)) (\<lambda>r.
      if r \<noteq> 0 then failed ''open_ep: IP_MULTICAST_LOOP'' else
      bind (sys_membership os fd (ip_add_membership sp) (mreq ep)) (\<lambda>r.
      if r \<noteq> 0 then failed ''open_ep: IP_ADD_MEMBERSHIP'' else ret True))))"

definition run_init :: "os \<Rightarrow> init_fn option \<Rightarrow> endpoint \<Rightarrow> int M" where
  "run_init os f ep = (case f of None \<Rightarrow> ret 0
     | Some Wsd_init \<Rightarrow> wsd_init os ep
     | Some Llmnr_init \<Rightarrow> llmnr_init os ep)"

text \<open>Listening, and the start of the service.\<close>

definition ep_finish :: "os \<Rightarrow> endpoint \<Rightarrow> (int \<times> endpoint) M" where
  "ep_finish os ep =
     bind (if type ep = SOCK_STREAM then sys_listen os (sock ep) else ret 0) (\<lambda>r.
     if r \<noteq> 0 then
       bind (set_err ''open_ep: listen'') (\<lambda>_. bind (sys_close (sock ep)) (\<lambda>_. ret (- 1, ep)))
     else
     bind (run_init os (sv_init (service ep)) ep) (\<lambda>r.
     if r \<noteq> 0 then bind (sys_close (sock ep)) (\<lambda>_. ret (- 1, ep)) else ret (0, ep)))"

text \<open>From the socket on.\<close>

definition ep_start :: "os \<Rightarrow> sock_param \<Rightarrow> endpoint \<Rightarrow> (int \<times> endpoint) M" where
  "ep_start os sp ep0 =
     bind (sys_socket os (family ep0) (type ep0) (protocol ep0)) (\<lambda>fd.
     let ep = ep0\<lparr>sock := fd\<rparr> in
     if fd < 0 then bind (set_err ''open_ep: Can't open socket'') (\<lambda>_. ret (- 1, ep)) else
     bind (sys_setsockopt os fd ''SO_REUSEADDR'') (\<lambda>_.
     bind (sys_setsockopt os fd ''SO_REUSEPORT'') (\<lambda>_.
     bind (sys_bind os fd (local ep)) (\<lambda>r.
     if r \<noteq> 0 then
       bind (set_err ''open_ep: bind'') (\<lambda>_.
       bind (sys_close fd) (\<lambda>_.
       bind (get ep_errno) (\<lambda>e. ret (if e = EADDRINUSE then 0 else - 1, ep\<lparr>sock := - 1\<rparr>))))
     else
     bind (ep_join os sp ep) (\<lambda>ok.
     if \<not> ok then ret (- 1, ep) else ep_finish os ep)))))"

text \<open>The endpoint \<open>calloc\<close> and the first assignments make.\<close>

definition new_ep :: "service \<Rightarrow> ifaddrs \<Rightarrow> endpoint" where
  "new_ep sv ifa =
     (let none = \<lparr>ss_family = 0, sin_port = 0, sin_addr = []\<rparr> in
      \<lparr>ifname = take 15 (ifa_name ifa), service = sv, family = sv_family sv, type = sv_type sv,
       protocol = sv_protocol sv, port = 0, sock = 0, mlen = 0, llen = 0, mcast = none,
       local = none, mreq = No_mreq, mreqlen = 0\<rparr>)"

text \<open>
  The result of \<open>open_ep\<close> and the endpoint; none when memory is out, for then the process ends.
\<close>

definition open_ep :: "os \<Rightarrow> service \<Rightarrow> ifaddrs \<Rightarrow> (int \<times> endpoint) option M" where
  "open_ep os sv ifa =
     bind (alloc os) (\<lambda>mem. if \<not> mem then ret None else
     bind (modify (\<lambda>w. w\<lparr>ep_errstr := None, ep_errno := 0\<rparr>)) (\<lambda>_.
     let ep = new_ep sv ifa in
     bind (case sock_params (sv_family sv) of
       None \<Rightarrow> ep_fail ''open_ep: Unsupported address family'' EINVAL ep
     | Some sp \<Rightarrow>
         bind (ep_port os sv) (\<lambda>p.
         if is_inet (sv_family sv) \<and> p = 0 then ep_fail ''open_ep: No port number'' EADDRNOTAVAIL ep
         else
           bind (ep_addresses os ifa sp (ep\<lparr>port := p\<rparr>)) (\<lambda>(ok, ep).
           if \<not> ok then ret (- 1, ep) else ep_start os sp ep))) (\<lambda>r. ret (Some r))))"

section \<open>Closing\<close>

definition run_exit :: "os \<Rightarrow> exit_fn option \<Rightarrow> endpoint \<Rightarrow> unit M" where
  "run_exit os f ep = (case f of None \<Rightarrow> ret ()
     | Some Wsd_exit \<Rightarrow> wsd_exit os ep
     | Some Llmnr_exit \<Rightarrow> llmnr_exit os ep)"

definition close_ep :: "os \<Rightarrow> endpoint \<Rightarrow> unit M" where
  "close_ep os ep =
     bind (run_exit os (sv_exit (service ep)) ep) (\<lambda>_.
     bind (if mcast_addr (service ep) = None then ret ()
           else (case sock_params (family ep) of None \<Rightarrow> crash OobRead
             | Some sp \<Rightarrow>
                 bind (sys_membership os (sock ep) (ip_drop_membership sp) (mreq ep)) (\<lambda>_. ret ()))) (\<lambda>_.
     sys_close (sock ep)))"

end
