(* ===== verification/Endpoint_Props.thy ===== *)
theory Endpoint_Props
  imports Endpoint
begin

text \<open>
  Properties of \<open>open_ep\<close> and \<open>close_ep\<close>: no descriptor is lost, whichever step fails; what an
  endpoint that opens is bound to and member of; what \<open>close_ep\<close> does.
\<close>

section \<open>Steps that leave the descriptors alone\<close>

lemma calm_sock_calls:
  "keeps calm (sys_membership os fd opt mr)" "keeps calm (sys_bind os fd sa)"
  "keeps calm (sys_listen os fd)"
  unfolding sys_membership_def sys_bind_def sys_listen_def
  by (intro calm.keeps_intros calm_emit calm_silent [OF silent_sys_status]; simp)+

lemma silent_uuid_endpoint [frame_rules]: "keeps silent (uuid_endpoint os)"
  unfolding uuid_endpoint_def by (intro sil.keeps_intros frame_rules)

lemma silent_init_loop: "keeps silent (init_getresp_loop os s)"
proof (induction s rule: length_induct)
  case (1 s)
  show ?case
    by (subst init_getresp_loop.simps)
      (auto split: option.splits intro!: sil.keeps_ret sil.keeps_bind silent_set_getresp
        dest: fgets_shorter [rotated] simp: 1)
qed

lemma silent_init_getresp [frame_rules]: "keeps silent (init_getresp os)"
  unfolding init_getresp_def
  by (intro sil.keeps_intros silent_init_loop frame_rules) simp_all

lemma calm_wsd_send_hello: "keeps calm (wsd_send_hello os ep)"
  unfolding wsd_send_hello_def
  by (intro calm.keeps_intros calm_soap_msg calm_silent [OF silent_asprintf] calm.keeps_modify)
    (simp_all add: calm_def)

lemma calm_wsd_send_bye: "keeps calm (wsd_send_bye os ep)"
  unfolding wsd_send_bye_def
  by (intro calm.keeps_intros calm_soap_msg calm_silent [OF silent_asprintf] calm.keeps_modify)
    (simp_all add: calm_def)

lemma calm_wsd_init: "keeps calm (wsd_init os ep)"
  unfolding wsd_init_def
  by (intro calm.keeps_intros calm_wsd_send_hello calm_silent [OF silent_sys]
      calm_silent [OF silent_uuid_random] calm_silent [OF silent_uuid_endpoint]
      calm_silent [OF silent_set_err] calm_silent [OF silent_failing]
      calm_silent [OF silent_get_smbparm] calm_silent [OF silent_init_getresp]
      calm_silent [OF silent_modify]; simp)

lemma calm_run_init: "keeps calm (run_init os f ep)"
  unfolding run_init_def llmnr_init_def
  by (auto split: option.split init_fn.split intro: calm.keeps_ret calm_wsd_init)

lemma calm_run_exit: "keeps calm (run_exit os f ep)"
  unfolding run_exit_def llmnr_exit_def wsd_exit_def
  by (auto split: option.split exit_fn.split intro!: calm.keeps_ret calm.keeps_bind calm_wsd_send_bye)

section \<open>The ledger of descriptors\<close>

text \<open>
  A state that differs from an earlier one, as far as the main loop is concerned, only in the
  descriptors \<open>d\<close> gained.
\<close>

definition ledger :: "world \<Rightarrow> (int \<Rightarrow> int) \<Rightarrow> world \<Rightarrow> bool" where
  "ledger s d t \<longleftrightarrow> restart t = restart s \<and> (\<forall>x. held t x = held s x + d x)"

definition one :: "int \<Rightarrow> int \<Rightarrow> int" where
  "one fd x = (if 0 \<le> fd \<and> fd = x then 1 else 0)"

lemma ledger_refl: "ledger s (\<lambda>x. 0) s"
  by (simp add: ledger_def)

lemma ledger_calm: "ledger s d t \<Longrightarrow> calm t u \<Longrightarrow> ledger s d u"
  using calm_balanced [of t u] by (auto simp: ledger_def calm_def balanced_def)

lemma whenever_calm:
  assumes "keeps calm m" and "ledger s d t" and "\<And>a u. ledger s d u \<Longrightarrow> Q a u"
  shows "whenever m t Q"
  using assms(1) by (rule whenever_keeps) (rule assms(3), rule ledger_calm [OF assms(2)])

lemma held_snoc: "held (w\<lparr>trace := trace w @ [e]\<rparr>) x = held w x + gain x e"
  by (simp add: held_def)

lemma whenever_close:
  assumes "ledger s (one fd) t" and "0 \<le> fd" and "\<And>u. ledger s (\<lambda>x. 0) u \<Longrightarrow> Q () u"
  shows "whenever (sys_close fd) t Q"
  unfolding sys_close_def whenever_def
  using assms(1,2) by (auto simp: emit_run intro!: assms(3)) (simp add: ledger_def held_snoc one_def)

lemma whenever_socket:
  assumes "ledger s (\<lambda>x. 0) t" and "\<And>fd u. ledger s (one fd) u \<Longrightarrow> Q fd u"
  shows "whenever (sys_socket os fam ty pr) t Q"
  unfolding sys_socket_def whenever_def
  using assms(1)
  by (auto simp: failing_def exec_simps Let_def split: sum.splits intro!: assms(2))
    (simp_all add: ledger_def held_def one_def)

lemma whenever_bindI: "whenever m s (\<lambda>a t. whenever (k a) t Q) \<Longrightarrow> whenever (bind m k) s Q"
  by (simp add: vc_simps)

lemma whenever_ifI:
  "(b \<Longrightarrow> whenever m s Q) \<Longrightarrow> (\<not> b \<Longrightarrow> whenever n s Q) \<Longrightarrow> whenever (if b then m else n) s Q"
  by simp

lemma whenever_retI: "Q a s \<Longrightarrow> whenever (ret a) s Q"
  by (simp add: vc_simps)

lemma whenever_getI: "Q (g s) s \<Longrightarrow> whenever (get g) s Q"
  by (simp add: vc_simps)

text \<open>
  The verification conditions of a step sequence, with the ledger carried along: the steps that leave
  the descriptors alone keep the ledger they find.
\<close>

lemmas keep_ledger =
  whenever_calm [OF calm_setsockopt] whenever_calm [OF calm_sock_calls(1)]
  whenever_calm [OF calm_sock_calls(2)] whenever_calm [OF calm_sock_calls(3)]
  whenever_calm [OF calm_silent [OF silent_set_err]] whenever_calm [OF calm_run_init]

lemma ledger_ep_join:
  assumes "ledger s (one (sock ep)) t" and "0 \<le> sock ep"
  shows "whenever (ep_join os sp ep) t (\<lambda>ok u. ledger s (if ok then one (sock ep) else (\<lambda>x. 0)) u)"
  unfolding ep_join_def Let_def using assms(1)
  by - (rule whenever_retI, simp | rule whenever_bindI whenever_ifI | erule keep_ledger |
      erule whenever_close, rule assms(2))+

lemma ledger_finish:
  assumes "ledger s (one (sock ep)) t" and "0 \<le> sock ep"
  shows "whenever (ep_finish os ep) t (\<lambda>(r, ep') u. ledger s (if r = 0 then one (sock ep') else (\<lambda>x. 0)) u)"
proof -
  have init: "whenever (bind (run_init os (sv_init (service ep)) ep) (\<lambda>r.
      if r \<noteq> 0 then bind (sys_close (sock ep)) (\<lambda>_. ret (- 1 :: int, ep)) else ret (0, ep))) u
     (\<lambda>(r, ep') u. ledger s (if r = 0 then one (sock ep') else (\<lambda>x. 0)) u)"
    if "ledger s (one (sock ep)) u" for u
    using that by - (rule whenever_retI, simp | rule whenever_bindI whenever_ifI | erule keep_ledger |
      erule whenever_close, rule assms(2) | simp)+
  show ?thesis
    unfolding ep_finish_def using assms(1)
    by - (rule whenever_retI, simp | erule init | rule whenever_bindI whenever_ifI | erule keep_ledger |
      erule whenever_close, rule assms(2) | simp)+
qed

lemma ledger_ep_start:
  assumes "ledger s (\<lambda>x. 0) t"
  shows "whenever (ep_start os sp ep) t (\<lambda>(r, ep') u. ledger s (if r = 0 then one (sock ep') else (\<lambda>x. 0)) u)"
    (is "whenever _ _ ?Q")
proof -
  have free: "?Q (- 1, ep') u" "?Q (0, ep'\<lparr>sock := - 1\<rparr>) u" if "ledger s (\<lambda>x. 0) u" for ep' u
    using that by (simp_all add: one_def ledger_def)
  have none: "ledger s (\<lambda>x. 0) u" if "ledger s (one fd) u" "fd < 0" for fd u
    using that by (simp add: one_def ledger_def)
  show ?thesis
    unfolding ep_start_def Let_def
    apply (rule whenever_bindI, rule whenever_socket [OF assms], rule whenever_ifI)
     apply (rule whenever_bindI, erule keep_ledger, rule whenever_retI, rule free(1), erule (1) none)
    apply (rule whenever_bindI, erule keep_ledger)+
    apply (rule whenever_ifI)
     apply (rule whenever_bindI, erule keep_ledger)
     apply (rule whenever_bindI, erule whenever_close, simp)
     apply (rule whenever_bindI, rule whenever_getI, rule whenever_retI, simp add: ledger_def one_def)
    apply (rule whenever_bindI, rule whenever_mono, rule ledger_ep_join)
      apply simp
     apply simp
    apply (rule whenever_ifI)
     apply (rule whenever_retI, simp)
    apply (rule ledger_finish; simp)
    done
qed

text \<open>
  What \<open>open_ep\<close> leaves open: the socket of an endpoint that opened, nothing otherwise. An address in
  use counts as success, with the socket closed and marked by -1.
\<close>

definition opened_by :: "(int \<times> endpoint) option \<Rightarrow> int \<Rightarrow> int" where
  "opened_by r = (case r of Some (v, ep) \<Rightarrow> if v = 0 then one (sock ep) else (\<lambda>x. 0)
     | None \<Rightarrow> (\<lambda>x. 0))"

lemma calm_ep_addresses: "keeps calm (ep_addresses os ifa sp ep)"
  unfolding ep_addresses_def Let_def
  by (intro calm.keeps_intros calm_silent [OF silent_set_err] calm_silent [OF silent_sys])

lemma calm_ep_port: "keeps calm (ep_port os sv)"
  unfolding ep_port_def Let_def by (intro calm.keeps_intros calm_silent [OF silent_sys])

lemma whenever_optionI:
  "(v = None \<Longrightarrow> whenever m s Q) \<Longrightarrow> (\<And>x. v = Some x \<Longrightarrow> whenever (k x) s Q) \<Longrightarrow>
   whenever (case v of None \<Rightarrow> m | Some x \<Rightarrow> k x) s Q"
  by (cases v) simp_all

lemma ledger_open_ep: "whenever (open_ep os sv ifa) w (\<lambda>r t. ledger w (opened_by r) t)"
proof -
  let ?Q = "\<lambda>r t. ledger w (opened_by (Some r)) t"
  have failed: "whenever (ep_fail e n ep) t ?Q" if "ledger w (\<lambda>x. 0) t" for e n ep t
    using that by (simp add: ep_fail_def vc_simps opened_by_def ledger_def held_def)
  have start: "whenever (ep_start os sp ep) t ?Q" if "ledger w (\<lambda>x. 0) t" for sp ep t
    by (rule whenever_mono [OF ledger_ep_start [OF that]]) (auto simp: opened_by_def)
  have addr: "whenever (bind (ep_addresses os ifa sp ep) (\<lambda>(ok, ep).
      if \<not> ok then ret (- 1, ep) else ep_start os sp ep)) t ?Q" if "ledger w (\<lambda>x. 0) t" for sp ep t
    by (rule whenever_bindI, rule whenever_calm [OF calm_ep_addresses that])
      (auto simp: vc_simps opened_by_def intro!: start [unfolded opened_by_def, simplified])
  have body: "whenever (case sock_params (sv_family sv) of
       None \<Rightarrow> ep_fail ''open_ep: Unsupported address family'' EINVAL ep
     | Some sp \<Rightarrow>
         bind (ep_port os sv) (\<lambda>p.
         if is_inet (sv_family sv) \<and> p = 0 then ep_fail ''open_ep: No port number'' EADDRNOTAVAIL ep
         else
           bind (ep_addresses os ifa sp (ep\<lparr>port := p\<rparr>)) (\<lambda>(ok, ep).
           if \<not> ok then ret (- 1, ep) else ep_start os sp ep))) t ?Q"
    if "ledger w (\<lambda>x. 0) t" for ep t
    using that
    by (auto intro!: whenever_optionI whenever_ifI whenever_bindI whenever_calm [OF calm_ep_port that]
        failed addr)
  have rest: "whenever (bind (modify (\<lambda>w. w\<lparr>ep_errstr := None, ep_errno := 0\<rparr>)) (\<lambda>_.
      bind (m :: (int \<times> endpoint) M) (\<lambda>r. ret (Some r)))) t (\<lambda>r t. ledger w (opened_by r) t)"
    if "ledger w (\<lambda>x. 0) t" and "\<And>u. ledger w (\<lambda>x. 0) u \<Longrightarrow> whenever m u ?Q" for t m
  proof -
    have "ledger w (\<lambda>x. 0) (t\<lparr>ep_errstr := None, ep_errno := 0\<rparr>)"
      using that(1) by (simp add: ledger_def held_def)
    from that(2) [OF this] show ?thesis by (simp add: vc_simps)
  qed
  show ?thesis
    unfolding open_ep_def Let_def
    by (rule whenever_bindI, rule whenever_calm [OF calm_silent [OF silent_alloc] ledger_refl],
        rule whenever_ifI, rule whenever_retI, simp add: opened_by_def, erule rest, erule body)
qed

text \<open>
  C13. Opening an endpoint loses no descriptor: whichever step fails, the process holds afterwards what
  it held before and, when the endpoint opened, its socket; and nothing in it asks for a restart.
\<close>

theorem open_ep_descriptors:
  assumes "open_ep os sv ifa w = Inr (r, t)"
  shows "restart t = restart w \<and> (\<forall>fd. held t fd = held w fd + opened_by r fd)"
  using wheneverD [OF ledger_open_ep assms] by (simp add: ledger_def)

section \<open>What an endpoint is bound to\<close>

text \<open>A kernel that grants every request for descriptor \<open>fd\<close>; the port comes from the table.\<close>

definition willing :: "os \<Rightarrow> int \<Rightarrow> bool" where
  "willing os fd \<longleftrightarrow> mem_ok os \<and> 0 \<le> fd \<and> (\<forall>n fam ty pr. os_socket os n fam ty pr = Inr fd) \<and>
     (\<forall>n opt. os_setsockopt os n fd opt = 0) \<and> (\<forall>n sa. os_bind os n fd sa = 0) \<and>
     (\<forall>n. os_listen os n fd = 0) \<and> (\<forall>n s p. os_getservbyname os n s p = None)"

text \<open>The requests made for a service with a multicast group \<open>g\<close>, membership \<open>mr\<close>.\<close>

definition multicast_events :: "service \<Rightarrow> int \<Rightarrow> mreq \<Rightarrow> event list" where
  "multicast_events sv fd mr =
     (let fam = sv_family sv;
          any = \<lparr>ss_family = fam, sin_port = htons (port_num sv), sin_addr = replicate (addr_size fam) 0\<rparr> in
      [Ev_socket fam (sv_type sv) (sv_protocol sv) fd,
       Ev_setsockopt fd ''SO_REUSEADDR'' 0, Ev_setsockopt fd ''SO_REUSEPORT'' 0, Ev_bind fd any 0] @
      (if fam = AF_INET then [Ev_setsockopt fd ''IP_PKTINFO'' 0] else []) @
      [Ev_setsockopt fd (if fam = AF_INET then ''IP_MULTICAST_LOOP'' else ''IPV6_MULTICAST_LOOP'') 0,
       Ev_membership fd (if fam = AF_INET then ''IP_ADD_MEMBERSHIP'' else ''IPV6_ADD_MEMBERSHIP'') mr 0])"

text \<open>The membership requested: the group, and the interface by its address or its index.\<close>

definition group_request :: "os \<Rightarrow> nat \<Rightarrow> int \<Rightarrow> ifaddrs \<Rightarrow> byte list \<Rightarrow> mreq" where
  "group_request os k fam ifa g =
     (if fam = AF_INET then Ip_mreq g (if_bytes ifa)
      else Ipv6_mreq g (os_if_nametoindex os k (take 15 (ifa_name ifa))))"

lemma ep_addresses_run:
  assumes "is_inet (family ep)" and "mcast_addr (service ep) = Some a"
    and "inet_pton (family ep) a = Some g" and "ifa_addr ifa = Some ia"
    and "ifname ep = take 15 (ifa_name ifa)"
  shows "\<exists>ep' v. ep_addresses os ifa sp ep w = Inr ((True, ep'), v) \<and> trace v = trace w \<and>
    service ep' = service ep \<and> family ep' = family ep \<and> type ep' = type ep \<and>
    protocol ep' = protocol ep \<and> port ep' = port ep \<and>
    mreq ep' = group_request os (calls w) (family ep) ifa g \<and>
    mcast ep' = \<lparr>ss_family = family ep, sin_port = htons (port ep), sin_addr = g\<rparr> \<and>
    local ep' = \<lparr>ss_family = family ep, sin_port = htons (port ep),
      sin_addr = replicate (addr_size (family ep)) 0\<rparr>"
  using assms
  by (cases "family ep = AF_INET")
    (auto simp: ep_addresses_def Let_def bind_run sys_run ret_run group_request_def if_bytes_def)

lemma ep_start_run:
  assumes "willing os fd" and "mcast_addr (service ep) \<noteq> None" and "sock_params (family ep) = Some sp"
    and "is_inet (family ep)"
  shows "\<exists>v. ep_start os sp ep w = ep_finish os (ep\<lparr>sock := fd\<rparr>) v \<and> trace v = trace w @
    [Ev_socket (family ep) (type ep) (protocol ep) fd,
     Ev_setsockopt fd ''SO_REUSEADDR'' 0, Ev_setsockopt fd ''SO_REUSEPORT'' 0, Ev_bind fd (local ep) 0] @
    (if family ep = AF_INET then [Ev_setsockopt fd ''IP_PKTINFO'' 0] else []) @
    [Ev_setsockopt fd (if family ep = AF_INET then ''IP_MULTICAST_LOOP'' else ''IPV6_MULTICAST_LOOP'') 0,
     Ev_membership fd (if family ep = AF_INET then ''IP_ADD_MEMBERSHIP'' else ''IPV6_ADD_MEMBERSHIP'')
       (mreq ep) 0]"
proof -
  have fd: "\<not> fd < 0" using assms(1) by (simp add: willing_def)
  have calls: "os_socket os n fam ty pr = Inr fd" "os_setsockopt os n fd opt = 0"
    "os_bind os n fd sa = 0" for n fam ty pr opt sa
    using assms(1) by (simp_all add: willing_def)
  show ?thesis
    using assms(2,3,4)
    by (cases "family ep = AF_INET")
      (auto simp: ep_start_def ep_join_def sys_socket_def sys_setsockopt_def sys_membership_def
        sys_bind_def bind_run ret_run sys_run sys_status_run emit_run calls fd Let_def failing_def
        sock_params_def is_inet_def)
qed

lemma ep_port_run:
  assumes "willing os fd" and "is_inet (sv_family sv)" "0 \<le> sv_type sv" "sv_type sv \<le> 2"
    and "port_name sv = Some nm"
  shows "ep_port os sv w = Inr (port_num sv, w\<lparr>calls := Suc (calls w)\<rparr>)"
proof -
  have "os_getservbyname os n s p = None" for n s p
    using assms(1) by (simp add: willing_def)
  with assms(2-) show ?thesis by (simp add: ep_port_def Let_def bind_run sys_run ret_run)
qed

text \<open>
  C14. With a willing kernel a multicast service opens by exactly these requests: a socket bound to the
  service's port on every address, shared with other processes, with its own messages not looped
  back, and a member of the service's group on that interface. Then the service is started; when it
  does not start, the socket is closed.
\<close>

theorem open_ep_multicast:
  assumes will: "willing os fd" and sv: "is_inet (sv_family sv)" "sv_type sv = SOCK_DGRAM"
      "port_name sv = Some nm" "port_num sv \<noteq> 0" "mcast_addr sv = Some a"
    and g: "inet_pton (sv_family sv) a = Some g" and ifa: "ifa_addr ifa = Some ia"
    and mr: "mr = group_request os (calls w + 2) (sv_family sv) ifa g"
  shows "\<exists>ep v. open_ep os sv ifa w = bind (run_init os (sv_init sv) ep) (\<lambda>r.
       if r \<noteq> 0 then bind (sys_close fd) (\<lambda>_. ret (Some (- 1, ep))) else ret (Some (0, ep))) v \<and>
     trace v = trace w @ multicast_events sv fd mr \<and>
     service ep = sv \<and> sock ep = fd \<and> port ep = port_num sv \<and> mreq ep = mr \<and>
     mcast ep = \<lparr>ss_family = sv_family sv, sin_port = htons (port_num sv), sin_addr = g\<rparr>"
proof -
  let ?ep = "(new_ep sv ifa)\<lparr>port := port_num sv\<rparr>"
  let ?v = "w\<lparr>calls := Suc (calls w), ep_errstr := None, ep_errno := 0\<rparr>"
  let ?w = "?v\<lparr>calls := Suc (calls ?v)\<rparr>"
  have mem: "mem_ok os" using will by (simp add: willing_def)
  obtain sp where sp: "sock_params (sv_family sv) = Some sp"
    using sv(1) by (auto simp: sock_params_def is_inet_def)
  have fields: "family ?ep = sv_family sv" "service ?ep = sv" "type ?ep = sv_type sv"
    "protocol ?ep = sv_protocol sv" "port ?ep = port_num sv" "ifname ?ep = take 15 (ifa_name ifa)"
    by (simp_all add: new_ep_def Let_def)
  from ep_addresses_run [of ?ep a g ifa ia os sp ?w] obtain ep' v where
    addr: "ep_addresses os ifa sp ?ep ?w = Inr ((True, ep'), v)" and v: "trace v = trace w"
    and ep': "service ep' = sv" "family ep' = sv_family sv" "type ep' = sv_type sv"
      "protocol ep' = sv_protocol sv" "port ep' = port_num sv" "mreq ep' = mr"
      "mcast ep' = \<lparr>ss_family = sv_family sv, sin_port = htons (port_num sv), sin_addr = g\<rparr>"
      "local ep' = \<lparr>ss_family = sv_family sv, sin_port = htons (port_num sv),
        sin_addr = replicate (addr_size (sv_family sv)) 0\<rparr>"
    using sv g ifa mr unfolding fields by auto
  obtain u where start: "ep_start os sp ep' v = ep_finish os (ep'\<lparr>sock := fd\<rparr>) u"
    and u: "trace u = trace w @ multicast_events sv fd mr"
    using ep_start_run [OF will, of ep' sp v] sv sp v
    by (auto simp: ep' multicast_events_def Let_def)
  have port: "ep_port os sv ?v = Inr (port_num sv, ?w)"
    using sv(2) by (intro ep_port_run [OF will sv(1) _ _ sv(3)]) simp_all
  have "open_ep os sv ifa w = bind (ep_finish os (ep'\<lparr>sock := fd\<rparr>)) (\<lambda>r. ret (Some r)) u"
    by (simp only: open_ep_def Let_def bind_run alloc_ok [OF mem] modify_run sum.case prod.case
        not_True_eq_False if_False sp option.case port sv(4) simp_thms addr start)
  moreover have "bind (ep_finish os (ep'\<lparr>sock := fd\<rparr>)) (\<lambda>r. ret (Some r)) u =
      bind (run_init os (sv_init sv) (ep'\<lparr>sock := fd\<rparr>)) (\<lambda>r. if r \<noteq> 0
        then bind (sys_close fd) (\<lambda>_. ret (Some (- 1, ep'\<lparr>sock := fd\<rparr>)))
        else ret (Some (0, ep'\<lparr>sock := fd\<rparr>))) u"
    using sv(2) by (auto simp: ep_finish_def ep' bind_run ret_run split: sum.splits)
  ultimately show ?thesis
    using u ep' by (intro exI [of _ "ep'\<lparr>sock := fd\<rparr>"] exI [of _ u]) simp
qed

section \<open>The port\<close>

lemma htons_htons: "htons (htons p) = p"
  by (rule bit_word_eqI) (auto simp: htons_def bit_simps)

lemma start_same_local: "yields (\<lambda>r. local (snd r) = local ep) (ep_start os sp ep)"
  unfolding ep_start_def ep_finish_def Let_def by (intro yields_intros) simp_all

lemma addresses_port:
  "is_inet (family ep) \<Longrightarrow>
   yields (\<lambda>r. fst r \<longrightarrow> sin_port (local (snd r)) = htons (port ep)) (ep_addresses os ifa sp ep)"
  unfolding ep_addresses_def Let_def by (intro yields_intros) simp_all

lemma port_of_service:
  assumes "is_inet (sv_family sv)" and "port_name sv = Some nm"
    and "(sv_type sv, proto) \<in> {(SOCK_STREAM, ''tcp''), (SOCK_DGRAM, ''udp'')}"
    and "os_getservbyname os (calls w) nm proto = Some p" and "p \<noteq> 0"
  shows "ep_port os sv w = Inr (p, w\<lparr>calls := Suc (calls w)\<rparr>)"
  using assms by (auto simp: ep_port_def Let_def bind_run sys_run ret_run)

lemma bind_Some_Inr: "bind m (\<lambda>r. ret (Some r)) w = Inr (Some r, t) \<longleftrightarrow> m w = Inr (r, t)"
  by (auto simp: bind_eq_Inr ret_run)

lemma started_port:
  assumes "is_inet (family ep)"
  shows "yields (\<lambda>r. fst r = 0 \<longrightarrow> sin_port (local (snd r)) = htons (port ep))
    (bind (ep_addresses os ifa sp ep) (\<lambda>(ok, ep). if \<not> ok then ret (- 1 :: int, ep) else ep_start os sp ep))"
proof (rule yields_bind)
  fix r u v
  assume "ep_addresses os ifa sp ep u = Inr (r, v)"
  from yieldsD [OF addresses_port [OF assms] this]
  have p: "fst r \<longrightarrow> sin_port (local (snd r)) = htons (port ep)" by simp
  obtain ok e where r: "r = (ok, e)" by fastforce
  have "sin_port (local (snd q)) = htons (port ep)" if ok and "ep_start os sp e s = Inr (q, t)" for s q t
    using yieldsD [OF start_same_local that(2)] that(1) p by (simp add: r)
  then show "yields (\<lambda>r. fst r = 0 \<longrightarrow> sin_port (local (snd r)) = htons (port ep))
      (case r of (ok, ep) \<Rightarrow> if \<not> ok then ret (- 1 :: int, ep) else ep_start os sp ep)"
    by (auto simp: r yields_def ret_run)
qed

text \<open>
  C35. When the services database knows the service, the endpoint is bound to the wrong port: the number
  \<open>getservbyname\<close> gives is in network byte order already and is swapped a second time, so that port
  \<open>n\<close> is stored as \<open>n\<close> where \<open>htons n\<close> belongs.
\<close>

theorem open_ep_swapped_port:
  assumes run: "open_ep os sv ifa w = Inr (Some (0, ep), t)" and sv: "is_inet (sv_family sv)"
      "port_name sv = Some nm" "(sv_type sv, proto) \<in> {(SOCK_STREAM, ''tcp''), (SOCK_DGRAM, ''udp'')}"
    and se: "os_getservbyname os (calls w + 1) nm proto = Some (htons n)" "htons n \<noteq> 0"
  shows "sin_port (local ep) = n"
proof -
  let ?v = "w\<lparr>calls := Suc (calls w), ep_errstr := None, ep_errno := 0\<rparr>"
  let ?ep = "(new_ep sv ifa)\<lparr>port := htons n\<rparr>"
  have mem: "os_alloc os (calls w)"
    using run by (auto simp: open_ep_def alloc_def exec_simps split: if_splits)
  have port: "ep_port os sv ?v = Inr (htons n, ?v\<lparr>calls := Suc (calls ?v)\<rparr>)"
    using se by (intro port_of_service [OF sv]) simp_all
  have alloc: "alloc os w = Inr (True, w\<lparr>calls := Suc (calls w)\<rparr>)"
    using mem by (simp add: alloc_def bind_run sys_run ret_run)
  obtain sp where sp: "sock_params (sv_family sv) = Some sp"
    using sv(1) by (auto simp: sock_params_def is_inet_def)
  have fam: "is_inet (family ?ep)" using sv(1) by (simp add: new_ep_def Let_def)
  have body: "open_ep os sv ifa w = bind (bind (ep_addresses os ifa sp ?ep) (\<lambda>(ok, ep).
      if \<not> ok then ret (- 1, ep) else ep_start os sp ep)) (\<lambda>r. ret (Some r)) (?v\<lparr>calls := Suc (calls ?v)\<rparr>)"
    by (simp only: open_ep_def Let_def bind_run alloc modify_run sum.case prod.case
        not_True_eq_False if_False sp option.case port se(2) simp_thms)
  note started_port [OF fam, of os ifa sp]
  moreover from run have "bind (ep_addresses os ifa sp ?ep) (\<lambda>(ok, ep). if \<not> ok then ret (- 1, ep)
      else ep_start os sp ep) (?v\<lparr>calls := Suc (calls ?v)\<rparr>) = Inr ((0, ep), t)"
    unfolding body bind_Some_Inr .
  ultimately show ?thesis
    using yieldsD [of _ _ _ "(0 :: int, ep)"] by (fastforce simp: htons_htons)
qed

section \<open>Closing\<close>

lemma sum_held_close: "held (w\<lparr>trace := trace w @ [Ev_close fd]\<rparr>) x = held w x - (if fd = x then 1 else 0)"
  by (simp add: held_snoc)

text \<open>
  Closing an endpoint gives back its socket and no other descriptor, as the last action, after the
  service has said good-bye and the group has been left; it asks for no restart.
\<close>

lemma close_ep_descriptors:
  "whenever (close_ep os ep) w (\<lambda>_ t. restart t = restart w \<and> last (trace t) = Ev_close (sock ep) \<and>
     (\<forall>fd. held t fd = held w fd - (if fd = sock ep then 1 else 0)))"
proof -
  have leave: "keeps calm (if mcast_addr (service ep) = None then ret ()
      else (case sock_params (family ep) of None \<Rightarrow> crash OobRead
        | Some sp \<Rightarrow> bind (sys_membership os (sock ep) (ip_drop_membership sp) (mreq ep)) (\<lambda>_. ret ())))"
    by (intro calm.keeps_intros calm_sock_calls)
  have close: "whenever (sys_close (sock ep)) t (\<lambda>_ u. restart u = restart w \<and>
      last (trace u) = Ev_close (sock ep) \<and>
      (\<forall>fd. held u fd = held w fd - (if fd = sock ep then 1 else 0)))"
    if "ledger w (\<lambda>x. 0) t" for t
    using that by (auto simp: sys_close_def whenever_def emit_run sum_held_close ledger_def)
  show ?thesis
    unfolding close_ep_def
    by (rule whenever_bindI, rule whenever_calm [OF calm_run_exit ledger_refl],
        rule whenever_bindI, erule whenever_calm [OF leave], erule close)
qed

section \<open>Examples\<close>

definition willing_os :: os where
  "willing_os = lan_os\<lparr>os_socket := (\<lambda>n f t p. Inr 5)\<rparr>"

definition services_os :: os where
  "services_os = willing_os\<lparr>os_getservbyname := (\<lambda>n s p. Some (htons 5355))\<rparr>"

lemma pton_llmnr: "inet_pton AF_INET ''224.0.0.252'' = Some [224, 0, 0, 252]"
  by code_simp

lemma willing_os_ok: "willing willing_os 5"
  by (simp add: willing_def willing_os_def lan_os_def quiet_os_def mem_ok_def)

theorem open_ep_multicast_witness:
  "\<exists>t ep. open_ep willing_os plain_service eth0 zero_world = Inr (Some (0, ep), t) \<and>
     trace t = multicast_events plain_service 5 (Ip_mreq [224, 0, 0, 252] [192, 168, 1, 10])"
proof -
  have "\<exists>ep v. open_ep willing_os plain_service eth0 zero_world =
      bind (run_init willing_os (sv_init plain_service) ep) (\<lambda>r.
       if r \<noteq> 0 then bind (sys_close 5) (\<lambda>_. ret (Some (- 1, ep))) else ret (Some (0, ep))) v \<and>
     trace v = trace zero_world @ multicast_events plain_service 5 (Ip_mreq [224, 0, 0, 252] [192, 168, 1, 10]) \<and>
     service ep = plain_service \<and> sock ep = 5 \<and> port ep = port_num plain_service \<and>
     mreq ep = Ip_mreq [224, 0, 0, 252] [192, 168, 1, 10] \<and>
     mcast ep = \<lparr>ss_family = sv_family plain_service, sin_port = htons (port_num plain_service),
       sin_addr = [224, 0, 0, 252]\<rparr>"
    by (rule open_ep_multicast [OF willing_os_ok, where a = "''224.0.0.252''" and nm = "''llmnr''" and
          ia = "\<lparr>ss_family = AF_INET, sin_port = 0, sin_addr = [192, 168, 1, 10]\<rparr>"])
      (use pton_llmnr in \<open>simp_all add: plain_service_def is_inet_def eth0_def group_request_def if_bytes_def\<close>)
  then show ?thesis
    by (auto simp: plain_service_def run_init_def llmnr_init_def zero_world_def bind_run ret_run)
qed

lemma open_fails: "\<exists>t ep. open_ep lan_os plain_service eth0 zero_world = Inr (Some (- 1, ep), t)"
  using pton_llmnr
  by (simp add: open_ep_def alloc_def new_ep_def Let_def sock_params_def ep_port_def ep_addresses_def
      ep_start_def sys_socket_def failing_def exec_simps plain_service_def is_inet_def eth0_def
      lan_os_def quiet_os_def)

theorem open_ep_descriptors_witness:
  "\<exists>t ep. open_ep lan_os plain_service eth0 zero_world = Inr (Some (- 1, ep), t) \<and>
     held t 5 = held zero_world 5"
proof -
  from open_fails obtain t ep where
    t: "open_ep lan_os plain_service eth0 zero_world = Inr (Some (- 1, ep), t)" by blast
  with open_ep_descriptors [OF t] show ?thesis by (auto simp: opened_by_def)
qed

lemma services_open: "\<exists>t ep. open_ep services_os plain_service eth0 zero_world = Inr (Some (0, ep), t)"
  using pton_llmnr
  by (simp add: open_ep_def alloc_def new_ep_def Let_def sock_params_def ep_port_def ep_addresses_def
      ep_start_def ep_join_def ep_finish_def sys_socket_def sys_setsockopt_def sys_bind_def
      sys_membership_def run_init_def llmnr_init_def failing_def exec_simps plain_service_def
      is_inet_def eth0_def services_os_def willing_os_def lan_os_def quiet_os_def htons_def)

theorem open_ep_swapped_port_witness:
  "\<exists>t ep. open_ep services_os plain_service eth0 zero_world = Inr (Some (0, ep), t) \<and>
     sin_port (local ep) = 5355 \<and> htons 5355 \<noteq> 5355"
proof -
  from services_open obtain t ep where
    t: "open_ep services_os plain_service eth0 zero_world = Inr (Some (0, ep), t)" by blast
  have "sin_port (local ep) = 5355"
    by (rule open_ep_swapped_port [OF t, where nm = "''llmnr''" and proto = "''udp''"])
      (simp_all add: plain_service_def is_inet_def services_os_def htons_def)
  with t show ?thesis by (auto simp: htons_def)
qed

end
