(* ===== verification/Main_Loop.thy ===== *)
theory Main_Loop
  imports Endpoint_Props
begin

text \<open>
  The main program of wsdd2.c: the table of services, the options, and the life of the daemon as a
  state machine whose steps are the parts of \<open>main\<close>: opening the endpoints, \<open>select\<close>, one receive
  handler, closing one endpoint, starting again or ending. Signals are steps of their own.
\<close>

unbundle bit_operations_syntax

section \<open>The services\<close>

definition wsdd_mcast :: "string \<Rightarrow> int \<Rightarrow> string \<Rightarrow> service" where
  "wsdd_mcast nm fam grp = \<lparr>name = nm, sv_family = fam, sv_type = SOCK_DGRAM, sv_protocol = 0,
     port_name = Some ''wsdd'', port_num = 3702, mcast_addr = Some grp, nl_groups = 0,
     sv_init = Some Wsd_init, sv_recv = Some Wsd_recv, sv_exit = Some Wsd_exit\<rparr>"

definition wsdd_http :: "string \<Rightarrow> int \<Rightarrow> service" where
  "wsdd_http nm fam = \<lparr>name = nm, sv_family = fam, sv_type = SOCK_STREAM, sv_protocol = 0,
     port_name = Some ''wsdd'', port_num = 3702, mcast_addr = None, nl_groups = 0,
     sv_init = None, sv_recv = Some Wsd_recv, sv_exit = None\<rparr>"

definition llmnr_service :: "string \<Rightarrow> int \<Rightarrow> int \<Rightarrow> string option \<Rightarrow> service" where
  "llmnr_service nm fam ty grp = \<lparr>name = nm, sv_family = fam, sv_type = ty, sv_protocol = 0,
     port_name = Some ''llmnr'', port_num = 5355, mcast_addr = grp, nl_groups = 0,
     sv_init = Some Llmnr_init, sv_recv = Some Llmnr_recv, sv_exit = Some Llmnr_exit\<rparr>"

definition netlink_service :: service where
  "netlink_service = \<lparr>name = ''ifaddr-netlink-v4v6'', sv_family = AF_NETLINK, sv_type = SOCK_RAW,
     sv_protocol = 0, port_name = None, port_num = 0, mcast_addr = None,
     nl_groups = 0x1 OR 0x10 OR 0x100, sv_init = None, sv_recv = Some Netlink_recv, sv_exit = None\<rparr>"

definition services :: "service list" where
  "services =
     [wsdd_mcast ''wsdd-mcast-v4'' AF_INET ''239.255.255.250'',
      wsdd_mcast ''wsdd-mcast-v6'' AF_INET6 ''ff02::c'',
      wsdd_http ''wsdd-http-v4'' AF_INET,
      wsdd_http ''wsdd-http-v6'' AF_INET6,
      llmnr_service ''llmnr-mcast-v4'' AF_INET SOCK_DGRAM (Some ''224.0.0.252''),
      llmnr_service ''llmnr-mcast-v6'' AF_INET6 SOCK_DGRAM (Some ''ff02::1:3''),
      llmnr_service ''llmnr-tcp-v4'' AF_INET SOCK_STREAM None,
      llmnr_service ''llmnr-tcp-v6'' AF_INET6 SOCK_STREAM None,
      netlink_service]"

section \<open>Options\<close>

record opts =
  ipv46 :: "32 word"
  tcpudp :: "32 word"
  llmnrwsdd :: "32 word"
  daemon :: bool
  debug_L :: int
  debug_W :: int

text \<open>
  The library function \<open>getopt\<close> with the option string of \<open>main\<close>: the options in their order, each with
  its argument. Only \<open>b\<close> takes one; what is not an option comes out as a question mark, arguments
  that are no options are passed over.
\<close>

fun cluster :: "string \<Rightarrow> string list \<Rightarrow> (char \<times> string option) list \<times> string list" where
  "cluster [] rest = ([], rest)"
| "cluster (c # cs) rest =
     (if c = CHR ''b'' then
        (if cs \<noteq> [] then ([(c, Some cs)], rest)
         else case rest of [] \<Rightarrow> ([(CHR ''?'', None)], []) | a # r \<Rightarrow> ([(c, Some a)], r))
      else let (xs, r) = cluster cs rest in
        ((if c \<in> set ''?46LWdhltuw'' then c else CHR ''?'', None) # xs, r))"

lemma cluster_shorter: "cluster cs rest = (xs, r) \<Longrightarrow> length r \<le> length rest"
  by (induction cs rest arbitrary: xs rule: cluster.induct)
    (auto split: if_splits list.splits prod.splits simp: Let_def)

function getopts :: "string list \<Rightarrow> (char \<times> string option) list" where
  "getopts [] = []"
| "getopts (a # rest) =
     (if a = ''--'' then []
      else if a \<noteq> [] \<and> hd a = CHR ''-'' \<and> a \<noteq> ''-'' then
        (let (xs, r) = cluster (tl a) rest in xs @ getopts r)
      else getopts rest)"
  by pat_completeness auto
termination
  by (relation "measure length") (auto dest: cluster_shorter [OF sym])

text \<open>
  The loop over the settings of option \<open>b\<close>, which may run forever. The result is false when a setting
  is bad and the help text ends the program.
\<close>

partial_function (option) boot_loop ::
    "os \<Rightarrow> string option \<Rightarrow> world \<Rightarrow> (fault + (bool \<times> world)) option" where
  "boot_loop os optarg w =
     (case optarg of None \<Rightarrow> Some (Inr (True, w))
      | Some s \<Rightarrow>
          (case set_getresp os s True w of Inl f \<Rightarrow> Some (Inl f)
           | Inr (r, w') \<Rightarrow>
               if fst r \<noteq> 0 then Some (Inr (False, w')) else boot_loop os (snd r) w'))"

text \<open>The switch of the option loop; the left value is the exit code of the help text.\<close>

definition flag_option :: "char \<Rightarrow> opts \<Rightarrow> int + opts" where
  "flag_option c o' =
     (if c = CHR ''L'' then Inr (o'\<lparr>debug_L := debug_L o' + 1\<rparr>)
      else if c = CHR ''W'' then Inr (o'\<lparr>debug_W := debug_W o' + 1\<rparr>)
      else if c = CHR ''d'' then Inr (o'\<lparr>daemon := True\<rparr>)
      else if c = CHR ''?'' \<or> c = CHR ''h'' then Inl 0
      else if c = CHR ''4'' then Inr (o'\<lparr>ipv46 := ipv46 o' OR 1\<rparr>)
      else if c = CHR ''6'' then Inr (o'\<lparr>ipv46 := ipv46 o' OR 2\<rparr>)
      else if c = CHR ''l'' then Inr (o'\<lparr>llmnrwsdd := llmnrwsdd o' OR 1\<rparr>)
      else if c = CHR ''w'' then Inr (o'\<lparr>llmnrwsdd := llmnrwsdd o' OR 2\<rparr>)
      else if c = CHR ''t'' then Inr (o'\<lparr>tcpudp := tcpudp o' OR 1\<rparr>)
      else if c = CHR ''u'' then Inr (o'\<lparr>tcpudp := tcpudp o' OR 2\<rparr>)
      else Inl 1)"

fun option_loop ::
    "os \<Rightarrow> (char \<times> string option) list \<Rightarrow> opts \<Rightarrow> world \<Rightarrow> (fault + ((int + opts) \<times> world)) option" where
  "option_loop os [] o' w = Some (Inr (Inr o', w))"
| "option_loop os ((c, arg) # items) o' w =
     (if c = CHR ''b'' then
       (case boot_loop os arg w of None \<Rightarrow> None | Some (Inl f) \<Rightarrow> Some (Inl f)
        | Some (Inr (ok, w')) \<Rightarrow>
            if ok then option_loop os items o' w' else Some (Inr (Inl 1, w')))
      else (case flag_option c o' of Inl ec \<Rightarrow> Some (Inr (Inl ec, w))
        | Inr o'' \<Rightarrow> option_loop os items o'' w))"

definition no_opts :: opts where
  "no_opts = \<lparr>ipv46 = 0, tcpudp = 0, llmnrwsdd = 0, daemon = False, debug_L = 0, debug_W = 0\<rparr>"

definition default_opts :: "opts \<Rightarrow> opts" where
  "default_opts o' = o'\<lparr>
     ipv46 := (if ipv46 o' = 0 then 1 OR 2 else ipv46 o'),
     llmnrwsdd := (if llmnrwsdd o' = 0 then 1 OR 2 else llmnrwsdd o'),
     tcpudp := (if tcpudp o' = 0 then 1 OR 2 else tcpudp o')\<rparr>"

definition main_options :: "os \<Rightarrow> string list \<Rightarrow> world \<Rightarrow> (fault + ((int + opts) \<times> world)) option" where
  "main_options os args w =
     map_option (map_sum id (\<lambda>(r, w'). (map_sum id default_opts r, w'))) (option_loop os (getopts args) no_opts w)"

section \<open>Opening the endpoints\<close>

text \<open>Which services the options ask for, and which interfaces a service is opened on.\<close>

definition wanted :: "opts \<Rightarrow> service \<Rightarrow> bool" where
  "wanted o' sv \<longleftrightarrow>
     \<not> (ipv46 o' AND 1 = 0 \<and> sv_family sv = AF_INET) \<and>
     \<not> (ipv46 o' AND 2 = 0 \<and> sv_family sv = AF_INET6) \<and>
     \<not> (tcpudp o' AND 1 = 0 \<and> sv_type sv = SOCK_STREAM) \<and>
     \<not> (tcpudp o' AND 2 = 0 \<and> sv_type sv = SOCK_DGRAM) \<and>
     \<not> (llmnrwsdd o' AND 1 = 0 \<and> strstr (name sv) ''llmnr'' \<noteq> None) \<and>
     \<not> (llmnrwsdd o' AND 2 = 0 \<and> strstr (name sv) ''wsdd'' \<noteq> None)"

definition IFF_LOOPBACK :: "32 word" where "IFF_LOOPBACK = 0x8"
definition IFF_MULTICAST :: "32 word" where "IFF_MULTICAST = 0x1000"

definition usable :: "service \<Rightarrow> ifaddrs \<Rightarrow> bool" where
  "usable sv ifa \<longleftrightarrow> (case ifa_addr ifa of None \<Rightarrow> False
     | Some a \<Rightarrow> ss_family a = sv_family sv \<and> ifa_flags ifa AND IFF_LOOPBACK = 0 \<and>
         ifa_name ifa \<noteq> ''LeafNets'' \<and> \<not> strncmp_eq (ifa_name ifa) ''docker'' 6 \<and>
         \<not> strncmp_eq (ifa_name ifa) ''veth'' 4 \<and> \<not> strncmp_eq (ifa_name ifa) ''tun'' 3 \<and>
         \<not> strncmp_eq (ifa_name ifa) ''zt'' 2 \<and>
         \<not> (mcast_addr sv \<noteq> None \<and> ifa_flags ifa AND IFF_MULTICAST = 0))"

text \<open>\<open>FD_SET\<close>: the set has room for 1024 descriptors.\<close>

definition fd_set :: "int \<Rightarrow> unit M" where
  "fd_set fd = (if 0 \<le> fd \<and> fd < 1024 then ret () else crash OobWrite)"

text \<open>None when memory is out, which ends the process.\<close>

fun open_ifaces :: "os \<Rightarrow> service \<Rightarrow> ifaddrs list \<Rightarrow> endpoint list \<Rightarrow> endpoint list option M" where
  "open_ifaces os sv [] eps = ret (Some eps)"
| "open_ifaces os sv (ifa # ifas) eps =
     (if \<not> usable sv ifa then open_ifaces os sv ifas eps
      else bind (open_ep os sv ifa) (\<lambda>r. case r of None \<Rightarrow> ret None
        | Some (rv, ep) \<Rightarrow>
            if rv \<noteq> 0 then
              bind (get ep_errstr) (\<lambda>e.
              bind (emit (Ev_syslog (''error: '' @ name sv @ '': '' @
                (case e of Some s \<Rightarrow> s | None \<Rightarrow> ''(null)'')))) (\<lambda>_.
              open_ifaces os sv ifas eps))
            else if sock ep < 0 then open_ifaces os sv ifas eps
            else bind (fd_set (sock ep)) (\<lambda>_. open_ifaces os sv ifas (ep # eps))))"

text \<open>What is known of the endpoint that keeps the program from starting: service, text, number.\<close>

type_synonym bad_ep = "string \<times> string \<times> int"

definition netlink_ifa :: ifaddrs where
  "netlink_ifa = \<lparr>ifa_name = ''netlink'', ifa_flags = 0, ifa_addr = None, ifa_netmask = None\<rparr>"

fun open_services ::
    "os \<Rightarrow> opts \<Rightarrow> ifaddrs list \<Rightarrow> service list \<Rightarrow> endpoint list \<Rightarrow> (endpoint list \<times> bad_ep option) option M"
where
  "open_services os o' ifas [] eps = ret (Some (eps, None))"
| "open_services os o' ifas (sv # svs) eps =
     (if \<not> wanted o' sv then open_services os o' ifas svs eps
      else if is_inet (sv_family sv) then
        bind (open_ifaces os sv ifas eps) (\<lambda>r. case r of None \<Rightarrow> ret None
          | Some eps \<Rightarrow> open_services os o' ifas svs eps)
      else if sv_family sv = AF_NETLINK then
        bind (open_ep os sv netlink_ifa) (\<lambda>r. case r of None \<Rightarrow> ret None
          | Some (rv, ep) \<Rightarrow>
              if rv \<noteq> 0 then
                bind (get (\<lambda>w. (case ep_errstr w of Some s \<Rightarrow> s | None \<Rightarrow> [], ep_errno w))) (\<lambda>(s, e).
                ret (Some (eps, Some (name sv, s, e))))
              else if sock ep < 0 then open_services os o' ifas svs eps
              else bind (fd_set (sock ep)) (\<lambda>_. open_services os o' ifas svs (ep # eps)))
      else open_services os o' ifas svs eps)"

section \<open>The life of the daemon\<close>

datatype mstate =
    Starting                                            \<comment> \<open>at the label \<open>again\<close>\<close>
  | Selecting "endpoint list"                           \<comment> \<open>before \<open>select\<close>\<close>
  | Dispatching "endpoint list" "endpoint list" nat "int list"
      \<comment> \<open>all endpoints; those still to look at; how many are ready; which\<close>
  | Ending "endpoint list" "bad_ep option" int          \<comment> \<open>at the label \<open>end\<close>; endpoints not yet closed\<close>
  | Exited int                                          \<comment> \<open>\<open>main\<close> has returned or called \<open>err\<close>\<close>
  | Aborted                                             \<comment> \<open>ended by \<open>err\<close> inside \<open>open_ep\<close>\<close>

definition run_recv :: "os \<Rightarrow> recv_fn \<Rightarrow> endpoint \<Rightarrow> outcome M" where
  "run_recv os f ep = (case f of
       Wsd_recv \<Rightarrow> returning (wsd_recv os ep)
     | Llmnr_recv \<Rightarrow> returning (llmnr_recv os ep)
     | Netlink_recv \<Rightarrow> netlink_recv os ep)"

text \<open>\<open>sighandler\<close>: the value \<open>restart\<close> gets.\<close>

definition SIGHUP :: int where "SIGHUP = 1"
definition SIGINT :: int where "SIGINT = 2"
definition SIGTERM :: int where "SIGTERM = 15"

definition sighandler :: "int \<Rightarrow> int" where
  "sighandler sig = (if sig = SIGHUP then 1 else 2)"

fun sigactions :: "os \<Rightarrow> int list \<Rightarrow> bool M" where
  "sigactions os [] = ret True"
| "sigactions os (sig # sigs) =
     bind (sys_status (\<lambda>n. os_sigaction os n sig)) (\<lambda>r.
     if r \<noteq> 0 then ret False else sigactions os sigs)"

definition start_step :: "os \<Rightarrow> opts \<Rightarrow> mstate M" where
  "start_step os o' =
     bind (sigactions os [SIGINT, SIGHUP, SIGTERM]) (\<lambda>ok.
     if \<not> ok then ret (Exited 1) else
     bind (failing (os_getifaddrs os)) (\<lambda>r. case r of None \<Rightarrow> ret (Exited 1)
     | Some ifas \<Rightarrow>
         bind (open_services os o' ifas services []) (\<lambda>r. case r of None \<Rightarrow> ret Aborted
         | Some (eps, None) \<Rightarrow> ret (Selecting eps)
         | Some (eps, Some bad) \<Rightarrow> ret (Ending eps (Some bad) 0))))"

definition select_step :: "os \<Rightarrow> endpoint list \<Rightarrow> mstate M" where
  "select_step os eps =
     bind (failing (\<lambda>n. os_select os n (map sock eps))) (\<lambda>r. case r of
       None \<Rightarrow> bind (get errno) (\<lambda>e.
         if e \<noteq> EINTR then bind (emit (Ev_syslog ''main: select'')) (\<lambda>_. ret (Ending eps None 1))
         else ret (Ending eps None 0))
     | Some rfds \<Rightarrow>
         let ready = remdups (filter (\<lambda>fd. fd \<in> sock ` set eps) rfds) in
         ret (Dispatching eps eps (length ready) ready))"

definition dispatch_step :: "os \<Rightarrow> endpoint list \<Rightarrow> endpoint list \<Rightarrow> nat \<Rightarrow> int list \<Rightarrow> mstate M" where
  "dispatch_step os eps rest n ready =
     (case (n, rest) of
        (Suc m, ep # eps') \<Rightarrow>
          if sock ep \<notin> set ready then ret (Dispatching eps eps' n ready)
          else (case sv_recv (service ep) of None \<Rightarrow> ret (Dispatching eps eps' m ready)
            | Some f \<Rightarrow>
                bind (bind (run_recv os f ep) after_recv) (\<lambda>r. case r of
                  Jump \<Rightarrow> ret (Ending eps None 0)
                | Return _ \<Rightarrow> ret (Dispatching eps eps' m ready)))
      | _ \<Rightarrow> bind (get restart) (\<lambda>r. ret (if r = 0 then Selecting eps else Ending eps None 0)))"

definition end_step :: "os \<Rightarrow> endpoint list \<Rightarrow> bad_ep option \<Rightarrow> int \<Rightarrow> mstate M" where
  "end_step os eps bad rv =
     (case eps of
        ep # eps' \<Rightarrow> bind (close_ep os ep) (\<lambda>_. ret (Ending eps' bad rv))
      | [] \<Rightarrow> (case bad of
          Some (nm, s, e) \<Rightarrow>
            bind (emit (Ev_syslog (nm @ '': '' @ s @ '': terminating.''))) (\<lambda>_. ret (Exited 1))
        | None \<Rightarrow> bind (get restart) (\<lambda>r.
            if r = 1 then bind (modify (\<lambda>w. w\<lparr>restart := 0\<rparr>)) (\<lambda>_. ret Starting)
            else bind (emit (Ev_syslog ''terminating.'')) (\<lambda>_. ret (Exited rv)))))"

definition main_step :: "os \<Rightarrow> opts \<Rightarrow> mstate \<Rightarrow> mstate M" where
  "main_step os o' m = (case m of
       Starting \<Rightarrow> start_step os o'
     | Selecting eps \<Rightarrow> select_step os eps
     | Dispatching eps rest n ready \<Rightarrow> dispatch_step os eps rest n ready
     | Ending eps bad rv \<Rightarrow> end_step os eps bad rv
     | Exited rv \<Rightarrow> ret (Exited rv)
     | Aborted \<Rightarrow> ret Aborted)"

text \<open>Before the loop: the process may go into the background; then the program reports that it starts.\<close>

definition main_enter :: "os \<Rightarrow> opts \<Rightarrow> mstate M" where
  "main_enter os o' =
     bind (if daemon o' then bind (failing (os_fork os)) (\<lambda>r. ret (case r of
         None \<Rightarrow> Some 1 | Some pid \<Rightarrow> if pid \<noteq> 0 then Some 0 else None))
       else ret None) (\<lambda>ec. case ec of
       Some ec \<Rightarrow> ret (Exited ec)
     | None \<Rightarrow> bind (emit (Ev_syslog ''starting.'')) (\<lambda>_. ret Starting))"

text \<open>
  The steps of the process: a part of \<open>main\<close>, or a signal whose handler is in place. A signal while
  a part runs is one before or after it: the flag is only looked at between the parts, and
  \<open>select\<close>, \<open>accept\<close> and \<open>recv\<close> that it interrupts fail with \<open>EINTR\<close>, as the surroundings may decide.
  At the label \<open>again\<close> the handlers are in place from the second time on; a signal before the first time
  ends the process, and allowing it as a step there only adds runs to those the invariants cover.
\<close>

fun halted :: "mstate \<Rightarrow> bool" where
  "halted (Exited rv) = True"
| "halted Aborted = True"
| "halted _ = False"

inductive mstep :: "os \<Rightarrow> opts \<Rightarrow> mstate \<times> world \<Rightarrow> mstate \<times> world \<Rightarrow> bool" for os o' where
  work: "\<not> halted m \<Longrightarrow> main_step os o' m w = Inr (m', w') \<Longrightarrow> mstep os o' (m, w) (m', w')"
| signal: "\<not> halted m \<Longrightarrow> sig \<in> {SIGINT, SIGHUP, SIGTERM} \<Longrightarrow>
    mstep os o' (m, w) (m, w\<lparr>restart := sighandler sig\<rparr>)"

inductive_cases mstepE: "mstep os o' (m, w) (m', w')"

inductive reachable :: "os \<Rightarrow> opts \<Rightarrow> world \<Rightarrow> mstate \<times> world \<Rightarrow> bool" for os o' w0 where
  start: "reachable os o' w0 (Starting, w0)"
| step: "reachable os o' w0 c \<Longrightarrow> mstep os o' c c' \<Longrightarrow> reachable os o' w0 c'"

end
