(* ===== verification/Main_Props.thy ===== *)
theory Main_Props
  imports Main_Loop
begin

text \<open>
  Properties of the main program: the descriptors and endpoints of every reachable state, the ends
  that a shutdown comes to, what becomes of a request to terminate, and the options.
\<close>

section \<open>The endpoints of a state\<close>

fun open_eps :: "mstate \<Rightarrow> endpoint list" where
  "open_eps (Selecting eps) = eps"
| "open_eps (Dispatching eps rest n ready) = eps"
| "open_eps (Ending eps bad rv) = eps"
| "open_eps _ = []"

definition owned :: "endpoint list \<Rightarrow> int \<Rightarrow> int" where
  "owned eps x = sum_list (map (\<lambda>e. one (sock e) x) eps)"

lemma owned_simps [simp]: "owned [] x = 0" "owned (e # eps) x = one (sock e) x + owned eps x"
  by (simp_all add: owned_def)

text \<open>
  The shape \<open>open_ep\<close> gives an endpoint: its kind and lengths are those of its service and family, its
  port is that of the service or one the services database named, it is bound to that port on any
  address (to the groups of the service, for netlink), and a service with a group has the group's
  address and a request to join it.
\<close>

definition grouped :: "endpoint \<Rightarrow> string \<Rightarrow> bool" where
  "grouped ep a \<longleftrightarrow> (\<exists>g i j. inet_pton (family ep) a = Some g \<and>
     mcast ep = \<lparr>ss_family = family ep, sin_port = htons (port ep), sin_addr = g\<rparr> \<and>
     (family ep = AF_INET \<and> mreq ep = Ip_mreq g i \<or> family ep \<noteq> AF_INET \<and> mreq ep = Ipv6_mreq g j))"

definition port_from :: "os \<Rightarrow> service \<Rightarrow> 16 word \<Rightarrow> bool" where
  "port_from os sv p \<longleftrightarrow> p = port_num sv \<or> (\<exists>n nm pr. os_getservbyname os n nm pr = Some p)"

definition shaped :: "os \<Rightarrow> endpoint \<Rightarrow> bool" where
  "shaped os ep \<longleftrightarrow>
     type ep = sv_type (service ep) \<and> protocol ep = sv_protocol (service ep) \<and>
     (\<exists>sp. sock_params (family ep) = Some sp \<and> llen ep = sp_llen sp \<and> mlen ep = sp_llen sp \<and>
        mreqlen ep = sp_mreqlen sp) \<and>
     (is_inet (family ep) \<longrightarrow> port ep \<noteq> 0 \<and> port_from os (service ep) (port ep) \<and>
        local ep = \<lparr>ss_family = family ep, sin_port = htons (port ep), sin_addr = replicate (addr_size (family ep)) 0\<rparr> \<and>
        (mcast_addr (service ep) = None \<longrightarrow> mreq ep = No_mreq) \<and>
        (\<forall>a. mcast_addr (service ep) = Some a \<longrightarrow> grouped ep a)) \<and>
     (\<not> is_inet (family ep) \<longrightarrow> port ep = 0 \<and> mreq ep = No_mreq \<and>
        local ep = \<lparr>ss_family = family ep, sin_port = 0, sin_addr = enc32 (unat (nl_groups (service ep)))\<rparr>)"

text \<open>An endpoint of the loop: opened for a service of the table that the options ask for.\<close>

definition ep_ok :: "os \<Rightarrow> opts \<Rightarrow> endpoint \<Rightarrow> bool" where
  "ep_ok os o' ep \<longleftrightarrow> 0 \<le> sock ep \<and> sock ep < 1024 \<and> service ep \<in> set services \<and>
     wanted o' (service ep) \<and> family ep = sv_family (service ep) \<and> shaped os ep"

text \<open>What the loop owns in addition to a state \<open>s\<close>.\<close>

definition owns :: "os \<Rightarrow> opts \<Rightarrow> world \<Rightarrow> endpoint list \<Rightarrow> world \<Rightarrow> bool" where
  "owns os o' s eps t \<longleftrightarrow> ledger s (owned eps) t \<and> (\<forall>e \<in> set eps. ep_ok os o' e)"

section \<open>Opening keeps the account\<close>

lemma yields_bindP:
  "yields P m \<Longrightarrow> (\<And>a. P a \<Longrightarrow> yields Q (k a)) \<Longrightarrow> yields Q (bind m k)"
  unfolding yields_def bind_eq_Inr by blast

definition opened_as :: "service \<Rightarrow> endpoint \<Rightarrow> bool" where
  "opened_as sv ep \<longleftrightarrow> service ep = sv \<and> family ep = sv_family sv"

lemma ep_start_as:
  "opened_as sv ep \<Longrightarrow> yields (\<lambda>r. opened_as sv (snd r)) (ep_start os sp ep)"
  unfolding ep_start_def ep_finish_def Let_def
  by (intro yields_intros) (simp_all add: opened_as_def)

lemma ep_addresses_as:
  "opened_as sv ep \<Longrightarrow> yields (\<lambda>r. opened_as sv (snd r)) (ep_addresses os ifa sp ep)"
  unfolding ep_addresses_def Let_def
  by (intro yields_intros) (simp_all add: opened_as_def)

lemma shaped_sock: "shaped os (ep\<lparr>sock := fd\<rparr>) = shaped os ep"
  by (simp add: shaped_def grouped_def)

lemma ep_start_shaped: "shaped os ep \<Longrightarrow> yields (\<lambda>r. shaped os (snd r)) (ep_start os sp ep)"
  unfolding ep_start_def ep_finish_def Let_def
  by (intro yields_intros) (simp_all add: shaped_sock)

definition port_ok :: "os \<Rightarrow> service \<Rightarrow> 16 word \<Rightarrow> bool" where
  "port_ok os sv p \<longleftrightarrow> (is_inet (sv_family sv) \<longrightarrow> port_from os sv p) \<and> (\<not> is_inet (sv_family sv) \<longrightarrow> p = 0)"

lemma ep_port_yields: "yields (port_ok os sv) (ep_port os sv)"
  by (auto simp: yields_def ep_port_def port_ok_def port_from_def Let_def bind_run sys_run ret_run crash_run
      split: if_splits option.splits)

lemma ep_addresses_shaped:
  assumes "ep = new_ep sv ifa\<lparr>port := p\<rparr>" and sp: "sock_params (sv_family sv) = Some sp"
    and p: "port_ok os sv p" "is_inet (sv_family sv) \<Longrightarrow> p \<noteq> 0"
  shows "yields (\<lambda>r. fst r \<longrightarrow> shaped os (snd r)) (ep_addresses os ifa sp ep)"
proof -
  have ep: "family ep = sv_family sv" "service ep = sv" "type ep = sv_type sv" "protocol ep = sv_protocol sv"
    "port ep = p" "mreq ep = No_mreq"
    by (simp_all add: assms(1) new_ep_def Let_def)
  show ?thesis
    unfolding ep_addresses_def Let_def
    by (intro yields_intros) (use sp p in \<open>simp_all add: shaped_def grouped_def port_ok_def ep\<close>,
        auto simp: bind_run sys_run ret_run crash_run split: if_splits option.splits)
qed

lemma open_ep_as:
  "yields (\<lambda>r. \<forall>v ep. r = Some (v, ep) \<longrightarrow> opened_as sv ep \<and> (v = 0 \<longrightarrow> shaped os ep)) (open_ep os sv ifa)"
proof -
  let ?P = "\<lambda>r :: int \<times> endpoint. opened_as sv (snd r) \<and> (fst r = 0 \<longrightarrow> shaped os (snd r))"
  have new: "opened_as sv (new_ep sv ifa)" "opened_as sv (new_ep sv ifa\<lparr>port := p\<rparr>)" for p
    by (simp_all add: opened_as_def new_ep_def Let_def)
  have fail: "yields ?P (ep_fail s e (new_ep sv ifa))" for s e
    unfolding ep_fail_def by (intro yields_bind yields_ret) (simp add: new)
  have start: "yields ?P (ep_start os sp ep)" if "opened_as sv ep" "shaped os ep" for sp ep
    using ep_start_as [OF that(1)] ep_start_shaped [OF that(2)] unfolding yields_def by blast
  have addr: "yields ?P (bind (ep_addresses os ifa sp (new_ep sv ifa\<lparr>port := p\<rparr>)) (\<lambda>(ok, ep).
      if \<not> ok then ret (- 1, ep) else ep_start os sp ep))"
    if "sock_params (sv_family sv) = Some sp" "port_ok os sv p" "is_inet (sv_family sv) \<Longrightarrow> p \<noteq> 0" for sp p
  proof (rule yields_bindP)
    show "yields (\<lambda>r. opened_as sv (snd r) \<and> (fst r \<longrightarrow> shaped os (snd r)))
        (ep_addresses os ifa sp (new_ep sv ifa\<lparr>port := p\<rparr>))"
      using ep_addresses_as [OF new(2)] ep_addresses_shaped [OF refl that] unfolding yields_def by blast
  qed (auto intro!: yields_ret start)
  have body: "yields ?P (case sock_params (sv_family sv) of
       None \<Rightarrow> ep_fail ''open_ep: Unsupported address family'' EINVAL (new_ep sv ifa)
     | Some sp \<Rightarrow>
         bind (ep_port os sv) (\<lambda>p.
         if is_inet (sv_family sv) \<and> p = 0
         then ep_fail ''open_ep: No port number'' EADDRNOTAVAIL (new_ep sv ifa)
         else
           bind (ep_addresses os ifa sp (new_ep sv ifa\<lparr>port := p\<rparr>)) (\<lambda>(ok, ep).
           if \<not> ok then ret (- 1, ep) else ep_start os sp ep)))"
    by (intro yields_case_option yields_bindP [OF ep_port_yields] yields_if fail addr) auto
  show ?thesis
    unfolding open_ep_def Let_def
    by (intro yields_bindP [OF body] yields_ret yields_if yields_bind) auto
qed

lemma whenever_open_ep:
  assumes "owns os o' s eps t"
    and "\<And>u. owns os o' s eps u \<Longrightarrow> Q None u"
    and "\<And>v ep u. v \<noteq> 0 \<Longrightarrow> owns os o' s eps u \<Longrightarrow> Q (Some (v, ep)) u"
    and "\<And>ep u. opened_as sv ep \<Longrightarrow> sock ep < 0 \<Longrightarrow> owns os o' s eps u \<Longrightarrow> Q (Some (0, ep)) u"
    and "\<And>ep u. opened_as sv ep \<Longrightarrow> shaped os ep \<Longrightarrow> 0 \<le> sock ep \<Longrightarrow> ledger s (owned (ep # eps)) u \<Longrightarrow> Q (Some (0, ep)) u"
  shows "whenever (open_ep os sv ifa) t Q"
  unfolding whenever_def
proof (intro allI impI)
  fix r u
  assume run: "open_ep os sv ifa t = Inr (r, u)"
  from wheneverD [OF ledger_open_ep run] assms(1)
  have led: "ledger s (\<lambda>x. owned eps x + opened_by r x) u" and eps: "\<forall>e \<in> set eps. ep_ok os o' e"
    by (auto simp: ledger_def owns_def)
  show "Q r u"
  proof (cases r)
    case None
    with led eps show ?thesis by (auto simp: opened_by_def owns_def intro: assms(2))
  next
    case (Some p)
    obtain v ep where p: "p = (v, ep)" by (cases p)
    have sv: "opened_as sv ep" "v = 0 \<Longrightarrow> shaped os ep" using yieldsD [OF open_ep_as run] by (simp_all add: Some p)
    consider "v \<noteq> 0" | "v = 0" "sock ep < 0" | "v = 0" "0 \<le> sock ep" by linarith
    then show ?thesis
    proof cases
      case 1
      with led eps show ?thesis by (auto simp: Some p opened_by_def owns_def intro: assms(3))
    next
      case 2
      with led eps sv show ?thesis
        by (auto simp: Some p opened_by_def owns_def one_def intro: assms(4))
    next
      case 3
      have "owned (ep # eps) = (\<lambda>x. owned eps x + one (sock ep) x)" by (auto simp: fun_eq_iff)
      with 3 led sv show ?thesis by (auto simp: Some p opened_by_def intro: assms(5))
    qed
  qed
qed

lemma whenever_fd_set:
  assumes "0 \<le> fd \<Longrightarrow> fd < 1024 \<Longrightarrow> Q () s"
  shows "whenever (fd_set fd) s Q"
  using assms by (simp add: fd_set_def vc_simps)

lemma owns_calm: "owns os o' s eps t \<Longrightarrow> calm t u \<Longrightarrow> owns os o' s eps u"
  by (auto simp: owns_def intro: ledger_calm)

lemma whenever_calm_owns:
  assumes "keeps calm m" and "owns os o' s eps t" and "\<And>a u. owns os o' s eps u \<Longrightarrow> Q a u"
  shows "whenever m t Q"
  using assms(1) by (rule whenever_keeps) (rule assms(3), rule owns_calm [OF assms(2)])

lemma calm_syslog: "keeps calm (emit (Ev_syslog s))"
  by (rule calm_emit) simp

lemma owns_cons:
  "ledger s (owned (ep # eps)) u \<Longrightarrow> \<forall>e \<in> set eps. ep_ok os o' e \<Longrightarrow> 0 \<le> sock ep \<Longrightarrow> sock ep < 1024 \<Longrightarrow>
   opened_as sv ep \<Longrightarrow> shaped os ep \<Longrightarrow> sv \<in> set services \<Longrightarrow> wanted o' sv \<Longrightarrow> owns os o' s (ep # eps) u"
  by (auto simp: owns_def ep_ok_def opened_as_def)

lemma owns_open_ifaces:
  assumes "owns os o' s eps t" and "sv \<in> set services" and "wanted o' sv"
  shows "whenever (open_ifaces os sv ifas eps) t (\<lambda>r u. pred_option (\<lambda>x. owns os o' s x u) r)"
  using assms(1)
proof (induction ifas arbitrary: eps t)
  case Nil
  then show ?case by (simp add: vc_simps)
next
  case (Cons ifa ifas)
  have ok: "\<forall>e \<in> set eps. ep_ok os o' e" using Cons.prems by (simp add: owns_def)
  show ?case
    unfolding open_ifaces.simps
    apply (rule whenever_ifI, rule Cons.IH [OF Cons.prems])
    apply (rule whenever_bindI, rule whenever_open_ep [OF Cons.prems])
       apply (simp add: vc_simps)
      apply (simp add: whenever_bind whenever_get)
      apply (erule whenever_calm_owns [OF calm_syslog], erule Cons.IH)
     apply (simp add: Cons.IH)
    apply (simp add: whenever_bind)
    apply (rule whenever_fd_set, rule Cons.IH, rule owns_cons)
    using ok assms(2,3) by auto
qed

lemma owns_open_services:
  assumes "owns os o' s eps t" and "set svs \<subseteq> set services"
  shows "whenever (open_services os o' ifas svs eps) t
    (\<lambda>r u. pred_option (\<lambda>x. owns os o' s (fst x) u) r)"
  using assms
proof (induction svs arbitrary: eps t)
  case Nil
  then show ?case by (simp add: vc_simps)
next
  case (Cons sv svs)
  have ok: "\<forall>e \<in> set eps. ep_ok os o' e" using Cons.prems by (simp add: owns_def)
  have sv: "sv \<in> set services" and svs: "set svs \<subseteq> set services" using Cons.prems(2) by auto
  show ?case
    unfolding open_services.simps
    apply (rule whenever_ifI, rule Cons.IH [OF Cons.prems(1) svs])
    apply (rule whenever_ifI, rule whenever_bindI, rule whenever_mono [OF owns_open_ifaces [OF Cons.prems(1) sv]])
      apply simp
     apply (rule whenever_optionI)
      apply (simp add: vc_simps)
     apply (simp add: Cons.IH svs)
    apply (rule whenever_ifI, rule whenever_bindI, rule whenever_open_ep [OF Cons.prems(1)])
        apply (simp add: vc_simps)
       apply (simp add: vc_simps)
      apply (simp add: Cons.IH svs)
     apply (simp add: whenever_bind)
     apply (rule whenever_fd_set, rule Cons.IH, rule owns_cons)
    using ok sv svs Cons.prems by (auto intro: Cons.IH)
qed

section \<open>Every reachable state accounts for its descriptors\<close>

text \<open>
  The invariant: what the process holds is what it held at the start and the sockets of the endpoints
  of the state, all of them opened for wanted services; the endpoints a dispatch round still has to
  look at are the last ones of the list.
\<close>

fun rounds :: "mstate \<Rightarrow> bool" where
  "rounds (Dispatching eps rest n ready) = suffix rest eps"
| "rounds _ = True"

definition accounts :: "os \<Rightarrow> opts \<Rightarrow> world \<Rightarrow> mstate \<Rightarrow> world \<Rightarrow> bool" where
  "accounts os o' w0 m w \<longleftrightarrow> rounds m \<and> (\<forall>x. held w x = held w0 x + owned (open_eps m) x) \<and>
     (\<forall>e \<in> set (open_eps m). ep_ok os o' e)"

lemma owns_accounts:
  "owns os o' s eps w \<Longrightarrow> (\<forall>x. held s x = held w0 x) \<Longrightarrow> open_eps m = eps \<Longrightarrow> rounds m \<Longrightarrow> accounts os o' w0 m w"
  by (auto simp: accounts_def owns_def ledger_def)

lemma accounts_held:
  "accounts os o' w0 m w \<Longrightarrow> held w' = held w \<Longrightarrow> open_eps m' = open_eps m \<Longrightarrow> rounds m' \<Longrightarrow> accounts os o' w0 m' w'"
  by (simp add: accounts_def)

lemma held_trace: "trace t = trace s \<Longrightarrow> held t = held s"
  by (simp add: fun_eq_iff held_def)

lemma calm_sigactions: "keeps calm (sigactions os sigs)"
  by (induction sigs)
    (auto intro!: calm.keeps_ret calm.keeps_bind calm_silent [OF silent_sys_status])

lemma accounts_start:
  assumes "accounts os o' w0 Starting w"
  shows "whenever (start_step os o') w (\<lambda>m t. m \<noteq> Aborted \<longrightarrow> accounts os o' w0 m t)"
proof -
  have w: "owns os o' w [] w" and w0: "\<forall>x. held w x = held w0 x"
    using assms by (auto simp: owns_def ledger_def accounts_def)
  show ?thesis
    unfolding start_step_def
    apply (rule whenever_bindI, rule whenever_calm_owns [OF calm_sigactions w], rule whenever_ifI)
     apply (rule whenever_retI, simp add: owns_accounts [OF _ w0])
    apply (rule whenever_bindI, erule whenever_calm_owns [OF calm_silent [OF silent_failing]], rule whenever_optionI)
     apply (rule whenever_retI, simp add: owns_accounts [OF _ w0])
    apply (rule whenever_bindI, rule whenever_mono, erule owns_open_services, simp)
    apply (auto simp: vc_simps split: option.split elim!: owns_accounts [OF _ w0])
    done
qed

lemma run_recv_contract:
  assumes ok: "accept_ok os" and run: "bind (run_recv os f ep) after_recv w = Inr (r, t)"
  shows "held t = held w \<and> ((r = Jump \<and> restart t = 1) \<or> (\<exists>n\<ge>0. r = Return n \<and> restart t = restart w))"
  using run keepsD [OF wsd.dispatch_balanced [OF ok]] keepsD [OF llmnr.dispatch_balanced [OF ok]]
    keepsD [OF netlink.dispatch_balanced [OF ok]]
    wsd.dispatch_flag [OF ok] llmnr.dispatch_flag [OF ok] netlink.dispatch_flag [OF ok]
  by (cases f) (auto simp: run_recv_def balanced_def)

lemma accounts_select:
  assumes "accounts os o' w0 (Selecting eps) w"
  shows "whenever (select_step os eps) w (\<lambda>m t. m \<noteq> Aborted \<longrightarrow> accounts os o' w0 m t)"
  unfolding whenever_def
proof (intro allI impI)
  fix m t
  assume run: "select_step os eps w = Inr (m, t)"
  then have "open_eps m = eps" "rounds m"
    by (auto simp: select_step_def failing_def exec_simps Let_def split: sum.splits if_splits)
  moreover have "keeps calm (select_step os eps)"
    unfolding select_step_def Let_def
    by (intro calm.keeps_intros calm_silent [OF silent_failing] calm_syslog)
  from calm_balanced [OF keepsD [OF this run]] have "held t = held w" by (simp add: balanced_def)
  ultimately show "accounts os o' w0 m t" by (intro accounts_held [OF assms]) simp_all
qed

lemma accounts_dispatch:
  assumes ok: "accept_ok os" and inv: "accounts os o' w0 (Dispatching eps rest n ready) w"
  shows "whenever (dispatch_step os eps rest n ready) w (\<lambda>m t. m \<noteq> Aborted \<longrightarrow> accounts os o' w0 m t)"
  unfolding whenever_def
proof (intro allI impI)
  fix m t
  assume run: "dispatch_step os eps rest n ready w = Inr (m, t)"
  have "suffix rest eps" using inv by (simp add: accounts_def)
  with run have "open_eps m = eps" "rounds m"
    by (auto simp: dispatch_step_def exec_simps
        split: nat.splits list.splits if_splits option.splits outcome.splits sum.splits dest: suffix_ConsD)
      (blast dest: suffix_ConsD)
  moreover have recv: "keeps balanced (bind (run_recv os f ep) after_recv)" for f ep
    using run_recv_contract [OF ok] unfolding keeps_def balanced_def by blast
  have "keeps balanced (dispatch_step os eps rest n ready)"
    unfolding dispatch_step_def
    by (auto split: nat.split list.split option.split outcome.split
        intro!: bal.keeps_ret bal.keeps_bind [OF recv] bal.keeps_bind [OF bal.keeps_get])
  from keepsD [OF this run] have "held t = held w" by (simp add: balanced_def)
  ultimately show "accounts os o' w0 m t" by (intro accounts_held [OF inv]) simp_all
qed

lemma accounts_end:
  assumes inv: "accounts os o' w0 (Ending eps bad rv) w"
  shows "whenever (end_step os eps bad rv) w (\<lambda>m t. m \<noteq> Aborted \<longrightarrow> accounts os o' w0 m t)"
proof (cases eps)
  case Nil
  then show ?thesis
    using inv
    by (auto simp: end_step_def vc_simps whenever_def exec_simps emit_def accounts_def held_def
        split: option.splits if_splits)
next
  case (Cons ep eps')
  have "0 \<le> sock ep" using inv by (simp add: accounts_def ep_ok_def Cons)
  show ?thesis
    unfolding end_step_def Cons list.case
    by (rule whenever_bindI, rule whenever_mono [OF close_ep_descriptors], rule whenever_retI)
      (use inv \<open>0 \<le> sock ep\<close> in \<open>auto simp: accounts_def Cons one_def\<close>)
qed

lemma accounts_step:
  assumes "accept_ok os" and "accounts os o' w0 m w" and "main_step os o' m w = Inr (m', w')"
  shows "m' \<noteq> Aborted \<longrightarrow> accounts os o' w0 m' w'"
proof -
  have "whenever (main_step os o' m) w (\<lambda>m t. m \<noteq> Aborted \<longrightarrow> accounts os o' w0 m t)"
    using assms(2) accounts_start accounts_select accounts_dispatch [OF assms(1)] accounts_end
    by (cases m) (auto simp: main_step_def vc_simps)
  then show ?thesis using assms(3) by (rule wheneverD)
qed

lemma accounts_mstep:
  assumes step: "mstep os o' (m, w) (m', w')" and "accept_ok os" and inv: "accounts os o' w0 m w"
  shows "m' \<noteq> Aborted \<longrightarrow> accounts os o' w0 m' w'"
  using step
proof (cases rule: mstep.cases)
  case work
  then show ?thesis using accounts_step [OF assms(2) inv] by blast
next
  case (signal sig)
  have "held (w\<lparr>restart := sighandler sig\<rparr>) = held w" by (rule held_trace) simp
  then show ?thesis using inv signal by (auto simp: accounts_def)
qed

lemma reachable_accounts:
  assumes "reachable os o' w0 c" and "accept_ok os"
  shows "fst c \<noteq> Aborted \<longrightarrow> accounts os o' w0 (fst c) (snd c)"
  using assms(1)
proof induction
  case start
  show ?case by (simp add: accounts_def)
next
  case (step c c')
  obtain m w m' w' where c: "c = (m, w)" "c' = (m', w')" by fastforce
  with step.hyps(2) have "m \<noteq> Aborted" by (auto elim: mstepE)
  with step.IH step.hyps(2) show ?case
    by (simp add: c accounts_mstep [OF _ assms(2)])
qed

text \<open>
  C4. The daemon never leaks or loses a descriptor: in every reachable state, whatever was received,
  failed or signalled on the way, it holds what it held at the start and exactly the sockets of its
  endpoints; so none is left over when it exits or starts again.
\<close>

theorem main_no_leak:
  assumes "reachable os o' w0 (m, w)" and "accept_ok os" and "m \<noteq> Aborted"
  shows "held w fd = held w0 fd + int (length (filter (\<lambda>e. sock e = fd) (open_eps m)))"
proof -
  have eq: "owned eps fd = int (length (filter (\<lambda>e. sock e = fd) eps))" if "\<forall>e \<in> set eps. ep_ok os o' e" for eps
    using that by (induction eps) (auto simp: one_def ep_ok_def)
  show ?thesis
    using reachable_accounts [OF assms(1,2)] assms(3) eq by (auto simp: accounts_def)
qed

text \<open>
  C36. Every endpoint the daemon ever has serves a service of the table that the options ask for, over
  the family of that service and on a descriptor that \<open>select\<close> can watch.
\<close>

theorem main_endpoints_wanted:
  assumes "reachable os o' w0 (m, w)" and "accept_ok os" and "ep \<in> set (open_eps m)"
  shows "service ep \<in> set services \<and> wanted o' (service ep) \<and> family ep = sv_family (service ep) \<and>
    0 \<le> sock ep \<and> sock ep < 1024"
proof -
  from assms(3) have "m \<noteq> Aborted" by auto
  with reachable_accounts [OF assms(1,2)] assms(3) show ?thesis by (simp add: accounts_def ep_ok_def)
qed

section \<open>Shutting down\<close>

text \<open>A number of steps of \<open>main\<close> without a signal.\<close>

fun main_work :: "os \<Rightarrow> opts \<Rightarrow> nat \<Rightarrow> mstate \<Rightarrow> mstate M" where
  "main_work os o' 0 m = ret m"
| "main_work os o' (Suc k) m = bind (main_step os o' m) (main_work os o' k)"

lemma main_work_exited: "main_work os o' k (Exited rv) = ret (Exited rv)"
  by (induction k) (simp_all add: main_step_def)

lemma main_work_add: "main_work os o' (j + k) m = bind (main_work os o' j m) (main_work os o' k)"
proof (induction j arbitrary: m)
  case (Suc j)
  then have "main_work os o' (j + k) = (\<lambda>a. bind (main_work os o' j a) (main_work os o' k))" by blast
  then show ?case by (simp add: bind_assoc)
qed simp

lemma runs_at: "m w = Inr (a, v) \<Longrightarrow> runs m w Q = Q a v"
  by (simp add: runs_def)

lemma main_work_mstep:
  "main_work os o' k m w = Inr (m', w') \<Longrightarrow> (mstep os o')\<^sup>*\<^sup>* (m, w) (m', w')"
proof (induction k arbitrary: m w)
  case 0
  then show ?case by (simp add: ret_run)
next
  case (Suc k)
  then obtain m1 w1 where step: "main_step os o' m w = Inr (m1, w1)"
    and rest: "(mstep os o')\<^sup>*\<^sup>* (m1, w1) (m', w')"
    by (auto simp: bind_eq_Inr)
  show ?case
  proof (cases "halted m")
    case True
    with step have "m1 = m \<and> w1 = w" by (cases m) (simp_all add: main_step_def ret_run)
    with rest show ?thesis by simp
  next
    case False
    from False step have "mstep os o' (m, w) (m1, w1)" by (rule mstep.work)
    from this rest show ?thesis by (rule converse_rtranclp_into_rtranclp)
  qed
qed

lemma reachable_work:
  assumes "reachable os o' w0 (m, w)" and "main_work os o' k m w = Inr (m', w')"
  shows "reachable os o' w0 (m', w')"
  using main_work_mstep [OF assms(2)] assms(1) by induction (auto intro: reachable.step)

lemma safe_run_exit: "safe (run_exit os f ep)"
  unfolding run_exit_def llmnr_exit_def wsd_exit_def
  by (auto split: option.split exit_fn.split intro!: safe_ret safe_bind safe_wsd_send_bye)

lemma safe_close_ep: "ep_ok os o' ep \<Longrightarrow> safe (close_ep os ep)"
proof -
  assume "ep_ok os o' ep"
  then obtain sp where "sock_params (family ep) = Some sp"
    by (auto simp: ep_ok_def services_def wsdd_mcast_def wsdd_http_def llmnr_service_def
        netlink_service_def sock_params_def)
  then show ?thesis
    unfolding close_ep_def
    by (auto intro!: safe_bind safe_run_exit safe_ret safe_rules)
qed

text \<open>What \<open>main\<close> does once every endpoint is closed.\<close>

fun final :: "bad_ep option \<Rightarrow> int \<Rightarrow> int \<Rightarrow> mstate" where
  "final (Some bad) rv r = Exited 1"
| "final None rv r = (if r = 1 then Starting else Exited rv)"

lemma main_ending:
  assumes "accounts os o' w0 (Ending eps bad rv) w"
  shows "runs (main_work os o' (Suc (length eps)) (Ending eps bad rv)) w (\<lambda>m t.
      m = final bad rv (restart w) \<and> restart t = (if m = Starting then 0 else restart w) \<and>
      (\<forall>fd. held t fd = held w0 fd))"
  using assms
proof (induction eps arbitrary: w)
  case Nil
  then show ?case
    by (cases bad) (auto simp: main_step_def end_step_def emit_def accounts_def held_def)
next
  case (Cons ep eps)
  from Cons.prems have "safe (close_ep os ep)" by (intro safe_close_ep [of os o']) (simp add: accounts_def)
  then obtain v where close: "close_ep os ep w = Inr ((), v)" unfolding safe_def by auto
  have step: "main_step os o' (Ending (ep # eps) bad rv) w = Inr (Ending eps bad rv, v)"
    by (simp add: main_step_def end_step_def bind_run ret_run close)
  from wheneverD [OF accounts_end [OF Cons.prems]] step have "accounts os o' w0 (Ending eps bad rv) v"
    by (simp add: main_step_def)
  from Cons.IH [OF this] show ?case
    using wheneverD [OF close_ep_descriptors close]
    by (simp only: list.size(4) add_0_right add_Suc_right main_work.simps(2) [of _ _ "Suc (length eps)"]
        runs_bind runs_at [of "main_step os o' (Ending (ep # eps) bad rv)", OF step])
qed

text \<open>
  C10. A shutdown always comes to its end: from the label \<open>end\<close> on, \<open>main\<close> closes its endpoints one by one
  without a fault, and then exits with failure after a bad endpoint, starts again with the flag
  cleared when a restart was asked for, and exits otherwise. Every socket has been given back.
\<close>

theorem main_shutdown:
  assumes "reachable os o' w0 (Ending eps bad rv, w)" and "accept_ok os"
  shows "runs (main_work os o' (Suc (length eps)) (Ending eps bad rv)) w (\<lambda>m t.
      m = final bad rv (restart w) \<and> restart t = (if m = Starting then 0 else restart w) \<and>
      (\<forall>fd. held t fd = held w0 fd))"
  using main_ending reachable_accounts [OF assms] by simp

lemma runs_work_add:
  "runs (main_work os o' (j + k) m) w Q = runs (main_work os o' j m) w (\<lambda>a t. runs (main_work os o' k a) t Q)"
  by (simp add: main_work_add)

text \<open>
  A round without trouble: every handler that is called in the rest of it returns, and neither fails
  nor asks for a restart.
\<close>

fun calm_round :: "os \<Rightarrow> endpoint list \<Rightarrow> nat \<Rightarrow> int list \<Rightarrow> world \<Rightarrow> bool" where
  "calm_round os (ep # rest) (Suc k) ready w =
     (if sock ep \<notin> set ready then calm_round os rest (Suc k) ready w
      else case sv_recv (service ep) of None \<Rightarrow> calm_round os rest k ready w
      | Some f \<Rightarrow> (case run_recv os f ep w of
            Inr (Return i, v) \<Rightarrow> 0 \<le> i \<and> calm_round os rest k ready v
          | _ \<Rightarrow> False))"
| "calm_round os rest n ready w = True"

lemma calm_round_step:
  assumes "accept_ok os" and calm: "calm_round os (ep # rest) (Suc k) ready w"
  obtains n' v where
    "main_step os o' (Dispatching eps (ep # rest) (Suc k) ready) w = Inr (Dispatching eps rest n' ready, v)"
    and "restart v = restart w" and "calm_round os rest n' ready v"
proof -
  consider "sock ep \<notin> set ready" | "sock ep \<in> set ready" "sv_recv (service ep) = None"
    | f where "sock ep \<in> set ready" "sv_recv (service ep) = Some f" by fastforce
  then show ?thesis
  proof cases
    case 1
    with calm show ?thesis
      by (intro that [of "Suc k" w]) (simp_all add: main_step_def dispatch_step_def ret_run)
  next
    case 2
    with calm show ?thesis by (intro that [of k w]) (simp_all add: main_step_def dispatch_step_def ret_run)
  next
    case 3
    with calm obtain q v where run: "run_recv os f ep w = Inr (q, v)" by (auto split: sum.splits)
    with calm 3 obtain i where recv: "run_recv os f ep w = Inr (Return i, v)" and i: "0 \<le> i"
        and rest: "calm_round os rest k ready v"
      by (cases q) auto
    have both: "bind (run_recv os f ep) after_recv w = Inr (Return i, v)"
      using i by (simp add: bind_run recv after_recv_def ret_run)
    from run_recv_contract [OF assms(1) both] have "restart v = restart w" by simp
    with 3 both rest show ?thesis
      by (intro that [of k v]) (simp_all add: main_step_def dispatch_step_def bind_run ret_run)
  qed
qed

lemma dispatch_ends:
  assumes inv: "accounts os o' w0 (Dispatching eps rest n ready) w" and ok: "accept_ok os"
    and flag: "restart w \<noteq> 0" and calm: "calm_round os rest n ready w"
  shows "\<exists>j \<le> Suc (length rest). runs (main_work os o' j (Dispatching eps rest n ready)) w
      (\<lambda>m t. m = Ending eps None 0 \<and> restart t = restart w)"
  using assms
proof (induction rest arbitrary: n w)
  case Nil
  then show ?case
    by (intro exI [of _ "Suc 0"]) (simp add: main_step_def dispatch_step_def split: nat.split)
next
  case (Cons ep rest)
  let ?m = "Dispatching eps (ep # rest) n ready"
  show ?case
  proof (cases n)
    case 0
    with Cons.prems(3) show ?thesis
      by (intro exI [of _ "Suc 0"]) (simp add: main_step_def dispatch_step_def)
  next
    case (Suc k)
    obtain n' v where step: "main_step os o' ?m w = Inr (Dispatching eps rest n' ready, v)"
        and r: "restart v = restart w" and calm: "calm_round os rest n' ready v"
      using calm_round_step [OF ok Cons.prems(4) [unfolded Suc], of o' eps thesis] by (simp add: Suc)
    from accounts_step [OF ok Cons.prems(1) step] have "accounts os o' w0 (Dispatching eps rest n' ready) v"
      by simp
    from Cons.IH [OF this ok _ calm] Cons.prems(3) r obtain j where "j \<le> Suc (length rest)"
      and "runs (main_work os o' j (Dispatching eps rest n' ready)) v
        (\<lambda>m t. m = Ending eps None 0 \<and> restart t = restart w)" by auto
    then show ?thesis by (intro exI [of _ "Suc j"]) (simp add: runs_at [of "main_step os o' ?m", OF step])
  qed
qed

section \<open>A request to terminate\<close>

lemma main_ending_calm:
  assumes "accounts os o' w0 (Ending eps None 0) w" and "restart w = 2"
  shows "runs (main_work os o' (Suc (length eps)) (Ending eps None 0)) w (\<lambda>m t.
      m = Exited 0 \<and> (\<forall>fd. held t fd = held w0 fd))"
  by (rule runs_mono [OF main_ending [OF assms(1)]]) (auto simp: assms(2))

text \<open>
  C9. A request to terminate that is pending in a round is obeyed when every handler called in the rest
  of the round returns without an error and without a jump to the label \<open>end\<close> (which an address change
  makes \<open>netlink_recv\<close> do): after at most one step for each endpoint left in the round and one for each
  that is closed, and two more, the daemon has exited with success and has given back every
  descriptor.
\<close>

theorem sigterm_exits:
  assumes "reachable os o' w0 (Dispatching eps rest n ready, w)" and ok: "accept_ok os"
    and "restart w = sighandler SIGTERM"
    and calm: "calm_round os rest n ready w"
  shows "runs (main_work os o' (length rest + length eps + 2) (Dispatching eps rest n ready)) w
      (\<lambda>m t. m = Exited 0 \<and> (\<forall>fd. held t fd = held w0 fd))"
proof -
  let ?m = "Dispatching eps rest n ready" and ?Q = "\<lambda>m t. m = Exited 0 \<and> (\<forall>fd. held t fd = held w0 fd)"
  have two: "restart w = 2" using assms(3) by (simp add: sighandler_def SIGHUP_def SIGTERM_def)
  have inv: "accounts os o' w0 ?m w" using reachable_accounts [OF assms(1) ok] by simp
  have "\<exists>j \<le> Suc (length rest). runs (main_work os o' j ?m) w
      (\<lambda>m t. m = Ending eps None 0 \<and> restart t = restart w)"
    using two by (intro dispatch_ends [OF inv ok _ calm]) simp
  then obtain j where j: "j \<le> Suc (length rest)" and "runs (main_work os o' j ?m) w
      (\<lambda>m t. m = Ending eps None 0 \<and> restart t = restart w)" by blast
  then obtain v where run: "main_work os o' j ?m w = Inr (Ending eps None 0, v)" and v: "restart v = 2"
    using two by (auto elim!: runsE)
  from reachable_accounts [OF reachable_work [OF assms(1) run] ok]
  have "accounts os o' w0 (Ending eps None 0) v" by simp
  from main_ending_calm [OF this v] have "runs (main_work os o' (Suc (length eps)) (Ending eps None 0)) v ?Q" .
  then have "runs (main_work os o' (j + Suc (length eps)) ?m) w ?Q"
    unfolding runs_work_add by (simp only: runs_at [of "main_work os o' j ?m", OF run])
  then obtain t where t: "main_work os o' (j + Suc (length eps)) ?m w = Inr (Exited 0, t)"
    and held: "\<forall>fd. held t fd = held w0 fd" by (rule runsE) blast
  from j have "j + Suc (length eps) \<le> length rest + length eps + 2" by simp
  then obtain k where k: "length rest + length eps + 2 = j + Suc (length eps) + k"
    unfolding le_iff_add by blast
  show ?thesis
    unfolding k runs_work_add [of _ _ "j + Suc (length eps)" k]
    by (simp only: runs_at [of "main_work os o' (j + Suc (length eps)) ?m", OF t] main_work_exited
        runs_ret held simp_thms)
qed

text \<open>
  A handler that fails or asks for a restart makes the daemon start again, whatever the flag was: one
  step for the handler, one for each endpoint that is closed, and one more.
\<close>

lemma failing_handler_restarts:
  assumes "reachable os o' w0 (Dispatching eps (ep # rest) (Suc n) ready, w)" and ok: "accept_ok os"
    and "sock ep \<in> set ready" and "sv_recv (service ep) = Some f"
    and recv: "run_recv os f ep w = Inr (q, v)" and q: "q = Jump \<or> (\<exists>r<0. q = Return r)"
  shows "runs (main_work os o' (length eps + 2) (Dispatching eps (ep # rest) (Suc n) ready)) w
    (\<lambda>m t. m = Starting \<and> restart t = 0 \<and> (\<forall>fd. held t fd = held w0 fd))"
proof -
  let ?m = "Dispatching eps (ep # rest) (Suc n) ready"
  have inv: "accounts os o' w0 ?m w" using reachable_accounts [OF assms(1) ok] by simp
  obtain u where after: "bind (run_recv os f ep) after_recv w = Inr (Jump, u)"
    using recv q by (auto simp: bind_run after_recv_def restart_service_def modify_run ret_run)
  from run_recv_contract [OF ok after] have u: "restart u = 1" by simp
  have step: "main_step os o' ?m w = Inr (Ending eps None 0, u)"
    using assms(3,4) after by (simp add: main_step_def dispatch_step_def bind_run [of _ "case_outcome x y" for x y] ret_run)
  from accounts_step [OF ok inv step] have "accounts os o' w0 (Ending eps None 0) u" by simp
  from main_ending [OF this] have "runs (main_work os o' (Suc (length eps)) (Ending eps None 0)) u
      (\<lambda>m t. m = Starting \<and> restart t = 0 \<and> (\<forall>fd. held t fd = held w0 fd))"
    by (rule runs_mono) (simp add: u)
  moreover have "length eps + 2 = Suc (Suc (length eps))" by simp
  ultimately show ?thesis
    by (simp only: main_work.simps(2) [of _ _ "Suc (length eps)"] runs_bind
        runs_at [of "main_step os o' ?m", OF step])
qed

text \<open>
  C21. A request to terminate is lost when, in the round it comes in, a handler fails or reports an
  address change: SIGTERM sets the flag, but the failure is taken for a broken socket,
  \<open>restart_service\<close> overwrites the flag, and without any other signal the daemon closes its sockets
  and starts again with the flag cleared. A handler whose \<open>recv\<close> the signal itself interrupts fails so.
\<close>

theorem sigterm_lost:
  assumes "reachable os o' w0 (Dispatching eps (ep # rest) (Suc n) ready, w)" and "accept_ok os"
    and "sock ep \<in> set ready" and "sv_recv (service ep) = Some f"
    and "run_recv os f ep (w\<lparr>restart := sighandler SIGTERM\<rparr>) = Inr (q, v)" and "q = Jump \<or> (\<exists>r<0. q = Return r)"
  shows "mstep os o' (Dispatching eps (ep # rest) (Suc n) ready, w)
      (Dispatching eps (ep # rest) (Suc n) ready, w\<lparr>restart := sighandler SIGTERM\<rparr>) \<and>
    runs (main_work os o' (length eps + 2) (Dispatching eps (ep # rest) (Suc n) ready))
      (w\<lparr>restart := sighandler SIGTERM\<rparr>)
      (\<lambda>m t. m = Starting \<and> restart t = 0 \<and> (\<forall>fd. held t fd = held w0 fd))"
proof
  show sig: "mstep os o' (Dispatching eps (ep # rest) (Suc n) ready, w)
      (Dispatching eps (ep # rest) (Suc n) ready, w\<lparr>restart := sighandler SIGTERM\<rparr>)"
    by (intro mstep.signal) simp_all
  show "runs (main_work os o' (length eps + 2) (Dispatching eps (ep # rest) (Suc n) ready))
      (w\<lparr>restart := sighandler SIGTERM\<rparr>)
      (\<lambda>m t. m = Starting \<and> restart t = 0 \<and> (\<forall>fd. held t fd = held w0 fd))"
    by (rule failing_handler_restarts [OF reachable.step [OF assms(1) sig] assms(2-6)])
qed

section \<open>Examples\<close>

text \<open>A machine without interfaces: only the netlink endpoint opens. Its socket is always ready.\<close>

definition lone_os :: "(nat \<Rightarrow> int + (byte list \<times> saddr)) \<Rightarrow> os" where
  "lone_os recv = quiet_os\<lparr>os_getifaddrs := (\<lambda>n. Inr []), os_socket := (\<lambda>n f t p. Inr 5),
     os_select := (\<lambda>n fds. Inr [5]), os_recvfrom := (\<lambda>n fd. recv n)\<rparr>"

definition lone_ep :: endpoint where
  "lone_ep = (let blank = \<lparr>ss_family = AF_NETLINK, sin_port = 0, sin_addr = []\<rparr> in
     (new_ep netlink_service netlink_ifa)\<lparr>sock := 5, mcast := blank, mlen := 12, llen := 12,
       local := blank\<lparr>sin_addr := enc32 (unat (nl_groups netlink_service))\<rparr>\<rparr>)"

lemma accept_lone: "accept_ok (lone_os recv)"
  by (simp add: accept_ok_def lone_os_def quiet_os_def)

lemma skip_inet: "is_inet (sv_family sv) \<Longrightarrow> open_services os o' [] (sv # svs) eps = open_services os o' [] svs eps"
  by simp

lemma lone_services: "open_services os o' [] services [] = open_services os o' [] [netlink_service] []"
  by (simp only: services_def skip_inet wsdd_mcast_def wsdd_http_def llmnr_service_def service.select_convs
      is_inet_def simp_thms)

lemma wanted_netlink: "wanted o' netlink_service"
  by (simp add: wanted_def netlink_service_def)

lemma open_lone:
  "\<exists>t. open_ep (lone_os recv) netlink_service netlink_ifa w = Inr (Some (0, lone_ep), t) \<and> restart t = restart w"
  by (simp add: open_ep_def alloc_def ep_port_def ep_addresses_def ep_start_def ep_join_def ep_finish_def
      sys_socket_def sys_setsockopt_def sys_bind_def run_init_def failing_def exec_simps sys_status_run
      Let_def sock_params_def is_inet_def netlink_service_def netlink_ifa_def new_ep_def lone_ep_def
      lone_os_def quiet_os_def addr_size_def)

lemma lone_start:
  "\<exists>t. main_step (lone_os recv) o' Starting w = Inr (Selecting [lone_ep], t) \<and> restart t = restart w"
proof -
  obtain v where v: "sigactions (lone_os recv) [SIGINT, SIGHUP, SIGTERM] w = Inr (True, v)"
      "restart v = restart w"
    by (simp add: sigactions.simps exec_simps sys_status_run lone_os_def quiet_os_def zero_world_def)
  let ?v = "v\<lparr>calls := Suc (calls v)\<rparr>"
  have ifs: "failing (os_getifaddrs (lone_os recv)) v = Inr (Some [], ?v)"
    by (simp add: failing_def exec_simps lone_os_def)
  obtain t where t: "open_ep (lone_os recv) netlink_service netlink_ifa ?v = Inr (Some (0, lone_ep), t)"
      "restart t = restart w"
    using open_lone [of recv ?v] v(2) by auto
  have "sock lone_ep = 5" by (simp add: lone_ep_def Let_def)
  moreover have "sv_family netlink_service = AF_NETLINK" by (simp add: netlink_service_def)
  ultimately show ?thesis
    by (simp add: main_step_def start_step_def bind_run v ifs lone_services wanted_netlink t is_inet_def
        fd_set_def ret_run del: sigactions.simps)
qed

lemma lone_dispatching:
  "\<exists>w. reachable (lone_os recv) o' zero_world (Dispatching [lone_ep] [lone_ep] (Suc 0) [5], w) \<and>
     restart w = sighandler SIGTERM"
proof -
  obtain t where start: "main_step (lone_os recv) o' Starting zero_world = Inr (Selecting [lone_ep], t)"
    using lone_start by blast
  let ?t = "t\<lparr>restart := sighandler SIGTERM\<rparr>"
  have "sock lone_ep = 5" by (simp add: lone_ep_def Let_def)
  then have select: "main_step (lone_os recv) o' (Selecting [lone_ep]) ?t =
      Inr (Dispatching [lone_ep] [lone_ep] (Suc 0) [5], ?t\<lparr>calls := Suc (calls t)\<rparr>)"
    by (simp add: main_step_def select_step_def failing_def exec_simps lone_os_def Let_def)
  from mstep.work [OF _ start] have "mstep (lone_os recv) o' (Starting, zero_world) (Selecting [lone_ep], t)"
    by simp
  moreover have "mstep (lone_os recv) o' (Selecting [lone_ep], t) (Selecting [lone_ep], ?t)"
    by (intro mstep.signal) simp_all
  moreover from mstep.work [OF _ select] have "mstep (lone_os recv) o' (Selecting [lone_ep], ?t)
      (Dispatching [lone_ep] [lone_ep] (Suc 0) [5], ?t\<lparr>calls := Suc (calls t)\<rparr>)" by simp
  ultimately have "reachable (lone_os recv) o' zero_world
      (Dispatching [lone_ep] [lone_ep] (Suc 0) [5], ?t\<lparr>calls := Suc (calls t)\<rparr>)"
    by (blast intro: reachable.intros)
  then show ?thesis by (intro exI) (auto simp del: One_nat_def)
qed

definition all_opts :: opts where
  "all_opts = default_opts no_opts"

abbreviation interrupted_os :: os where
  "interrupted_os \<equiv> lone_os (\<lambda>n. Inl EINTR)"

abbreviation noisy_os :: os where
  "noisy_os \<equiv> lone_os (\<lambda>n. Inr ([0], peer))"

lemma sock_lone [simp]: "sock lone_ep = 5"
  by (simp add: lone_ep_def Let_def)

lemma service_lone [simp]: "service lone_ep = netlink_service"
  by (simp add: lone_ep_def new_ep_def Let_def)

theorem main_no_leak_witness:
  "\<exists>w. reachable interrupted_os all_opts zero_world (Dispatching [lone_ep] [lone_ep] (Suc 0) [5], w) \<and>
     held w 5 = 1 \<and> held w 6 = 0"
proof -
  obtain w where w: "reachable interrupted_os all_opts zero_world
      (Dispatching [lone_ep] [lone_ep] (Suc 0) [5], w)" using lone_dispatching by blast
  with main_no_leak [OF w accept_lone, of 5] main_no_leak [OF w accept_lone, of 6]
  show ?thesis by (intro exI [of _ w]) (simp add: held_def zero_world_def)
qed

theorem main_endpoints_wanted_witness:
  "\<exists>w. reachable interrupted_os all_opts zero_world (Dispatching [lone_ep] [lone_ep] (Suc 0) [5], w) \<and>
     service lone_ep \<in> set services \<and> sock lone_ep < 1024"
proof -
  obtain w where w: "reachable interrupted_os all_opts zero_world
      (Dispatching [lone_ep] [lone_ep] (Suc 0) [5], w)" using lone_dispatching by blast
  with main_endpoints_wanted [OF w accept_lone, of lone_ep] show ?thesis by simp blast
qed

lemma netlink_interrupted:
  "\<exists>v. run_recv interrupted_os Netlink_recv ep w = Inr (Return (- 1), v)"
  by (simp add: run_recv_def netlink_recv_def sys_recvfrom_def failing_def exec_simps Let_def lone_os_def
      set_err_def emit_def set_errno_def)

lemma netlink_noise:
  "runs (run_recv noisy_os Netlink_recv ep) w (\<lambda>r t. r = Return 0)"
  by (simp add: run_recv_def netlink_recv_def sys_recvfrom_def failing_def exec_simps Let_def lone_os_def
      set_err_def emit_def set_errno_def runs_def nlmsg_loop.simps)

lemma sv_recv_netlink [simp]: "sv_recv netlink_service = Some Netlink_recv"
  by (simp add: netlink_service_def)

theorem main_shutdown_witness:
  "\<exists>w. reachable interrupted_os all_opts zero_world (Ending [lone_ep] None 0, w) \<and>
     runs (main_work interrupted_os all_opts 2 (Ending [lone_ep] None 0)) w (\<lambda>m t. m = Starting)"
proof -
  obtain w where w: "reachable interrupted_os all_opts zero_world
      (Dispatching [lone_ep] [lone_ep] (Suc 0) [5], w)" using lone_dispatching by blast
  obtain v where "run_recv interrupted_os Netlink_recv lone_ep w = Inr (Return (- 1), v)"
    using netlink_interrupted by blast
  then have "main_step interrupted_os all_opts (Dispatching [lone_ep] [lone_ep] (Suc 0) [5]) w =
      Inr (Ending [lone_ep] None 0, v\<lparr>restart := 1\<rparr>)"
    by (simp add: main_step_def dispatch_step_def exec_simps after_recv_def restart_service_def)
  from reachable.step [OF w mstep.work [OF _ this]]
  have e: "reachable interrupted_os all_opts zero_world (Ending [lone_ep] None 0, v\<lparr>restart := 1\<rparr>)" by simp
  have two: "Suc (length [lone_ep]) = 2" by simp
  have "runs (main_work interrupted_os all_opts 2 (Ending [lone_ep] None 0)) (v\<lparr>restart := 1\<rparr>)
      (\<lambda>m t. m = Starting)"
    by (rule runs_mono [OF main_shutdown [OF e accept_lone, unfolded two]]) simp
  with e show ?thesis by blast
qed

theorem sigterm_exits_witness:
  "\<exists>w. reachable noisy_os all_opts zero_world (Dispatching [lone_ep] [lone_ep] (Suc 0) [5], w) \<and>
     runs (main_work noisy_os all_opts 4 (Dispatching [lone_ep] [lone_ep] (Suc 0) [5])) w
       (\<lambda>m t. m = Exited 0 \<and> held t 5 = 0)"
proof -
  obtain w where w: "reachable noisy_os all_opts zero_world (Dispatching [lone_ep] [lone_ep] (Suc 0) [5], w)"
    and r: "restart w = sighandler SIGTERM" using lone_dispatching by blast
  have "runs (main_work noisy_os all_opts (length [lone_ep] + length [lone_ep] + 2)
      (Dispatching [lone_ep] [lone_ep] (Suc 0) [5])) w (\<lambda>m t. m = Exited 0 \<and> (\<forall>fd. held t fd = held zero_world fd))"
  proof (rule sigterm_exits [OF w accept_lone r])
    show "calm_round noisy_os [lone_ep] (Suc 0) [5] w"
      using netlink_noise [of lone_ep w] by (auto elim!: runsE)
  qed
  then have "runs (main_work noisy_os all_opts 4 (Dispatching [lone_ep] [lone_ep] (Suc 0) [5])) w
      (\<lambda>m t. m = Exited 0 \<and> (\<forall>fd. held t fd = held zero_world fd))"
    by (simp only: list.size) (simp only: add_0 add_Suc numeral_eq_Suc pred_numeral_simps BitM.simps arith_simps)
  with w show ?thesis by (auto intro!: exI [of _ w] elim: runs_mono simp: held_def zero_world_def simp del: main_work.simps)
qed

theorem sigterm_lost_witness:
  "\<exists>w. reachable interrupted_os all_opts zero_world (Dispatching [lone_ep] [lone_ep] (Suc 0) [5], w) \<and>
     runs (main_work interrupted_os all_opts 3 (Dispatching [lone_ep] [lone_ep] (Suc 0) [5]))
       (w\<lparr>restart := 2\<rparr>) (\<lambda>m t. m = Starting \<and> restart t = 0)"
proof -
  obtain w where w: "reachable interrupted_os all_opts zero_world
      (Dispatching [lone_ep] [lone_ep] (Suc 0) [5], w)" using lone_dispatching by blast
  let ?w = "w\<lparr>restart := sighandler SIGTERM\<rparr>"
  obtain v where v: "run_recv interrupted_os Netlink_recv lone_ep ?w = Inr (Return (- 1), v)"
    using netlink_interrupted by blast
  have "runs (main_work interrupted_os all_opts (length [lone_ep] + 2)
      (Dispatching [lone_ep] [lone_ep] (Suc 0) [5])) ?w (\<lambda>m t. m = Starting \<and> restart t = 0)"
    by (rule runs_mono [OF conjunct2 [OF sigterm_lost [OF w accept_lone _ _ v]]]) simp_all
  moreover have "length [lone_ep] + 2 = 3" and "sighandler SIGTERM = 2"
    by (simp_all add: sighandler_def SIGHUP_def SIGTERM_def)
  ultimately show ?thesis using w by (intro exI [of _ w]) (simp only: simp_thms)
qed

end
