(* ===== verification/Main_Options.thy ===== *)
theory Main_Options
  imports Main_Loop
begin

text \<open>
  Properties of the command line: the boot parameters of option \<open>b\<close>, taken one by one from the text or
  for ever from its end; and of the table of services.
\<close>

section \<open>Boot parameters\<close>

text \<open>A list of settings as text, and what the settings do to the table.\<close>

definition setting_text :: "string \<times> string \<Rightarrow> string" where
  "setting_text s = fst s @ CHR '':'' # snd s"

fun settings_text :: "(string \<times> string) list \<Rightarrow> string" where
  "settings_text [] = []"
| "settings_text [s] = setting_text s"
| "settings_text (s # t # ss) = setting_text s @ CHR '','' # settings_text (t # ss)"

definition entry_of :: "bootent list \<Rightarrow> string \<Rightarrow> nat option" where
  "entry_of tab k = find_index (\<lambda>e. strncasecmp_eq (key e) k (length k)) tab"

definition put_setting :: "bootent list \<Rightarrow> string \<times> string \<Rightarrow> bootent list" where
  "put_setting tab s = (case entry_of tab (fst s) of None \<Rightarrow> tab
     | Some i \<Rightarrow> if val (tab ! i) = None then tab[i := (tab ! i)\<lparr>val := Some (snd s)\<rparr>] else tab)"

text \<open>All settings but the last are stored with their comma.\<close>

fun put_settings :: "bootent list \<Rightarrow> (string \<times> string) list \<Rightarrow> bootent list" where
  "put_settings tab [] = tab"
| "put_settings tab [s] = put_setting tab s"
| "put_settings tab (s # t # ss) = put_settings (put_setting tab (fst s, snd s @ '','')) (t # ss)"

definition good_settings :: "bootent list \<Rightarrow> (string \<times> string) list \<Rightarrow> bool" where
  "good_settings tab ss \<longleftrightarrow>
     (\<forall>s \<in> set ss. setting_key (fst s) \<and> setting_value (snd s) \<and> entry_of tab (fst s) \<noteq> None)"

lemma find_index_key:
  "find_index (\<lambda>e. P (key e)) (tab[i := (tab ! i)\<lparr>val := v\<rparr>]) = find_index (\<lambda>e. P (key e)) tab"
proof (induction tab arbitrary: i)
  case (Cons e tab)
  then show ?case by (cases i) auto
qed simp

lemma entry_of_put: "entry_of (put_setting tab s) k = entry_of tab k"
  unfolding put_setting_def entry_of_def
  by (auto simp: find_index_key [where P = "\<lambda>x. strncasecmp_eq x k (length k)"] split: option.split)

lemma good_put: "good_settings (put_setting tab s) ss = good_settings tab ss"
  by (simp add: good_settings_def entry_of_put)

text \<open>One setting at the front of the text.\<close>

lemma set_getresp_setting:
  assumes "mem_ok os" and "setting_key (fst s)" "setting_value (snd s)" "entry_of (bootinfo w) (fst s) \<noteq> None"
    and "rest = [] \<or> hd rest = CHR '',''"
  shows "runs (set_getresp os (setting_text s @ rest) True) w (\<lambda>(rv, nxt) t. rv = 0 \<and>
    nxt = (if rest = [] then None else Some (tl rest)) \<and>
    bootinfo t = put_setting (bootinfo w) (fst s, snd s @ take 1 rest))"
proof -
  obtain i where i: "find_index (\<lambda>e. strncasecmp_eq (key e) (fst s) (length (fst s))) (bootinfo w) = Some i"
    using assms(4) by (auto simp: entry_of_def)
  have "dropWhile (\<lambda>c. c \<noteq> CHR '':'' \<and> c \<noteq> CHR '','') (snd s @ rest) = rest"
    using assms(3,5)
    by (cases rest) (auto simp: setting_value_def dropWhile_eq_Nil_conv intro: dropWhile_append_stop)
  then have parse: "parse_setting (fst s @ CHR '':'' # [] @ snd s @ rest) =
      Inr (fst s, snd s @ take 1 rest, if rest \<noteq> [] then Some (tl rest) else None)"
    using assms(2,3,5) by (subst parse_setting_key) (auto simp: setting_value_def Let_def blanks_def)
  have "set_getresp os ([] @ fst s @ CHR '':'' # snd s @ rest) True =
      bind (store_setting os (fst s) (snd s @ take 1 rest))
        (\<lambda>rv. ret (rv, if rest \<noteq> [] then Some (tl rest) else None))"
    using parse by (subst set_getresp_parsed [OF _ assms(2)]) (simp_all add: blanks_def)
  then show ?thesis
    using store_setting_run [OF assms(1) i]
    by (auto simp: setting_text_def put_setting_def entry_of_def i elim!: runs_mono)
qed

lemma boot_loop_setting:
  assumes "mem_ok os" and "setting_key (fst s)" "setting_value (snd s)" "entry_of (bootinfo w) (fst s) \<noteq> None"
    and "rest = [] \<or> hd rest = CHR '',''"
  obtains t where "boot_loop os (Some (setting_text s @ rest)) w =
      boot_loop os (if rest = [] then None else Some (tl rest)) t"
    and "bootinfo t = put_setting (bootinfo w) (fst s, snd s @ take 1 rest)"
  using set_getresp_setting [OF assms]
  by (subst (asm) boot_loop.simps) (auto elim!: runsE)

text \<open>
  C22. Boot parameters \<open>key:value,key:value\<close> are taken in their order, and the loop ends: each goes
  into the entry its key abbreviates unless that is set, every one but the last with its comma.
\<close>

theorem boot_settings:
  assumes "mem_ok os" and "ss \<noteq> []" and "good_settings (bootinfo w) ss"
  shows "\<exists>t. boot_loop os (Some (settings_text ss)) w = Some (Inr (True, t)) \<and>
    bootinfo t = put_settings (bootinfo w) ss"
  using assms(2,3)
proof (induction ss arbitrary: w rule: settings_text.induct)
  case (2 s)
  then obtain t where "boot_loop os (Some (setting_text s @ [])) w = boot_loop os None t"
    and "bootinfo t = put_setting (bootinfo w) (fst s, snd s @ take 1 [])"
    by (auto simp: good_settings_def intro: boot_loop_setting [OF assms(1), of s w "[]"])
  then show ?case by (auto simp: boot_loop.simps [of os None])
next
  case (3 s s' ss)
  let ?rest = "CHR '','' # settings_text (s' # ss)"
  obtain t where step: "boot_loop os (Some (setting_text s @ ?rest)) w =
        boot_loop os (Some (settings_text (s' # ss))) t"
      and t: "bootinfo t = put_setting (bootinfo w) (fst s, snd s @ '','')"
    using 3 by (auto simp: good_settings_def intro: boot_loop_setting [OF assms(1), of s w ?rest])
  have "good_settings (bootinfo t) (s' # ss)"
    using 3 by (simp add: t good_put) (simp add: good_settings_def)
  from "3.IH" [OF _ this] step t show ?case by simp
qed simp

text \<open>The loop never ends once only blanks are left, for \<open>set_getresp\<close> leaves its argument at the end.\<close>

lemma boot_loop_blank: "boot_loop os (Some ws) w \<noteq> Some r" if "blanks ws"
proof
  have "\<not> (\<exists>ws. a = Some ws \<and> blanks ws)" if "boot_loop os a w = Some r" for a
    using that
  proof (rule boot_loop.raw_induct [where P = "\<lambda>os a w r. \<not> (\<exists>ws. a = Some ws \<and> blanks ws)", rotated])
    fix f os a w r
    assume IH: "\<And>os a w r. f os a w = Some r \<Longrightarrow> \<not> (\<exists>ws. a = Some ws \<and> blanks ws)"
      and run: "(case a of None \<Rightarrow> Some (Inr (True, w)) | Some s \<Rightarrow>
        (case set_getresp os s True w of Inl f \<Rightarrow> Some (Inl f) | Inr (r, w') \<Rightarrow>
          if fst r \<noteq> 0 then Some (Inr (False, w')) else f os (snd r) w')) = Some r"
    show "\<not> (\<exists>ws. a = Some ws \<and> blanks ws)"
    proof
      assume "\<exists>ws. a = Some ws \<and> blanks ws"
      then obtain ws where a: "a = Some ws" and "blanks ws" by blast
      then have "dropWhile isspace ws = []" by (simp add: blanks_def)
      with run have "f os (Some []) w = Some r" by (simp add: a set_getresp_def ret_run)
      from IH [OF this] show False by (simp add: blanks_def)
    qed
  qed
  then show "boot_loop os (Some ws) w = Some r \<Longrightarrow> False" using that by blast
qed


text \<open>
  C23. The daemon never starts when the boot parameters end in a comma or are blank: \<open>set_getresp\<close> takes
  the settings, and then leaves its argument at the end of the text and reports success for ever.
\<close>

theorem boot_settings_hang:
  assumes "mem_ok os" and "good_settings (bootinfo w) ss" and "blanks ws"
  shows "main_options os [''-b'', concat (map (\<lambda>s. setting_text s @ '','') ss) @ ws] w = None"
proof -
  have "boot_loop os (Some (concat (map (\<lambda>s. setting_text s @ '','') ss) @ ws)) w = None"
    using assms(2)
  proof (induction ss arbitrary: w)
    case Nil
    show ?case using boot_loop_blank [OF assms(3)] by (auto simp: not_Some_eq [symmetric])
  next
    case (Cons s ss)
    let ?rest = "CHR '','' # concat (map (\<lambda>s. setting_text s @ '','') ss) @ ws"
    obtain t where step: "boot_loop os (Some (setting_text s @ ?rest)) w =
          boot_loop os (Some (concat (map (\<lambda>s. setting_text s @ '','') ss) @ ws)) t"
        and t: "bootinfo t = put_setting (bootinfo w) (fst s, snd s @ '','')"
      using Cons.prems by (auto simp: good_settings_def intro: boot_loop_setting [OF assms(1), of s w ?rest])
    have "good_settings (bootinfo t) ss"
      using Cons.prems by (simp add: t good_put) (simp add: good_settings_def)
    with Cons.IH step show ?case by simp
  qed
  moreover have "getopts [''-b'', a] = [(CHR ''b'', Some a)]" for a
    by simp
  ultimately show ?thesis by (simp add: main_options_def del: getopts.simps)
qed

section \<open>The switches\<close>

definition asked :: "char set \<Rightarrow> char \<Rightarrow> char \<Rightarrow> bool" where
  "asked cs c d \<longleftrightarrow> c \<in> cs \<or> d \<notin> cs"

definition bits :: "char set \<Rightarrow> char \<Rightarrow> char \<Rightarrow> 32 word" where
  "bits cs c d = (if c \<in> cs then 1 else 0) OR (if d \<in> cs then 2 else 0)"

definition flags_of :: "char set \<Rightarrow> opts \<Rightarrow> bool" where
  "flags_of cs o' \<longleftrightarrow> ipv46 o' = bits cs CHR ''4'' CHR ''6'' \<and>
     llmnrwsdd o' = bits cs CHR ''l'' CHR ''w'' \<and> tcpudp o' = bits cs CHR ''t'' CHR ''u''"

lemma flag_option_step:
  assumes "c \<in> set ''46lwtuLWd''" and "flags_of cs o'"
  shows "\<exists>o''. flag_option c o' = Inr o'' \<and> flags_of (insert c cs) o''"
  using assms by (auto simp: flag_option_def flags_of_def bits_def)

lemma option_loop_flags:
  assumes "set xs \<subseteq> set ''46lwtuLWd''" and "flags_of cs o'"
  shows "\<exists>o''. option_loop os (map (\<lambda>c. (c, None)) xs) o' w = Some (Inr (Inr o'', w)) \<and>
    flags_of (cs \<union> set xs) o''"
  using assms
proof (induction xs arbitrary: cs o')
  case (Cons c xs)
  have c: "c \<in> set ''46lwtuLWd''" using Cons.prems by simp
  obtain o1 where o1: "flag_option c o' = Inr o1" "flags_of (insert c cs) o1"
    using flag_option_step [OF c Cons.prems(2)] by blast
  have "c \<noteq> CHR ''b''" using c by auto
  moreover have "set xs \<subseteq> set ''46lwtuLWd''" using Cons.prems(1) by simp
  from Cons.IH [OF this o1(2)] have "\<exists>o''. option_loop os (map (\<lambda>c. (c, None)) xs) o1 w = Some (Inr (Inr o'', w)) \<and>
      flags_of (cs \<union> set (c # xs)) o''" by simp
  ultimately show ?case using o1(1) by simp
qed simp

lemma bits_asked:
  "((if bits cs c d = 0 then 1 OR 2 else bits cs c d) AND 1 = 0) = (\<not> asked cs c d)"
  "((if bits cs c d = 0 then 1 OR 2 else bits cs c d) AND 2 = 0) = (\<not> asked cs d c)"
  by (simp_all add: bits_def asked_def)

lemma default_fields:
  "ipv46 (default_opts o') = (if ipv46 o' = 0 then 1 OR 2 else ipv46 o')"
  "llmnrwsdd (default_opts o') = (if llmnrwsdd o' = 0 then 1 OR 2 else llmnrwsdd o')"
  "tcpudp (default_opts o') = (if tcpudp o' = 0 then 1 OR 2 else tcpudp o')"
  by (simp_all add: default_opts_def)

lemma default_flags:
  assumes "flags_of cs o'"
  shows "(ipv46 (default_opts o') AND 1 = 0) = (\<not> asked cs CHR ''4'' CHR ''6'')"
    "(ipv46 (default_opts o') AND 2 = 0) = (\<not> asked cs CHR ''6'' CHR ''4'')"
    "(tcpudp (default_opts o') AND 1 = 0) = (\<not> asked cs CHR ''t'' CHR ''u'')"
    "(tcpudp (default_opts o') AND 2 = 0) = (\<not> asked cs CHR ''u'' CHR ''t'')"
    "(llmnrwsdd (default_opts o') AND 1 = 0) = (\<not> asked cs CHR ''l'' CHR ''w'')"
    "(llmnrwsdd (default_opts o') AND 2 = 0) = (\<not> asked cs CHR ''w'' CHR ''l'')"
  using assms
  by (simp_all only: flags_of_def default_fields bits_asked)

lemma services_names:
  "list_all (\<lambda>sv. ((strstr (name sv) ''llmnr'' \<noteq> None) = (take 5 (name sv) = ''llmnr'')) \<and>
     ((strstr (name sv) ''wsdd'' \<noteq> None) = (take 4 (name sv) = ''wsdd''))) services"
  by code_simp

lemma name_parts:
  assumes "sv \<in> set services"
  shows "(strstr (name sv) ''llmnr'' \<noteq> None) = (take 5 (name sv) = ''llmnr'')"
    "(strstr (name sv) ''wsdd'' \<noteq> None) = (take 4 (name sv) = ''wsdd'')"
  using services_names assms unfolding list_all_iff by blast+

text \<open>
  C37. What the switches select: a service is opened unless a switch of its kind (family, transport,
  protocol) was given and none of those for the service itself; other switches do not matter, nor do
  order and repetition.
\<close>

theorem options_select:
  assumes "set xs \<subseteq> set ''46lwtuLWd''"
  shows "\<exists>o'. option_loop os (map (\<lambda>c. (c, None)) xs) no_opts w = Some (Inr (Inr o', w)) \<and>
    (\<forall>sv \<in> set services. wanted (default_opts o') sv \<longleftrightarrow>
       (sv_family sv = AF_INET \<longrightarrow> asked (set xs) CHR ''4'' CHR ''6'') \<and>
       (sv_family sv = AF_INET6 \<longrightarrow> asked (set xs) CHR ''6'' CHR ''4'') \<and>
       (sv_type sv = SOCK_STREAM \<longrightarrow> asked (set xs) CHR ''t'' CHR ''u'') \<and>
       (sv_type sv = SOCK_DGRAM \<longrightarrow> asked (set xs) CHR ''u'' CHR ''t'') \<and>
       (take 5 (name sv) = ''llmnr'' \<longrightarrow> asked (set xs) CHR ''l'' CHR ''w'') \<and>
       (take 4 (name sv) = ''wsdd'' \<longrightarrow> asked (set xs) CHR ''w'' CHR ''l''))"
proof -
  have "flags_of {} no_opts" by (simp add: flags_of_def no_opts_def bits_def)
  from option_loop_flags [OF assms this] obtain o' where
    o': "option_loop os (map (\<lambda>c. (c, None)) xs) no_opts w = Some (Inr (Inr o', w))"
    and f: "flags_of (set xs) o'" by auto
  show ?thesis
  proof (intro exI conjI ballI, rule o')
    fix sv
    assume sv: "sv \<in> set services"
    show "wanted (default_opts o') sv \<longleftrightarrow>
       (sv_family sv = AF_INET \<longrightarrow> asked (set xs) CHR ''4'' CHR ''6'') \<and>
       (sv_family sv = AF_INET6 \<longrightarrow> asked (set xs) CHR ''6'' CHR ''4'') \<and>
       (sv_type sv = SOCK_STREAM \<longrightarrow> asked (set xs) CHR ''t'' CHR ''u'') \<and>
       (sv_type sv = SOCK_DGRAM \<longrightarrow> asked (set xs) CHR ''u'' CHR ''t'') \<and>
       (take 5 (name sv) = ''llmnr'' \<longrightarrow> asked (set xs) CHR ''l'' CHR ''w'') \<and>
       (take 4 (name sv) = ''wsdd'' \<longrightarrow> asked (set xs) CHR ''w'' CHR ''l'')"
      unfolding wanted_def default_flags [OF f] name_parts [OF sv] by blast
  qed
qed

section \<open>Examples\<close>

lemma boot_entries:
  "entry_of initial_bootinfo ''sku'' = Some 3" "entry_of initial_bootinfo ''vendor'' = Some 0"
  by code_simp+

lemma good_example: "good_settings (bootinfo boot_world) [(''vendor'', ''X''), (''sku'', ''Z'')]"
  by (simp add: good_settings_def boot_world_def boot_entries setting_key_def setting_value_def isspace_def)

theorem boot_settings_witness:
  "\<exists>t. boot_loop lan_os (Some ''vendor:X,sku:Z'') boot_world = Some (Inr (True, t)) \<and>
     get_getresp (bootinfo t) ''vendor:'' = ''X,'' \<and> get_getresp (bootinfo t) ''sku:'' = ''Z''"
proof -
  have "get_getresp (put_settings initial_bootinfo [(''vendor'', ''X''), (''sku'', ''Z'')]) ''vendor:'' = ''X,''"
    "get_getresp (put_settings initial_bootinfo [(''vendor'', ''X''), (''sku'', ''Z'')]) ''sku:'' = ''Z''"
    by code_simp+
  with boot_settings [OF mem_ok_lan _ good_example] show ?thesis
    by (auto simp: setting_text_def boot_world_def)
qed

theorem boot_settings_hang_witness:
  "main_options lan_os [''-b'', ''vendor:X,sku:Z,''] boot_world = None"
  using boot_settings_hang [OF mem_ok_lan good_example, of "[]"] by (simp add: blanks_def setting_text_def)

theorem options_select_witness:
  "\<exists>o'. option_loop quiet_os [(CHR ''4'', None), (CHR ''t'', None)] no_opts zero_world =
       Some (Inr (Inr o', zero_world)) \<and>
     map name (filter (wanted (default_opts o')) services) = [''wsdd-http-v4'', ''llmnr-tcp-v4'', ''ifaddr-netlink-v4v6'']"
proof -
  obtain o' where o': "option_loop quiet_os (map (\<lambda>c. (c, None)) ''4t'') no_opts zero_world =
      Some (Inr (Inr o', zero_world))"
    and sel: "\<forall>sv \<in> set services. wanted (default_opts o') sv \<longleftrightarrow>
       (sv_family sv = AF_INET \<longrightarrow> asked (set ''4t'') CHR ''4'' CHR ''6'') \<and>
       (sv_family sv = AF_INET6 \<longrightarrow> asked (set ''4t'') CHR ''6'' CHR ''4'') \<and>
       (sv_type sv = SOCK_STREAM \<longrightarrow> asked (set ''4t'') CHR ''t'' CHR ''u'') \<and>
       (sv_type sv = SOCK_DGRAM \<longrightarrow> asked (set ''4t'') CHR ''u'' CHR ''t'') \<and>
       (take 5 (name sv) = ''llmnr'' \<longrightarrow> asked (set ''4t'') CHR ''l'' CHR ''w'') \<and>
       (take 4 (name sv) = ''wsdd'' \<longrightarrow> asked (set ''4t'') CHR ''w'' CHR ''l'')"
    using options_select [of "''4t''" quiet_os zero_world] by auto
  have "filter (wanted (default_opts o')) services =
      filter (\<lambda>sv. sv_family sv \<noteq> AF_INET6 \<and> sv_type sv \<noteq> SOCK_DGRAM) services"
    using sel by (intro filter_cong) (auto simp: asked_def)
  moreover have "map name (filter (\<lambda>sv. sv_family sv \<noteq> AF_INET6 \<and> sv_type sv \<noteq> SOCK_DGRAM) services) =
      [''wsdd-http-v4'', ''llmnr-tcp-v4'', ''ifaddr-netlink-v4v6'']"
    by code_simp
  ultimately show ?thesis using o' by auto
qed

end
