(* ===== verification/Wsd_Identity.thy ===== *)
theory Wsd_Identity
  imports Wsd_Recv
begin

text \<open>
  The identity of the device: instance, sequence, endpoint, names and device data are settled by the
  first \<open>wsd_init\<close> that succeeds and are the same after every later start of the service, so that the
  peers recognise the device after a restart.
\<close>

text \<open>Each part of the identity that is set stays what it is.\<close>

definition same_identity :: "world \<Rightarrow> world \<Rightarrow> bool" where
  "same_identity s t \<longleftrightarrow>
     (wsd_instance s \<noteq> 0 \<longrightarrow> wsd_instance t = wsd_instance s) \<and>
     (wsd_sequence s \<noteq> [] \<longrightarrow> wsd_sequence t = wsd_sequence s) \<and>
     (wsd_endpoint s \<noteq> [] \<longrightarrow> wsd_endpoint t = wsd_endpoint s) \<and>
     (hostname s \<noteq> [] \<longrightarrow> hostname t = hostname s) \<and>
     (workgroup s \<noteq> None \<longrightarrow> workgroup t = workgroup s) \<and>
     (netbiosname s \<noteq> None \<longrightarrow> netbiosname t = netbiosname s) \<and>
     (getresp_inited s \<longrightarrow> getresp_inited t \<and> bootinfo t = bootinfo s)"

interpretation ident: frame same_identity
  by unfold_locales (auto simp: same_identity_def)

lemma steady_same: "keeps steady m \<Longrightarrow> keeps same_identity m"
  by (erule keeps_mono) (simp add: steady_def same_identity_def)

lemma steady_uuid_random: "keeps steady (uuid_random os n)"
  unfolding uuid_random_def set_seed_def srand48_def mrand48_def
  by (intro std.keeps_intros std.keeps_modify steady_rules) (simp_all add: steady_def)

lemma steady_uuid_endpoint: "keeps steady (uuid_endpoint os)"
  unfolding uuid_endpoint_def by (intro std.keeps_intros steady_rules)

lemma steady_get_smbparm: "keeps steady (get_smbparm os nm d)"
  unfolding get_smbparm_def Let_def by (intro std.keeps_intros steady_rules steady_strdup)

lemma steady_asprintf: "keeps steady (asprintf os fmt args)"
  unfolding asprintf_def by (intro std.keeps_intros steady_rules)

section \<open>What never touches the identity\<close>

text \<open>No part of the identity is changed, set or not: all code but \<open>wsd_init\<close>.\<close>

definition fixed :: "world \<Rightarrow> world \<Rightarrow> bool" where
  "fixed s t \<longleftrightarrow>
     wsd_instance t = wsd_instance s \<and> wsd_sequence t = wsd_sequence s \<and>
     wsd_endpoint t = wsd_endpoint s \<and> hostname t = hostname s \<and> workgroup t = workgroup s \<and>
     netbiosname t = netbiosname s \<and> getresp_inited t = getresp_inited s \<and> bootinfo t = bootinfo s"

interpretation fixd: frame fixed
  by unfold_locales (auto simp: fixed_def)

named_theorems fixed_rules \<open>computations that leave the identity alone\<close>

lemma fixed_same: "keeps fixed m \<Longrightarrow> keeps same_identity m"
  by (erule keeps_mono) (simp add: fixed_def same_identity_def)

lemma fixed_steady: "keeps steady m \<Longrightarrow> keeps fixed m"
  by (erule keeps_mono) (simp add: steady_def fixed_def)

lemma fixed_modify: "(\<And>s. fixed s (g s)) \<Longrightarrow> keeps fixed (modify g)"
  by (rule fixd.keeps_modify)

lemma fixed_emit [fixed_rules]: "keeps fixed (emit e)"
  unfolding emit_def by (rule fixed_modify) (simp add: fixed_def)

lemmas fixed_basic [fixed_rules] = steady_rules [THEN fixed_steady] steady_strdup [THEN fixed_steady]
  steady_ip2uri [THEN fixed_steady] steady_uuid_random [THEN fixed_steady]
  steady_asprintf [THEN fixed_steady]

lemma fixed_calls [fixed_rules]:
  "keeps fixed (sys_send os fd bs)" "keeps fixed (sys_sendto os fd bs sa)"
  "keeps fixed (sys_recvfrom os fd n)" "keeps fixed (sys_close fd)"
  "keeps fixed (sys_status f)"
  unfolding sys_send_def sys_sendto_def sys_recvfrom_def sys_close_def sys_status_def
  by (intro fixd.keeps_intros fixed_rules)+

lemma fixed_socket_calls [fixed_rules]:
  "keeps fixed (sys_setsockopt os fd opt)" "keeps fixed (sys_membership os fd opt mr)"
  "keeps fixed (sys_bind os fd sa)" "keeps fixed (sys_listen os fd)"
  "keeps fixed (sys_socket os fam ty pr)"
  unfolding sys_setsockopt_def sys_membership_def sys_bind_def sys_listen_def sys_socket_def Let_def
  by (intro fixd.keeps_intros fixed_rules)+

lemma fixed_rx_calls [fixed_rules]:
  "keeps fixed (sys_accept os fd)" "keeps fixed (sys_recv os fd n)"
  unfolding sys_accept_def sys_recv_def
  by (intro fixd.keeps_intros fixed_rules fixed_modify; simp add: fixed_def)+

lemma fixed_wsd_send_msg [fixed_rules]: "keeps fixed (wsd_send_msg os fd ep sa msg rwait)"
  unfolding wsd_send_msg_def by (intro fixd.keeps_intros fixed_rules)

lemma fixed_relates_elem [fixed_rules]: "keeps fixed (relates_elem os r)"
  unfolding relates_elem_def by (intro fixd.keeps_intros fixed_rules)

lemma fixed_soap_msg:
  assumes "\<And>h n. header = Some h \<Longrightarrow> keeps fixed (h fd ep sa st n)"
  shows "keeps fixed (wsd_send_soap_msg os fd ep sa to act relates body header st)"
  unfolding wsd_send_soap_msg_def
  by (cases header; simp only: option.case; intro fixd.keeps_intros fixed_rules fixed_modify assms;
      simp add: fixed_def)

lemma fixed_soap_fault [fixed_rules]: "keeps fixed (wsd_send_soap_fault os fd ep sa code reason detail)"
  unfolding wsd_send_soap_fault_def
  by (intro fixd.keeps_intros fixed_rules fixed_modify) (simp add: fixed_def)

lemma fixed_http_header [fixed_rules]: "keeps fixed (send_http_resp_header os fd ep sa st n)"
  unfolding send_http_resp_header_def by (intro fixd.keeps_intros fixed_rules)

lemma fixed_hello_bye [fixed_rules]:
  "keeps fixed (wsd_send_hello os ep)" "keeps fixed (wsd_send_bye os ep)"
  unfolding wsd_send_hello_def wsd_send_bye_def
  by (intro fixd.keeps_intros fixed_rules fixed_soap_msg fixed_modify; simp add: fixed_def)+

lemma fixed_answers [fixed_rules]:
  "keeps fixed (wsd_send_probe_match os fd ep sa info ip)"
  "keeps fixed (wsd_send_resolve_match os fd ep sa info ip)"
  unfolding wsd_send_probe_match_def wsd_send_resolve_match_def
  by (intro fixd.keeps_intros fixed_rules fixed_soap_msg; simp)+

lemma fixed_get_response [fixed_rules]: "keeps fixed (wsd_send_get_response os fd ep sa info ip)"
  unfolding wsd_send_get_response_def
  by (intro fixd.keeps_intros fixed_rules fixed_soap_msg) (auto intro: fixed_rules)

text \<open>
  A stage of \<open>wsd_init\<close> looks at one part, works out a value in a steady way and stores it, only when
  the part is not set yet.
\<close>

lemma ident_stage:
  assumes "\<And>s t. steady s t \<Longrightarrow> g t = g s" and "keeps steady m"
    and "\<And>t u r v. P (g t) \<Longrightarrow> n u t = Inr (r, v) \<Longrightarrow> same_identity t v"
    and "\<And>r. keeps same_identity (k r)"
  shows "keeps same_identity (bind (get g) (\<lambda>x. bind (if P x then bind m n else ret y) k))"
  unfolding keeps_def
proof (intro allI impI)
  fix s b u
  assume run: "bind (get g) (\<lambda>x. bind (if P x then bind m n else ret y) k) s = Inr (b, u)"
  show "same_identity s u"
  proof (cases "P (g s)")
    case True
    with run obtain a t r v where m: "m s = Inr (a, t)" and n: "n a t = Inr (r, v)"
      and k: "k r v = Inr (b, u)"
      by (auto simp: bind_eq_Inr get_run)
    from assms(2) m have st: "steady s t" by (rule keepsD)
    have "P (g t)" using True unfolding assms(1) [OF st] .
    then have "same_identity t v" using n by (rule assms(3))
    moreover from st have "same_identity s t" by (simp add: steady_def same_identity_def)
    moreover have "same_identity v u" using keepsD [OF assms(4) k] .
    ultimately show ?thesis by (blast intro: ident.frame_trans)
  next
    case False
    with run have "k y s = Inr (b, u)" by (simp add: bind_run get_run ret_run)
    then show ?thesis by (rule keepsD [OF assms(4)])
  qed
qed

lemma steady_fields:
  "steady s t \<Longrightarrow> wsd_instance t = wsd_instance s" "steady s t \<Longrightarrow> wsd_sequence t = wsd_sequence s"
  "steady s t \<Longrightarrow> wsd_endpoint t = wsd_endpoint s" "steady s t \<Longrightarrow> hostname t = hostname s"
  "steady s t \<Longrightarrow> workgroup t = workgroup s"
  by (simp_all add: steady_def)

lemma ident_netbios:
  assumes "\<And>r. keeps same_identity (k r)"
  shows "keeps same_identity (bind (get netbiosname) (\<lambda>nb. bind (get hostname) (\<lambda>hn.
     bind (if nb = None then bind (get_smbparm os ''netbios name'' hn) (\<lambda>p.
             bind (modify (\<lambda>w. w\<lparr>netbiosname := p\<rparr>)) (\<lambda>_. ret (p \<noteq> None)))
           else ret True) k)))"
proof -
  have "keeps same_identity (bind (get (\<lambda>w. (netbiosname w, hostname w))) (\<lambda>x.
     bind (if fst x = None then bind (bind (get hostname) (get_smbparm os ''netbios name'')) (\<lambda>p.
             bind (modify (\<lambda>w. w\<lparr>netbiosname := p\<rparr>)) (\<lambda>_. ret (p \<noteq> None)))
           else ret True) k))"
  proof (rule ident_stage [where P = "\<lambda>x. fst x = None"])
    show "keeps steady (bind (get hostname) (get_smbparm os ''netbios name''))"
      by (intro std.keeps_bind std.keeps_get steady_get_smbparm)
    show "same_identity t v" if "fst (netbiosname t, hostname t) = None"
      "bind (modify (\<lambda>w. w\<lparr>netbiosname := u\<rparr>)) (\<lambda>_. ret (u \<noteq> None)) t = Inr (r, v)" for t v u r
      using that by (auto simp: bind_run modify_run ret_run same_identity_def)
  qed (simp_all add: assms steady_def)
  moreover have "bind (get netbiosname) (\<lambda>nb. bind (get hostname) (\<lambda>hn.
     bind (if nb = None then bind (get_smbparm os ''netbios name'' hn) (\<lambda>p.
             bind (modify (\<lambda>w. w\<lparr>netbiosname := p\<rparr>)) (\<lambda>_. ret (p \<noteq> None)))
           else ret True) k)) =
    bind (get (\<lambda>w. (netbiosname w, hostname w))) (\<lambda>x.
     bind (if fst x = None then bind (bind (get hostname) (get_smbparm os ''netbios name'')) (\<lambda>p.
             bind (modify (\<lambda>w. w\<lparr>netbiosname := p\<rparr>)) (\<lambda>_. ret (p \<noteq> None)))
           else ret True) k)"
    by (rule ext) (simp add: bind_run get_run)
  ultimately show ?thesis by simp
qed

text \<open>Reading the device data changes no other part.\<close>

definition data_only :: "world \<Rightarrow> world \<Rightarrow> bool" where
  "data_only s t \<longleftrightarrow> wsd_instance t = wsd_instance s \<and> wsd_sequence t = wsd_sequence s \<and>
     wsd_endpoint t = wsd_endpoint s \<and> hostname t = hostname s \<and> workgroup t = workgroup s \<and>
     netbiosname t = netbiosname s"

interpretation data: frame data_only
  by unfold_locales (auto simp: data_only_def)

lemma data_steady: "keeps steady m \<Longrightarrow> keeps data_only m"
  by (erule keeps_mono) (simp add: steady_def data_only_def)

lemma data_set_getresp: "keeps data_only (set_getresp os s b)"
  unfolding set_getresp_def store_setting_def Let_def
  by (intro data.keeps_intros data.keeps_modify data_steady [OF steady_strdup])
    (simp add: data_only_def)

lemma data_init_loop: "keeps data_only (init_getresp_loop os s)"
proof (induction s rule: length_induct)
  case (1 s)
  show ?case
    by (subst init_getresp_loop.simps)
      (auto split: option.splits intro!: data.keeps_ret data.keeps_bind data_set_getresp
        dest: fgets_shorter [rotated] simp: 1)
qed

lemma data_init_getresp: "keeps data_only (init_getresp os)"
  unfolding init_getresp_def
  by (intro data.keeps_intros data.keeps_modify data_init_loop data_steady [OF steady_failing])
    (simp add: data_only_def)

lemma ident_getresp:
  assumes "\<And>r. keeps same_identity (k r)"
  shows "keeps same_identity (bind (get getresp_inited) (\<lambda>i. bind (if i then ret () else init_getresp os) k))"
proof -
  have "keeps same_identity (bind (get getresp_inited) (\<lambda>i.
      bind (if \<not> i then bind (ret ()) (\<lambda>_. init_getresp os) else ret ()) k))"
    by (rule ident_stage [where P = Not])
      (auto simp: assms steady_def std.keeps_ret same_identity_def data_only_def
        dest: keepsD [OF data_init_getresp])
  moreover have "(\<lambda>i. bind (if \<not> i then bind (ret ()) (\<lambda>_. init_getresp os) else ret ()) k) =
      (\<lambda>i. bind (if i then ret () else init_getresp os) k)"
    by (rule ext) simp
  ultimately show ?thesis by simp
qed

lemmas ident_simps = steady_fields exec_simps same_identity_def

lemmas ident_intros = steady_sys steady_uuid_random steady_uuid_endpoint steady_failing
  steady_get_smbparm

lemma ident_wsd_instance:
  assumes "\<And>r. keeps same_identity (k r)"
  shows "keeps same_identity (bind (get wsd_instance) (\<lambda>i.
      bind (if i = 0 then bind (sys (os_time os)) (\<lambda>now. modify (\<lambda>w. w\<lparr>wsd_instance := now\<rparr>))
            else ret ()) k))"
  by (rule ident_stage; auto simp: assms ident_simps intro!: ident_intros split: option.splits)

lemma ident_wsd_sequence:
  assumes "\<And>r. keeps same_identity (k r)"
  shows "keeps same_identity (bind (get wsd_sequence) (\<lambda>sq.
      bind (if sq = [] then bind (uuid_random os UUIDLEN) (\<lambda>u. modify (\<lambda>w. w\<lparr>wsd_sequence := u\<rparr>))
            else ret ()) k))"
  by (rule ident_stage; auto simp: assms ident_simps intro!: ident_intros split: option.splits)

lemma ident_wsd_endpoint:
  assumes "\<And>r. keeps same_identity (k r)"
  shows "keeps same_identity (bind (get wsd_endpoint) (\<lambda>epuuid.
      bind (if epuuid = [] then bind (uuid_endpoint os) (\<lambda>u. case u of None \<Rightarrow> ret ()
              | Some u \<Rightarrow> modify (\<lambda>w. w\<lparr>wsd_endpoint := u\<rparr>))
            else ret ()) k))"
  by (rule ident_stage; auto simp: assms ident_simps intro!: ident_intros split: option.splits)

lemma ident_hostname:
  assumes "\<And>r. keeps same_identity (k r)"
  shows "keeps same_identity (bind (get hostname) (\<lambda>hn.
      bind (if hn = [] then bind (failing (os_gethostname os)) (\<lambda>h. case h of None \<Rightarrow> ret False
              | Some nm \<Rightarrow> bind (modify (\<lambda>w. w\<lparr>hostname := upto_NUL nm\<rparr>)) (\<lambda>_. ret True))
            else ret True) k))"
  by (rule ident_stage; auto simp: assms ident_simps intro!: ident_intros split: option.splits)

lemma ident_workgroup:
  assumes "\<And>r. keeps same_identity (k r)"
  shows "keeps same_identity (bind (get workgroup) (\<lambda>wg.
      bind (if wg = None then bind (get_smbparm os ''workgroup'' ''WORKGROUP'') (\<lambda>p.
              bind (modify (\<lambda>w. w\<lparr>workgroup := p\<rparr>)) (\<lambda>_. ret (p \<noteq> None)))
            else ret True) k))"
  by (rule ident_stage; auto simp: assms ident_simps intro!: ident_intros split: option.splits)

text \<open>
  Starting again never changes who the device is: whatever \<open>wsd_init\<close> finds set, from the instance
  number to the device data, it leaves as it is, also when it fails half-way.
\<close>

lemma wsd_init_identity: "keeps same_identity (wsd_init os ep)"
  unfolding wsd_init_def
  by (rule ident_wsd_instance ident_wsd_sequence ident_wsd_endpoint ident_hostname ident_workgroup
      ident_netbios ident_getresp fixed_same [OF fixed_hello_bye(1)] ident.keeps_if ident.keeps_ret
      ident.keeps_bind ident.keeps_get steady_same [OF steady_set_err])+

end
