(* ===== verification/Main_Identity.thy ===== *)
theory Main_Identity
  imports Main_Props Main_Options Wsd_Identity
begin

text \<open>
  The identity of the device over the life of the daemon: whatever is received, and however often the
  service starts again, what is settled stays settled; and with TCP alone nothing is ever settled.
\<close>

section \<open>Handlers\<close>

lemma fixed_lookup [fixed_rules]:
  "keeps fixed (connected_if os sa)" "keeps fixed (inet_ntop fam bs)"
  unfolding connected_if_def inet_ntop_def
  by (intro fixd.keeps_intros fixed_rules)+

lemma fixed_strndup [fixed_rules]: "keeps fixed (strndup os s n)"
  unfolding strndup_def by (intro fixd.keeps_intros fixed_rules)

lemma fixed_req_parse [fixed_rules]: "keeps fixed (wsd_req_parse os s)"
  unfolding wsd_req_parse_def Let_def by (intro fixd.keeps_intros fixed_rules)

lemma fixed_recv_action:
  assumes "\<And>ip. keeps fixed (f fd ep sa info ip)"
  shows "keeps fixed (wsd_recv_action os f fd ep sa info)"
  unfolding wsd_recv_action_def by (intro fixd.keeps_intros fixed_rules assms)

lemma fixed_dispatch [fixed_rules]: "keeps fixed (wsd_dispatch os fd ep sa info)"
  unfolding wsd_dispatch_def
  by (auto intro!: fixd.keeps_ret fixed_recv_action fixed_rules split: option.splits wsd_action.splits)

lemma fixed_buffers [fixed_rules]:
  "keeps fixed (recv_buffer os dat)" "keeps fixed (cstr_at buf p)" "keeps fixed (put buf i c)"
  "keeps fixed (recv_at os fd buf i n)"
  unfolding recv_buffer_def cstr_at_def put_def recv_at_def
  by (intro fixd.keeps_intros fixed_rules)+

lemma fixed_http_again [fixed_rules]: "keeps fixed (http_again os fd bsize buf p len cl)"
  unfolding keeps_def
  using http_again_frame [OF fixd.frame_axioms fixed_buffers(4)] by blast

lemma fixed_http_body [fixed_rules]: "keeps fixed (http_body os fd bsize buf len cl)"
  unfolding http_body_def by (intro fixd.keeps_intros fixed_rules)

lemma fixed_http_rest [fixed_rules]: "keeps fixed (http_rest os fd bsize buf p len)"
  unfolding http_rest_def by (intro fixd.keeps_intros fixed_rules)

lemma fixed_http_header_in [fixed_rules]: "keeps fixed (wsd_parse_http_header os fd ep buf len bsize)"
  unfolding wsd_parse_http_header_def
  by (intro fixd.keeps_intros fixed_rules fixed_modify) (simp add: fixed_def)

lemma fixed_wsd_reply [fixed_rules]: "keeps fixed (wsd_reply os ep fd sa status buf)"
  unfolding wsd_reply_def by (intro fixd.keeps_intros fixed_rules)

lemma fixed_wsd_handle [fixed_rules]: "keeps fixed (wsd_handle os ep fd sa dat)"
  unfolding wsd_handle_def by (intro fixd.keeps_intros fixed_rules)

lemma fixed_wsd_serve [fixed_rules]: "keeps fixed (wsd_serve os ep fd sa)"
  unfolding wsd_serve_def by (intro fixd.keeps_intros fixed_rules)

lemma fixed_wsd_recv [fixed_rules]: "keeps fixed (wsd_recv os ep)"
  unfolding wsd_recv_def by (intro fixd.keeps_intros fixed_rules)

lemma fixed_rd [fixed_rules]: "keeps fixed (rd b i)" "keeps fixed (rd16 b i)"
  unfolding rd_def rd16_def by (intro fixd.keeps_intros)+

lemma fixed_llmnr_name [fixed_rules]: "keeps fixed (llmnr_name os b p nm)"
  by (rule llmnr_name_frame [OF fixd.frame_axioms]) (rule fixed_rules)

lemma fixed_llmnr_recv [fixed_rules]: "keeps fixed (llmnr_recv os ep)"
  unfolding llmnr_recv_def llmnr_send_response_def Let_def
  by (intro fixd.keeps_intros fixed_rules)

lemma fixed_restart_service [fixed_rules]: "keeps fixed restart_service"
  unfolding restart_service_def
  by (intro fixd.keeps_intros fixed_modify) (simp add: fixed_def)

lemma fixed_netlink_recv [fixed_rules]: "keeps fixed (netlink_recv os ep)"
  unfolding netlink_recv_def Let_def by (intro fixd.keeps_intros fixed_rules)

lemma fixed_handlers [fixed_rules]:
  "keeps fixed (run_recv os f ep)" "keeps fixed (run_exit os g ep)" "keeps fixed (after_recv r)"
  unfolding run_recv_def run_exit_def returning_def after_recv_def wsd_exit_def llmnr_exit_def
  by (auto split: recv_fn.split option.split exit_fn.split outcome.split
      intro!: fixd.keeps_ret fixd.keeps_bind fixed_rules)

section \<open>The main program\<close>

text \<open>
  What the life of the daemon keeps: the identity that is settled; and with no UDP service wanted, the
  whole identity, set or not, because only the UDP services start with \<open>wsd_init\<close>.
\<close>

definition settled :: "opts \<Rightarrow> world \<Rightarrow> world \<Rightarrow> bool" where
  "settled o' = (if tcpudp o' AND 2 = 0 then fixed else same_identity)"

interpretation settled: frame "settled o'" for o'
  by unfold_locales (auto simp: settled_def fixed_def same_identity_def)

lemma settled_fixed: "keeps fixed m \<Longrightarrow> keeps (settled o') m"
  by (simp add: settled_def fixed_same)

lemma settled_init:
  assumes "sv \<in> set services" and "wanted o' sv"
  shows "keeps (settled o') (run_init os (sv_init sv) ep)"
proof (cases "sv_init sv = Some Wsd_init")
  case True
  with assms(1) have "sv_type sv = SOCK_DGRAM"
    by (auto simp: services_def wsdd_mcast_def wsdd_http_def llmnr_service_def netlink_service_def)
  with assms(2) have "tcpudp o' AND 2 \<noteq> 0" by (auto simp: wanted_def)
  with True show ?thesis by (simp add: settled_def run_init_def wsd_init_identity)
next
  case False
  then have "keeps fixed (run_init os (sv_init sv) ep)"
    by (auto simp: run_init_def llmnr_init_def split: option.split init_fn.split intro!: fixd.keeps_ret)
  then show ?thesis by (rule settled_fixed)
qed

lemmas settled_rules = settled_fixed [OF fixed_calls(4)] settled_fixed [OF fixed_calls(5)]
  settled_fixed [OF fixed_socket_calls(1)] settled_fixed [OF fixed_socket_calls(2)]
  settled_fixed [OF fixed_socket_calls(3)] settled_fixed [OF fixed_socket_calls(4)]
  settled_fixed [OF fixed_socket_calls(5)] settled_fixed [OF fixed_emit]
  steady_rules [THEN fixed_steady, THEN settled_fixed]

lemma keeps_bindP:
  assumes "frame R" and "keeps R m" and "yields P m" and "\<And>a. P a \<Longrightarrow> keeps R (k a)"
  shows "keeps R (bind m k)"
  using assms(2-4) unfolding keeps_def yields_def bind_eq_Inr
  by (blast intro: frame.frame_trans [OF assms(1)])

lemma settled_ep_start:
  assumes "sv \<in> set services" and "wanted o' sv" and "service ep = sv"
  shows "keeps (settled o') (ep_start os sp ep)"
  unfolding ep_start_def ep_join_def ep_finish_def Let_def
  by (intro settled.keeps_intros settled_rules) (use settled_init [OF assms(1,2)] assms(3) in simp)

lemma fixed_ep_parts [fixed_rules]:
  "keeps fixed (ep_addresses os ifa sp ep)" "keeps fixed (ep_port os sv)" "keeps fixed (ep_fail s e ep)"
  unfolding ep_addresses_def ep_port_def ep_fail_def Let_def
  by (intro fixd.keeps_intros fixed_rules fixed_modify; simp add: fixed_def)+

lemma settled_open_ep:
  assumes sv: "sv \<in> set services" "wanted o' sv"
  shows "keeps (settled o') (open_ep os sv ifa)"
proof -
  have addr: "keeps (settled o') (bind (ep_addresses os ifa sp (new_ep sv ifa\<lparr>port := p\<rparr>)) (\<lambda>(ok, ep).
      if \<not> ok then ret (- 1, ep) else ep_start os sp ep))" for sp p
  proof (rule keeps_bindP [OF settled.frame_axioms settled_fixed ep_addresses_as])
    show "opened_as sv (new_ep sv ifa\<lparr>port := p\<rparr>)" by (simp add: opened_as_def new_ep_def Let_def)
    show "keeps (settled o') (case r of (ok, ep) \<Rightarrow> if \<not> ok then ret (- 1, ep) else ep_start os sp ep)"
      if "opened_as sv (snd r)" for r
      using that settled_ep_start [OF sv] by (cases r) (auto simp: opened_as_def intro: settled.keeps_ret)
  qed (rule fixed_rules)
  show ?thesis
    unfolding open_ep_def Let_def
    by (intro addr settled.keeps_intros settled_rules settled_fixed [OF fixed_ep_parts(2)]
        settled_fixed [OF fixed_ep_parts(3)] settled_fixed [OF fixed_modify]) (simp add: fixed_def)
qed

lemma settled_open_ifaces:
  assumes "sv \<in> set services" "wanted o' sv"
  shows "keeps (settled o') (open_ifaces os sv ifas eps)"
  by (induction ifas arbitrary: eps)
    (auto simp: fd_set_def split: option.split intro!: settled.keeps_intros settled_open_ep [OF assms] settled_rules)

lemma settled_open_services:
  assumes "set svs \<subseteq> set services"
  shows "keeps (settled o') (open_services os o' ifas svs eps)"
  using assms
proof (induction svs arbitrary: eps)
  case (Cons sv svs)
  have sv: "sv \<in> set services" and rest: "keeps (settled o') (open_services os o' ifas svs eps)" for eps
    using Cons by auto
  show ?case
    using settled_open_ifaces [OF sv] settled_open_ep [OF sv]
    by (auto simp: fd_set_def split: option.split intro!: settled.keeps_intros rest)
qed (simp add: settled.keeps_ret)

lemma fixed_sigactions: "keeps fixed (sigactions os sigs)"
  by (induction sigs) (auto intro!: fixd.keeps_intros fixed_rules)

lemma fixed_close_ep: "keeps fixed (close_ep os ep)"
  unfolding close_ep_def by (intro fixd.keeps_intros fixed_rules)

lemma settled_main_step: "keeps (settled o') (main_step os o' m)"
proof -
  have "keeps fixed (select_step os eps)" for eps
    unfolding select_step_def Let_def by (intro fixd.keeps_intros fixed_rules)
  moreover have "keeps fixed (dispatch_step os eps rest n ready)" for eps rest n ready
    unfolding dispatch_step_def
    by (auto split: nat.split list.split option.split outcome.split intro!: fixd.keeps_intros fixed_rules)
  moreover have "keeps fixed (end_step os eps bad rv)" for eps bad rv
    unfolding end_step_def
    by (auto split: list.split option.split prod.split intro!: fixd.keeps_intros fixed_rules fixed_close_ep fixed_modify
        simp: fixed_def)
  moreover have "keeps (settled o') (start_step os o')"
    unfolding start_step_def
    by (auto split: option.split intro!: settled.keeps_intros settled_open_services
        settled_fixed [OF fixed_sigactions] settled_rules)
  ultimately show ?thesis
    unfolding main_step_def by (auto split: mstate.split intro!: settled.keeps_ret settled_fixed)
qed

lemma settled_mstep: "mstep os o' c c' \<Longrightarrow> settled o' (snd c) (snd c')"
proof (induction rule: mstep.induct)
  case (work m w m' w')
  then show ?case using keepsD [OF settled_main_step] by simp
next
  case (signal m sig w)
  then show ?case by (simp add: settled_def fixed_def same_identity_def)
qed

lemma settled_msteps: "(mstep os o')\<^sup>*\<^sup>* c c' \<Longrightarrow> settled o' (snd c) (snd c')"
  by (induction rule: rtranclp_induct) (auto intro: settled.frame_refl settled.frame_trans settled_mstep)

text \<open>
  C6. Who the device is never changes while the daemon lives: each part of its identity, from the
  instance number to the device data, stays what it is once it is set, over every reception, failure,
  signal and restart; so peers recognise the device after an address change.
\<close>

theorem main_identity:
  assumes "(mstep os o')\<^sup>*\<^sup>* c c'"
  shows "same_identity (snd c) (snd c')"
  using settled_msteps [OF assms] by (auto simp: settled_def fixed_def same_identity_def split: if_splits)

lemma reachable_msteps: "reachable os o' w0 c \<Longrightarrow> (mstep os o')\<^sup>*\<^sup>* (Starting, w0) c"
  by (induction rule: reachable.induct) auto

lemma tcp_options: "main_options os [''-t''] w = Some (Inr (Inr (default_opts (no_opts\<lparr>tcpudp := 1\<rparr>)), w))"
  by (simp add: main_options_def flag_option_def no_opts_def)

text \<open>
  C34. With TCP alone the device never gets an identity: the HTTP services are opened, but only the UDP
  services start with \<open>wsd_init\<close>, so that in every reachable state endpoint, names and device data are as unset
  as at the start.
\<close>

theorem tcp_only_uninitialised:
  assumes "main_options os [''-t''] w0 = Some (Inr (Inr o', w))" and "reachable os o' w c"
  shows "fixed w0 (snd c) \<and> (\<exists>sv \<in> set services. wanted o' sv \<and> sv_recv sv = Some Wsd_recv)"
proof
  have o': "o' = default_opts (no_opts\<lparr>tcpudp := 1\<rparr>)" and w: "w = w0"
    using assms(1) by (simp_all add: tcp_options)
  have "tcpudp o' AND 2 = 0" by (simp add: o' default_opts_def no_opts_def)
  with settled_msteps [OF reachable_msteps [OF assms(2)]] w show "fixed w0 (snd c)"
    by (simp add: settled_def)
  have "wsdd_http ''wsdd-http-v4'' AF_INET \<in> set services" by (simp add: services_def)
  moreover have "wanted o' (wsdd_http ''wsdd-http-v4'' AF_INET)"
    by (simp add: o' wanted_def wsdd_http_def default_opts_def no_opts_def)
  ultimately show "\<exists>sv \<in> set services. wanted o' sv \<and> sv_recv sv = Some Wsd_recv"
    by (auto simp: wsdd_http_def)
qed

section \<open>Examples\<close>

theorem main_identity_witness:
  "\<exists>t. (mstep interrupted_os all_opts)\<^sup>*\<^sup>* (Starting, zero_world\<lparr>hostname := ''nas''\<rparr>) (Selecting [lone_ep], t) \<and>
     hostname t = ''nas''"
proof -
  let ?w = "zero_world\<lparr>hostname := ''nas''\<rparr>"
  obtain t where "main_step interrupted_os all_opts Starting ?w = Inr (Selecting [lone_ep], t)"
    using lone_start by blast
  then have "(mstep interrupted_os all_opts)\<^sup>*\<^sup>* (Starting, ?w) (Selecting [lone_ep], t)"
    by (intro r_into_rtranclp mstep.work) simp_all
  with main_identity [OF this] show ?thesis by (intro exI [of _ t]) (simp add: same_identity_def)
qed

theorem tcp_only_uninitialised_witness:
  "\<exists>o' t. main_options interrupted_os [''-t''] zero_world = Some (Inr (Inr o', zero_world)) \<and>
     reachable interrupted_os o' zero_world (Selecting [lone_ep], t) \<and> wsd_endpoint t = []"
proof -
  let ?o = "default_opts (no_opts\<lparr>tcpudp := 1\<rparr>)"
  obtain t where "main_step interrupted_os ?o Starting zero_world = Inr (Selecting [lone_ep], t)"
    using lone_start by blast
  then have "mstep interrupted_os ?o (Starting, zero_world) (Selecting [lone_ep], t)"
    by (intro mstep.work) simp_all
  from reachable.step [OF reachable.start this]
  have r: "reachable interrupted_os ?o zero_world (Selecting [lone_ep], t)" .
  with tcp_only_uninitialised [OF tcp_options this] show ?thesis
    by (intro exI [of _ ?o] exI [of _ t]) (simp add: tcp_options fixed_def zero_world_def)
qed

end
