(* ===== verification/Main_Safety.thy ===== *)
theory Main_Safety
  imports Main_Props Main_Options
begin

text \<open>
  Where a memory fault of the daemon can come from: the fault of a step of \<open>main\<close> is that of a receive
  handler, or one of two faults of the start, each with a cause outside the program.
\<close>

section \<open>The start of a service\<close>

text \<open>What the surroundings must do for a fault at the start.\<close>

definition blank_boot_line :: "os \<Rightarrow> bool" where
  "blank_boot_line os \<longleftrightarrow> (\<exists>n s. os_file os n ''/proc/sys/dev/boot/info'' = Inr s \<and> list_ex blanks (boot_lines s))"

definition large_descriptor :: "os \<Rightarrow> bool" where
  "large_descriptor os \<longleftrightarrow> (\<exists>n fam ty pr fd. os_socket os n fam ty pr = Inr fd \<and> 1024 \<le> fd)"

definition start_fault :: "os \<Rightarrow> fault \<Rightarrow> bool" where
  "start_fault os f \<longleftrightarrow> f = NullDeref \<and> blank_boot_line os \<or> f = OobWrite \<and> large_descriptor os"

lemma may_init_getresp: "may (start_fault os) (init_getresp os)"
  by (auto simp: may_def init_getresp_fault start_fault_def blank_boot_line_def split: sum.split_asm) blast

lemma safe_uuid_endpoint: "safe (uuid_endpoint os)"
  unfolding uuid_endpoint_def by (intro safe_branches safe_rules)

lemmas may_rules = safe_sys [THEN may_safe] safe_uuid_random [THEN may_safe]
  safe_uuid_endpoint [THEN may_safe] safe_set_err [THEN may_safe] safe_failing [THEN may_safe]
  safe_get_smbparm [THEN may_safe] safe_wsd_send_hello [THEN may_safe] safe_sys_close [THEN may_safe]
  safe_sock_calls [THEN may_safe] safe_emit [THEN may_safe] safe_sys_status [THEN may_safe]
  safe_alloc [THEN may_safe]

lemma may_wsd_init: "may (start_fault os) (wsd_init os ep)"
  unfolding wsd_init_def by (intro may_intros may_rules may_init_getresp)

lemma may_run_init: "may (start_fault os) (run_init os f ep)"
  unfolding run_init_def llmnr_init_def
  by (auto split: option.split init_fn.split intro: may_wsd_init may_safe safe_ret)

section \<open>Opening\<close>

lemma may_ep_start: "may (start_fault os) (ep_start os sp ep)"
  unfolding ep_start_def ep_join_def ep_finish_def Let_def
  by (intro may_intros may_rules may_run_init)

text \<open>The services of the table, on the interfaces \<open>main\<close> chooses for them.\<close>

definition openable :: "service \<Rightarrow> ifaddrs \<Rightarrow> bool" where
  "openable sv ifa \<longleftrightarrow> sv \<in> set services \<and> (is_inet (sv_family sv) \<longrightarrow> ifa_addr ifa \<noteq> None)"

lemma services_inet:
  "sv \<in> set services \<Longrightarrow> is_inet (sv_family sv) \<Longrightarrow> port_name sv \<noteq> None \<and> 0 \<le> sv_type sv \<and> sv_type sv \<le> 2"
  by (auto simp: services_def wsdd_mcast_def wsdd_http_def llmnr_service_def netlink_service_def is_inet_def)

lemma safe_ep_port: "sv \<in> set services \<Longrightarrow> safe (ep_port os sv)"
  using services_inet [of sv]
  by (auto simp: ep_port_def Let_def intro!: safe_bind safe_ret safe_rules)

lemma safe_ep_addresses:
  "is_inet (family ep) \<Longrightarrow> ifa_addr ifa \<noteq> None \<Longrightarrow> safe (ep_addresses os ifa sp ep)"
  "\<not> is_inet (family ep) \<Longrightarrow> safe (ep_addresses os ifa sp ep)"
  unfolding ep_addresses_def Let_def
  by (auto split: option.split intro!: safe_bind safe_ret safe_rules)

lemma may_open_ep:
  assumes "openable sv ifa"
  shows "may (start_fault os) (open_ep os sv ifa)"
proof -
  have "family (new_ep sv ifa\<lparr>port := p\<rparr>) = sv_family sv" for p by (simp add: new_ep_def Let_def)
  with assms have addr: "safe (ep_addresses os ifa sp (new_ep sv ifa\<lparr>port := p\<rparr>))" for sp p
    by (cases "is_inet (sv_family sv)") (auto simp: openable_def intro: safe_ep_addresses)
  have port: "safe (ep_port os sv)" using assms by (auto simp: openable_def intro: safe_ep_port)
  show ?thesis
    unfolding open_ep_def ep_fail_def Let_def
    by (intro may_intros may_rules may_ep_start may_safe [OF addr] may_safe [OF port])
qed

text \<open>The descriptor of an endpoint comes from \<open>socket\<close>.\<close>

lemma sys_socket_below:
  "\<not> large_descriptor os \<Longrightarrow> yields (\<lambda>fd. fd < 1024) (sys_socket os fam ty pr)"
  by (auto simp: yields_def sys_socket_def failing_def exec_simps Let_def large_descriptor_def not_le
      split: sum.splits)

lemma ep_start_below:
  assumes "\<not> large_descriptor os"
  shows "yields (\<lambda>r. sock (snd r) < 1024) (ep_start os sp ep)"
  unfolding ep_start_def
  by (rule yields_bindP [OF sys_socket_below [OF assms]])
    (auto simp: ep_finish_def Let_def intro!: yields_intros)

lemma open_ep_below:
  assumes "\<not> large_descriptor os"
  shows "yields (\<lambda>r. \<forall>ep. r = Some (0, ep) \<longrightarrow> sock ep < 1024) (open_ep os sv ifa)"
proof -
  have body: "yields (\<lambda>r. fst r = 0 \<longrightarrow> sock (snd r) < 1024) (case sock_params (sv_family sv) of
       None \<Rightarrow> ep_fail ''open_ep: Unsupported address family'' EINVAL (new_ep sv ifa)
     | Some sp \<Rightarrow>
         bind (ep_port os sv) (\<lambda>p.
         if is_inet (sv_family sv) \<and> p = 0
         then ep_fail ''open_ep: No port number'' EADDRNOTAVAIL (new_ep sv ifa)
         else
           bind (ep_addresses os ifa sp (new_ep sv ifa\<lparr>port := p\<rparr>)) (\<lambda>(ok, ep).
           if \<not> ok then ret (- 1, ep) else ep_start os sp ep)))"
  proof -
    have "yields (\<lambda>r. fst r = 0 \<longrightarrow> sock (snd r) < 1024) (ep_start os sp ep)" for sp ep
      using ep_start_below [OF assms, of sp ep] by (auto simp: yields_def)
    then show ?thesis
      unfolding ep_fail_def
      by (auto split: option.split intro!: yields_ret yields_bind)
  qed
  show ?thesis
    unfolding open_ep_def Let_def
    by (intro yields_bindP [OF body] yields_ret yields_if yields_bind) auto
qed

lemma may_fd_set: "(large_descriptor os \<or> fd < 1024) \<Longrightarrow> 0 \<le> fd \<Longrightarrow> may (start_fault os) (fd_set fd)"
  by (auto simp: fd_set_def start_fault_def intro: may_crash may_safe safe_ret)

text \<open>The endpoint is opened, and the rest of the work is done with it.\<close>

lemma may_open_then:
  assumes "openable sv ifa" and "\<And>r. (\<And>v ep. r = Some (v, ep) \<Longrightarrow> v = 0 \<Longrightarrow> large_descriptor os \<or> sock ep < 1024) \<Longrightarrow>
      may (start_fault os) (k r)"
  shows "may (start_fault os) (bind (open_ep os sv ifa) k)"
proof (rule may_bindY [OF may_open_ep [OF assms(1)]])
  show "yields (\<lambda>r. \<forall>v ep. r = Some (v, ep) \<longrightarrow> v = 0 \<longrightarrow> large_descriptor os \<or> sock ep < 1024) (open_ep os sv ifa)"
    using open_ep_below [of os sv ifa] by (cases "large_descriptor os") (auto simp: yields_def)
  show "may (start_fault os) (k r)"
    if "\<forall>v ep. r = Some (v, ep) \<longrightarrow> v = 0 \<longrightarrow> large_descriptor os \<or> sock ep < 1024" for r
    using that by (intro assms(2)) blast
qed

lemma may_open_ifaces:
  assumes "sv \<in> set services"
  shows "may (start_fault os) (open_ifaces os sv ifas eps)"
proof (induction ifas arbitrary: eps)
  case Nil
  show ?case by (auto intro: may_safe safe_ret)
next
  case (Cons ifa ifas)
  have "openable sv ifa" if "usable sv ifa"
    using that assms by (auto simp: openable_def usable_def split: option.splits)
  then show ?case
    unfolding open_ifaces.simps
    by (intro may_if may_open_then Cons.IH)
      (auto intro!: may_intros may_rules may_fd_set Cons.IH split: option.split)
qed

lemma may_open_services:
  assumes "set svs \<subseteq> set services"
  shows "may (start_fault os) (open_services os o' ifas svs eps)"
  using assms
proof (induction svs arbitrary: eps)
  case Nil
  show ?case by (auto intro: may_safe safe_ret)
next
  case (Cons sv svs)
  have sv: "sv \<in> set services" and rest: "may (start_fault os) (open_services os o' ifas svs eps)" for eps
    using Cons by auto
  have "openable sv netlink_ifa" if "sv_family sv = AF_NETLINK"
    using that sv by (auto simp: openable_def is_inet_def)
  then show ?case
    unfolding open_services.simps
    by (intro may_if may_open_then may_bind [OF may_open_ifaces [OF sv]] rest)
      (auto intro!: may_intros may_rules may_fd_set rest split: option.split)
qed

section \<open>The steps of main\<close>

lemma safe_sigactions: "safe (sigactions os sigs)"
  by (induction sigs) (auto intro!: safe_bind safe_ret safe_rules)

lemma may_start_step: "may (start_fault os) (start_step os o')"
  unfolding start_step_def
  by (intro may_intros may_rules may_open_services may_safe [OF safe_sigactions])
    (auto intro: may_safe safe_ret split: option.split)

lemma safe_select_step: "safe (select_step os eps)"
  unfolding select_step_def Let_def by (intro safe_branches safe_rules)

lemma safe_end_step:
  assumes "\<forall>ep \<in> set eps. ep_ok os o' ep"
  shows "safe (end_step os eps bad rv)"
  using assms unfolding end_step_def
  by (auto split: list.split option.split intro!: safe_bind safe_ret safe_rules safe_close_ep)

lemma safe_after_recv: "safe (after_recv r)"
  unfolding after_recv_def restart_service_def
  by (auto split: outcome.split intro!: safe_bind safe_ret safe_rules)

lemma dispatch_fault:
  assumes "dispatch_step os eps rest n ready w = Inl f"
  obtains ep rest' k g where "n = Suc k" "rest = ep # rest'" "sock ep \<in> set ready"
    "sv_recv (service ep) = Some g" "run_recv os g ep w = Inl f"
proof -
  have "after_recv r v \<noteq> Inl f" for r v
    using safe_after_recv [of r] by (auto simp: safe_def) (metis sum.distinct(1))
  with assms that show thesis
    by (auto simp: dispatch_step_def bind_eq_Inl ret_run get_run
        split: nat.splits list.splits if_splits option.splits outcome.splits) (metis outcome.exhaust)
qed

text \<open>
  C11. A memory fault of the daemon has one of three causes: a receive handler that faults on what it
  received at a ready endpoint, a blank line in the boot information of the kernel when a service
  starts, or a descriptor too large for \<open>FD_SET\<close>. Waiting, dispatching and shutting down have none of
  their own, in any reachable state.
\<close>

theorem main_fault_source:
  assumes "reachable os o' w0 (m, w)" and "accept_ok os" and "main_step os o' m w = Inl f"
  shows "(\<exists>eps ep rest n ready g. m = Dispatching eps (ep # rest) (Suc n) ready \<and> sock ep \<in> set ready \<and>
       sv_recv (service ep) = Some g \<and> run_recv os g ep w = Inl f) \<or>
     m = Starting \<and> (f = NullDeref \<and> blank_boot_line os \<or> f = OobWrite \<and> large_descriptor os)"
proof (cases m)
  case Starting
  with assms(3) mayD [OF may_start_step] show ?thesis by (auto simp: main_step_def start_fault_def)
next
  case (Selecting eps)
  with assms(3) safe_no_Inl [OF safe_select_step] show ?thesis by (simp add: main_step_def)
next
  case (Dispatching eps rest n ready)
  with assms(3) have "dispatch_step os eps rest n ready w = Inl f" by (simp add: main_step_def)
  then show ?thesis by (rule dispatch_fault) (use Dispatching in blast)
next
  case (Ending eps bad rv)
  with reachable_accounts [OF assms(1,2)] have "\<forall>ep \<in> set eps. ep_ok os o' ep" by (simp add: accounts_def)
  from safe_no_Inl [OF safe_end_step [OF this]] assms(3) Ending show ?thesis by (simp add: main_step_def)
qed (use assms(3) in \<open>simp_all add: main_step_def ret_run\<close>)

section \<open>An example\<close>

text \<open>A process that has more than 1024 descriptors open already.\<close>

definition crowded_os :: os where
  "crowded_os = interrupted_os\<lparr>os_socket := (\<lambda>n f t p. Inr 1024)\<rparr>"

lemma open_crowded:
  "\<exists>ep t. open_ep crowded_os netlink_service netlink_ifa w = Inr (Some (0, ep), t) \<and> sock ep = 1024"
  by (simp add: open_ep_def alloc_def ep_port_def ep_addresses_def ep_start_def ep_join_def ep_finish_def
      sys_socket_def sys_setsockopt_def sys_bind_def run_init_def failing_def exec_simps sys_status_run
      Let_def sock_params_def is_inet_def netlink_service_def netlink_ifa_def new_ep_def
      crowded_os_def lone_os_def quiet_os_def addr_size_def)

lemma crowded_start: "main_step crowded_os o' Starting w = Inl OobWrite"
proof -
  obtain v where v: "sigactions crowded_os [SIGINT, SIGHUP, SIGTERM] w = Inr (True, v)"
    by (simp add: sigactions.simps exec_simps sys_status_run crowded_os_def lone_os_def quiet_os_def)
  let ?v = "v\<lparr>calls := Suc (calls v)\<rparr>"
  have ifs: "failing (os_getifaddrs crowded_os) v = Inr (Some [], ?v)"
    by (simp add: failing_def exec_simps crowded_os_def lone_os_def)
  obtain ep t where t: "open_ep crowded_os netlink_service netlink_ifa ?v = Inr (Some (0, ep), t)"
      "sock ep = 1024"
    using open_crowded [of ?v] by blast
  have "sv_family netlink_service = AF_NETLINK" by (simp add: netlink_service_def)
  then show ?thesis
    by (simp add: main_step_def start_step_def bind_run v ifs lone_services wanted_netlink t is_inet_def
        fd_set_def crash_run del: sigactions.simps)
qed

theorem main_fault_source_witness:
  "reachable crowded_os all_opts zero_world (Starting, zero_world) \<and> large_descriptor crowded_os"
proof -
  have start: "reachable crowded_os all_opts zero_world (Starting, zero_world)" by (rule reachable.start)
  have "accept_ok crowded_os" by (simp add: accept_ok_def crowded_os_def lone_os_def quiet_os_def)
  from main_fault_source [OF start this crowded_start] start show ?thesis by simp
qed

end
