(* ===== verification/Main_Clients.thy ===== *)
theory Main_Clients
  imports Main_Props Main_Options
begin

text \<open>
  What a single client can do to the daemon as a whole: a TCP connection on which nothing is sent makes
  it close every socket and start again, and so does any TCP connection to the LLMNR port.
\<close>

lemma wsd_recv_silent:
  assumes "type ep = SOCK_STREAM" and "os_accept os (calls w) (sock ep) = Inr (c, sa, Rx_err e # items)"
  shows "\<exists>v. wsd_recv os ep w = Inr (- 1, v)"
  using assms
  by (simp add: wsd_recv_def wsd_serve_def sys_accept_def sys_setsockopt_def sys_recv_def failing_def
      exec_simps sys_close_def)

text \<open>
  C19. Any host can keep the daemon from working: a connection to the HTTP port on which the client
  stays silent for a second makes \<open>wsd_recv\<close> return an error, which \<open>main\<close> takes for a broken socket.
  By its own steps, without any signal, it then closes all its endpoints, so that it holds no more
  descriptors than at its start, and is back at the label \<open>again\<close>.
\<close>

theorem silent_client_restarts:
  assumes "reachable os o' w0 (Dispatching eps (ep # rest) (Suc n) ready, w)" and "accept_ok os"
    and "sock ep \<in> set ready" and "sv_recv (service ep) = Some Wsd_recv" and "type ep = SOCK_STREAM"
    and "os_accept os (calls w) (sock ep) = Inr (c, sa, Rx_err e # items)"
  shows "runs (main_work os o' (length eps + 2) (Dispatching eps (ep # rest) (Suc n) ready)) w
    (\<lambda>m t. m = Starting \<and> restart t = 0 \<and> (\<forall>fd. held t fd = held w0 fd))"
proof -
  obtain v where "wsd_recv os ep w = Inr (- 1, v)" using wsd_recv_silent [OF assms(5,6)] by blast
  then have "run_recv os Wsd_recv ep w = Inr (Return (- 1), v)"
    by (simp add: run_recv_def returning_Inr)
  then show ?thesis by (rule failing_handler_restarts [OF assms(1-4)]) simp
qed

section \<open>LLMNR over TCP\<close>

definition ENOTCONN :: int where "ENOTCONN = 107"

lemma llmnr_recv_fails:
  assumes "os_recvfrom os (calls w) (sock ep) = Inl e"
  shows "\<exists>v. llmnr_recv os ep w = Inr (- 1, v) \<and> trace v = trace w @ [Ev_recv (sock ep) (- 1)]"
  using assms by (simp add: llmnr_recv_def sys_recvfrom_def failing_def exec_simps)

text \<open>
  C20. LLMNR over TCP does not work, and any connection to its port disturbs the rest: \<open>llmnr_recv\<close> never
  accepts the connection but receives on the listening socket, which fails (\<open>ENOTCONN\<close>, as documented
  for \<open>recvfrom\<close>); \<open>main\<close> takes that for a broken endpoint and by its own steps, without any signal,
  closes all its endpoints and is back at the label \<open>again\<close>.
\<close>

theorem llmnr_tcp_restarts:
  assumes "reachable os o' w0 (Dispatching eps (ep # rest) (Suc n) ready, w)" and "accept_ok os"
    and "sock ep \<in> set ready" and recv: "sv_recv (service ep) = Some Llmnr_recv" and "type ep = SOCK_STREAM"
    and listening: "\<And>k. type ep = SOCK_STREAM \<Longrightarrow> os_recvfrom os k (sock ep) = Inl ENOTCONN"
  shows "(\<exists>v. run_recv os Llmnr_recv ep w = Inr (Return (- 1), v) \<and>
      trace v = trace w @ [Ev_recv (sock ep) (- 1)]) \<and>
    runs (main_work os o' (length eps + 2) (Dispatching eps (ep # rest) (Suc n) ready)) w
      (\<lambda>m t. m = Starting \<and> restart t = 0 \<and> (\<forall>fd. held t fd = held w0 fd))"
proof -
  obtain v where v: "llmnr_recv os ep w = Inr (- 1, v)" "trace v = trace w @ [Ev_recv (sock ep) (- 1)]"
    using llmnr_recv_fails [OF listening [OF assms(5)]] by blast
  then have recv: "run_recv os Llmnr_recv ep w = Inr (Return (- 1), v)"
    by (simp add: run_recv_def returning_Inr)
  then show ?thesis
    by (intro conjI exI [of _ v] v(2) failing_handler_restarts [OF assms(1-4) recv]) simp_all
qed

section \<open>Examples\<close>

text \<open>
  A machine on a network that serves one TCP service only. A client connects; where the connection is
  accepted the client says nothing.
\<close>

definition web_os :: os where
  "web_os = lan_os\<lparr>os_socket := (\<lambda>n f t p. Inr (if f = AF_NETLINK then 6 else 5)),
     os_select := (\<lambda>n fds. Inr [5]), os_accept := (\<lambda>n fd. if fd = 5 then Inr (9, peer, [Rx_err 11]) else Inl EINVAL),
     os_recvfrom := (\<lambda>n fd. Inl ENOTCONN)\<rparr>"

text \<open>The options \<open>-t -4\<close> with \<open>-l\<close> or \<open>-w\<close>.\<close>

definition tcp_opts :: "32 word \<Rightarrow> opts" where
  "tcp_opts k = default_opts (no_opts\<lparr>tcpudp := 1, ipv46 := 1, llmnrwsdd := k\<rparr>)"

definition web_service :: service where
  "web_service = wsdd_http ''wsdd-http-v4'' AF_INET"

definition name_service :: service where
  "name_service = llmnr_service ''llmnr-tcp-v4'' AF_INET SOCK_STREAM None"

definition tcp_ep :: "service \<Rightarrow> endpoint" where
  "tcp_ep sv = (let blank = \<lparr>ss_family = AF_INET, sin_port = 0, sin_addr = replicate 4 0\<rparr> in
     (new_ep sv eth0)\<lparr>port := port_num sv, sock := 5, mcast := blank, mlen := 16, llen := 16,
       local := blank\<lparr>sin_port := htons (port_num sv)\<rparr>, mreqlen := 8\<rparr>)"

lemma tcp_only: "sv \<in> {web_service, name_service} \<Longrightarrow> sv_family sv = AF_INET \<and> sv_type sv = SOCK_STREAM \<and>
    mcast_addr sv = None \<and> port_num sv \<noteq> 0 \<and> (sv_init sv = None \<or> sv_init sv = Some Llmnr_init)"
  by (auto simp: web_service_def wsdd_http_def name_service_def llmnr_service_def)

lemma tcp_ep_fields: "sock (tcp_ep sv) = 5" "service (tcp_ep sv) = sv" "type (tcp_ep sv) = sv_type sv"
  by (simp_all add: tcp_ep_def new_ep_def Let_def)

lemma open_tcp:
  assumes "sv \<in> {web_service, name_service}"
  shows "\<exists>t. open_ep web_os sv eth0 w = Inr (Some (0, tcp_ep sv), t)"
  using assms
  by (auto simp: open_ep_def alloc_def ep_port_def ep_addresses_def ep_start_def ep_join_def ep_finish_def
      sys_socket_def sys_setsockopt_def sys_bind_def sys_listen_def run_init_def failing_def exec_simps
      sys_status_run Let_def sock_params_def is_inet_def wsdd_http_def llmnr_service_def new_ep_def tcp_ep_def
      web_service_def name_service_def llmnr_init_def
      web_os_def lan_os_def quiet_os_def addr_size_def)

lemma open_web_netlink:
  "\<exists>ep t. open_ep web_os netlink_service netlink_ifa w = Inr (Some (0, ep), t) \<and> sock ep = 6"
  by (simp add: open_ep_def alloc_def ep_port_def ep_addresses_def ep_start_def ep_join_def ep_finish_def
      sys_socket_def sys_setsockopt_def sys_bind_def run_init_def failing_def exec_simps sys_status_run
      Let_def sock_params_def is_inet_def netlink_service_def netlink_ifa_def new_ep_def
      web_os_def lan_os_def quiet_os_def addr_size_def)

lemma open_services_wanted:
  "open_services os o' ifas svs eps = open_services os o' ifas (filter (wanted o') svs) eps"
proof (induction svs arbitrary: eps)
  case (Cons sv svs)
  then have IH: "open_services os o' ifas svs = open_services os o' ifas (filter (wanted o') svs)" by blast
  show ?case
  proof (cases "wanted o' sv")
    case True
    then have "filter (wanted o') (sv # svs) = sv # filter (wanted o') svs" by simp
    then show ?thesis unfolding open_services.simps IH by simp
  qed (simp add: IH)
qed simp

lemma tcp_wanted:
  "filter (wanted (tcp_opts 2)) services = [web_service, netlink_service]"
  "filter (wanted (tcp_opts 1)) services = [name_service, netlink_service]"
  by code_simp+

lemma tcp_start:
  assumes sv: "sv \<in> {web_service, name_service}" and only: "filter (wanted o') services = [sv, netlink_service]"
  shows "\<exists>ep t. main_step web_os o' Starting w = Inr (Selecting [ep, tcp_ep sv], t) \<and> sock ep = 6"
proof -
  obtain v where v: "sigactions web_os [SIGINT, SIGHUP, SIGTERM] w = Inr (True, v)"
    by (simp add: sigactions.simps exec_simps sys_status_run web_os_def lan_os_def quiet_os_def)
  let ?v = "v\<lparr>calls := Suc (calls v)\<rparr>"
  have ifs: "failing (os_getifaddrs web_os) v = Inr (Some [eth0], ?v)"
    by (simp add: failing_def exec_simps web_os_def lan_os_def)
  obtain t1 where t1: "open_ep web_os sv eth0 ?v = Inr (Some (0, tcp_ep sv), t1)" using open_tcp [OF sv] by blast
  obtain ep t where t: "open_ep web_os netlink_service netlink_ifa t1 = Inr (Some (0, ep), t)" "sock ep = 6"
    using open_web_netlink by blast
  have wanted: "wanted o' sv" "wanted o' netlink_service"
    using arg_cong [OF only, of set] by auto
  have use: "usable sv eth0"
    using tcp_only [OF sv] by (simp add: usable_def eth0_def IFF_LOOPBACK_def strncmp_eq_def)
  have fam: "sv_family netlink_service = AF_NETLINK" "sv_family sv = AF_INET"
    using tcp_only [OF sv] by (simp_all add: netlink_service_def)
  have only: "open_services web_os o' [eth0] services [] =
      open_services web_os o' [eth0] [sv, netlink_service] []"
    by (subst open_services_wanted) (simp only: only)
  then show ?thesis
    by (simp add: main_step_def start_step_def bind_run v ifs wanted use fam t1 t is_inet_def fd_set_def ret_run
        tcp_ep_fields del: sigactions.simps)
qed

lemma tcp_ready:
  assumes "sv \<in> {web_service, name_service}" and "filter (wanted o') services = [sv, netlink_service]"
  shows "\<exists>ep w. reachable web_os o' zero_world (Dispatching [ep, tcp_ep sv] [tcp_ep sv] (Suc 0) [5], w)"
proof -
  obtain ep t where start: "main_step web_os o' Starting zero_world = Inr (Selecting [ep, tcp_ep sv], t)"
    and ep: "sock ep = 6" using tcp_start [OF assms] by blast
  let ?t = "t\<lparr>calls := Suc (calls t)\<rparr>"
  have "main_step web_os o' (Selecting [ep, tcp_ep sv]) t =
      Inr (Dispatching [ep, tcp_ep sv] [ep, tcp_ep sv] 1 [5], ?t)"
    using ep by (simp add: main_step_def select_step_def failing_def exec_simps web_os_def Let_def tcp_ep_fields)
  moreover have "main_step web_os o' (Dispatching [ep, tcp_ep sv] [ep, tcp_ep sv] 1 [5]) ?t =
      Inr (Dispatching [ep, tcp_ep sv] [tcp_ep sv] 1 [5], ?t)"
    using ep by (simp add: main_step_def dispatch_step_def ret_run)
  ultimately have "main_work web_os o' 3 Starting zero_world =
      Inr (Dispatching [ep, tcp_ep sv] [tcp_ep sv] 1 [5], ?t)"
    by (simp add: numeral_3_eq_3 bind_run start ret_run)
  from reachable_work [OF reachable.start this] show ?thesis by auto
qed

lemma web_accept_ok: "accept_ok web_os"
  by (auto simp: accept_ok_def web_os_def split: if_splits)

lemma two_endpoints: "length [a, b :: endpoint] + 2 = 4"
  by simp

theorem silent_client_restarts_witness:
  "\<exists>ep w. reachable web_os (tcp_opts 2) zero_world
       (Dispatching [ep, tcp_ep web_service] [tcp_ep web_service] (Suc 0) [5], w) \<and>
     runs (main_work web_os (tcp_opts 2) 4 (Dispatching [ep, tcp_ep web_service] [tcp_ep web_service] (Suc 0) [5])) w
       (\<lambda>m t. m = Starting \<and> restart t = 0)"
proof -
  have ty: "type (tcp_ep web_service) = SOCK_STREAM" and recv: "sv_recv (service (tcp_ep web_service)) = Some Wsd_recv"
    by (simp_all add: tcp_ep_fields web_service_def wsdd_http_def)
  obtain ep w where r: "reachable web_os (tcp_opts 2) zero_world
      (Dispatching [ep, tcp_ep web_service] [tcp_ep web_service] (Suc 0) [5], w)"
    using tcp_ready [OF _ tcp_wanted(1)] by blast
  have "os_accept web_os (calls w) (sock (tcp_ep web_service)) = Inr (9, peer, [Rx_err 11])"
    by (simp add: web_os_def tcp_ep_fields)
  then have "runs (main_work web_os (tcp_opts 2) (length [ep, tcp_ep web_service] + 2)
      (Dispatching [ep, tcp_ep web_service] [tcp_ep web_service] (Suc 0) [5])) w (\<lambda>m t. m = Starting \<and> restart t = 0)"
    by (intro runs_mono [OF silent_client_restarts [OF r web_accept_ok _ recv ty]]) (simp_all add: tcp_ep_fields)
  then show ?thesis using r unfolding two_endpoints by blast
qed

theorem llmnr_tcp_restarts_witness:
  "\<exists>ep w. reachable web_os (tcp_opts 1) zero_world
       (Dispatching [ep, tcp_ep name_service] [tcp_ep name_service] (Suc 0) [5], w) \<and>
     runs (main_work web_os (tcp_opts 1) 4 (Dispatching [ep, tcp_ep name_service] [tcp_ep name_service] (Suc 0) [5])) w
       (\<lambda>m t. m = Starting \<and> restart t = 0)"
proof -
  have ty: "type (tcp_ep name_service) = SOCK_STREAM"
    and recv: "sv_recv (service (tcp_ep name_service)) = Some Llmnr_recv"
    by (simp_all add: tcp_ep_fields name_service_def llmnr_service_def)
  obtain ep w where r: "reachable web_os (tcp_opts 1) zero_world
      (Dispatching [ep, tcp_ep name_service] [tcp_ep name_service] (Suc 0) [5], w)"
    using tcp_ready [OF _ tcp_wanted(2)] by blast
  have "os_recvfrom web_os k (sock (tcp_ep name_service)) = Inl ENOTCONN" for k
    by (simp add: web_os_def)
  then have "runs (main_work web_os (tcp_opts 1) (length [ep, tcp_ep name_service] + 2)
      (Dispatching [ep, tcp_ep name_service] [tcp_ep name_service] (Suc 0) [5])) w (\<lambda>m t. m = Starting \<and> restart t = 0)"
    by (intro runs_mono [OF conjunct2 [OF llmnr_tcp_restarts [OF r web_accept_ok _ recv ty]]]) (simp_all add: tcp_ep_fields)
  then show ?thesis using r unfolding two_endpoints by blast
qed

end
