(* ===== verification/Main_Types.thy ===== *)
theory Main_Types
  imports Main_Clients
begin

text \<open>
  What the endpoints of a running daemon look like: their addresses are those of the protocols, which
  are written down here as the standards have them and not taken from the table of services.
\<close>

section \<open>The protocols\<close>

text \<open>
  The groups of WS-Discovery (239.255.255.250, ff02::c) and of LLMNR (224.0.0.252, ff02::1:3), and the
  ports of the two, by the handler that speaks the protocol.
\<close>

definition protocol_group :: "recv_fn \<Rightarrow> int \<Rightarrow> byte list" where
  "protocol_group f fam =
     (if f = Wsd_recv then
        (if fam = AF_INET then [239, 255, 255, 250] else [0xFF, 0x02] @ replicate 13 0 @ [0x0C])
      else
        (if fam = AF_INET then [224, 0, 0, 252] else [0xFF, 0x02] @ replicate 11 0 @ [0x01, 0x00, 0x03]))"

definition protocol_port :: "recv_fn \<Rightarrow> 16 word" where
  "protocol_port f = (if f = Wsd_recv then 3702 else 5355)"

definition any_address :: "endpoint \<Rightarrow> saddr" where
  "any_address ep = \<lparr>ss_family = family ep, sin_port = htons (port ep),
     sin_addr = replicate (if family ep = AF_INET then 4 else 16) 0\<rparr>"

text \<open>An endpoint of netlink; one over TCP; one over UDP, with its group.\<close>

definition netlink_typed :: "endpoint \<Rightarrow> bool" where
  "netlink_typed ep \<longleftrightarrow> family ep = AF_NETLINK \<and> type ep = SOCK_RAW \<and> port ep = 0 \<and> llen ep = 12 \<and>
     mreq ep = No_mreq \<and> local ep = \<lparr>ss_family = AF_NETLINK, sin_port = 0, sin_addr = [0x11, 0x01, 0, 0]\<rparr>"

definition joins :: "endpoint \<Rightarrow> byte list \<Rightarrow> bool" where
  "joins ep g \<longleftrightarrow> (family ep = AF_INET \<and> (\<exists>i. mreq ep = Ip_mreq g i)) \<or>
     (family ep = AF_INET6 \<and> (\<exists>i. mreq ep = Ipv6_mreq g i))"

definition inet_typed :: "os \<Rightarrow> recv_fn \<Rightarrow> endpoint \<Rightarrow> bool" where
  "inet_typed os f ep \<longleftrightarrow> is_inet (family ep) \<and>
     port ep \<noteq> 0 \<and> (port ep = protocol_port f \<or> (\<exists>n nm pr. os_getservbyname os n nm pr = Some (port ep))) \<and>
     llen ep = (if family ep = AF_INET then 16 else 28) \<and> mreqlen ep = (if family ep = AF_INET then 8 else 20) \<and>
     local ep = any_address ep \<and>
     (type ep = SOCK_STREAM \<and> mreq ep = No_mreq \<or>
      type ep = SOCK_DGRAM \<and> mcast ep = any_address ep\<lparr>sin_addr := protocol_group f (family ep)\<rparr> \<and>
        joins ep (protocol_group f (family ep)))"

section \<open>The endpoints of every reachable state\<close>

lemma pton_groups:
  "inet_pton AF_INET ''239.255.255.250'' = Some [239, 255, 255, 250]"
  "inet_pton AF_INET ''224.0.0.252'' = Some [224, 0, 0, 252]"
  "inet_pton AF_INET6 ''ff02::c'' = Some ([0xFF, 2] @ replicate 12 0 @ [0, 0xC])"
  "inet_pton AF_INET6 ''ff02::1:3'' = Some ([0xFF, 2] @ replicate 10 0 @ [0, 1, 0, 3])"
  by (code_simp, code_simp)
    (simp_all add: inet_pton_def groups_of_def group_of_def num_val_def digit_val_def isxdigit_def)

text \<open>A group that \<open>open_ep\<close> took from the text of a service.\<close>

lemma grouped_typed:
  assumes "grouped ep a" and "is_inet (family ep)" and "inet_pton (family ep) a = Some g"
  shows "mcast ep = any_address ep\<lparr>sin_addr := g\<rparr>" and "joins ep g"
  using assms by (auto simp: grouped_def any_address_def joins_def is_inet_def)

lemma shaped_inet:
  assumes "shaped os ep" and "is_inet (family ep)"
  shows "port ep \<noteq> 0" and "port_from os (service ep) (port ep)" and "local ep = any_address ep"
    and "llen ep = (if family ep = AF_INET then 16 else 28)" and "mreqlen ep = (if family ep = AF_INET then 8 else 20)"
    and "mcast_addr (service ep) = None \<Longrightarrow> mreq ep = No_mreq"
    and "mcast_addr (service ep) = Some a \<Longrightarrow> grouped ep a"
  using assms by (auto simp: shaped_def any_address_def is_inet_def sock_params_def addr_size_def)

lemma services_cases:
  assumes "sv \<in> set services"
  obtains "sv = netlink_service"
  | (tcp) f where "is_inet (sv_family sv)" "sv_recv sv = Some f" "f \<noteq> Netlink_recv" "port_num sv = protocol_port f"
      "sv_type sv = SOCK_STREAM" "mcast_addr sv = None"
  | (udp) f a where "is_inet (sv_family sv)" "sv_recv sv = Some f" "f \<noteq> Netlink_recv" "port_num sv = protocol_port f"
      "sv_type sv = SOCK_DGRAM" "mcast_addr sv = Some a"
      "inet_pton (sv_family sv) a = Some (protocol_group f (sv_family sv))"
  using assms pton_groups
  by (auto simp: services_def wsdd_mcast_def wsdd_http_def llmnr_service_def is_inet_def protocol_port_def
      protocol_group_def numeral_eq_Suc)



end
