(* ===== verification/Systemd_Stub.thy ===== *)
theory Systemd_Stub
  imports Main "HOL-Library.Multiset"
begin

text \<open>
  The library libsystemd-stub: for every symbol of the real libsystemd a function without arguments
  that returns 0, and a version script that exports each under the version it has in the real library.
  The theory holds the functions, the nodes of the script, and what a program finds that is linked
  against it. The names are transcribed once: a stretch of at least five names that stands without
  interruption in both files is a block of its own.
\<close>

section \<open>Blocks of names\<close>

definition block_1 :: "string list" where
  "block_1 =
    [''sd_bus_add_fallback'', ''sd_bus_add_fallback_vtable'', ''sd_bus_add_filter'',
     ''sd_bus_add_match'', ''sd_bus_add_node_enumerator'', ''sd_bus_add_object'',
     ''sd_bus_add_object_manager'', ''sd_bus_add_object_vtable'', ''sd_bus_attach_event'',
     ''sd_bus_call'', ''sd_bus_call_async'', ''sd_bus_call_method'', ''sd_bus_call_method_async'',
     ''sd_bus_can_send'', ''sd_bus_close'', ''sd_bus_creds_get_audit_login_uid'',
     ''sd_bus_creds_get_audit_session_id'', ''sd_bus_creds_get_augmented_mask'',
     ''sd_bus_creds_get_cgroup'', ''sd_bus_creds_get_cmdline'', ''sd_bus_creds_get_comm'',
     ''sd_bus_creds_get_description'', ''sd_bus_creds_get_egid'', ''sd_bus_creds_get_euid'',
     ''sd_bus_creds_get_exe'', ''sd_bus_creds_get_fsgid'', ''sd_bus_creds_get_fsuid'',
     ''sd_bus_creds_get_gid'', ''sd_bus_creds_get_mask'', ''sd_bus_creds_get_owner_uid'',
     ''sd_bus_creds_get_pid'', ''sd_bus_creds_get_ppid'', ''sd_bus_creds_get_selinux_context'',
     ''sd_bus_creds_get_session'', ''sd_bus_creds_get_sgid'', ''sd_bus_creds_get_slice'',
     ''sd_bus_creds_get_suid'', ''sd_bus_creds_get_supplementary_gids'', ''sd_bus_creds_get_tid'',
     ''sd_bus_creds_get_tid_comm'', ''sd_bus_creds_get_tty'', ''sd_bus_creds_get_uid'',
     ''sd_bus_creds_get_unique_name'', ''sd_bus_creds_get_unit'', ''sd_bus_creds_get_user_slice'',
     ''sd_bus_creds_get_user_unit'', ''sd_bus_creds_get_well_known_names'',
     ''sd_bus_creds_has_bounding_cap'', ''sd_bus_creds_has_effective_cap'',
     ''sd_bus_creds_has_inheritable_cap'', ''sd_bus_creds_has_permitted_cap'',
     ''sd_bus_creds_new_from_pid'', ''sd_bus_creds_ref'', ''sd_bus_creds_unref'',
     ''sd_bus_default'']"

definition block_2 :: "string list" where
  "block_2 =
    [''sd_bus_default_system'', ''sd_bus_default_user'', ''sd_bus_detach_event'',
     ''sd_bus_emit_interfaces_added'', ''sd_bus_emit_interfaces_added_strv'',
     ''sd_bus_emit_interfaces_removed'', ''sd_bus_emit_interfaces_removed_strv'']"

definition block_3 :: "string list" where
  "block_3 =
    [''sd_bus_emit_properties_changed'', ''sd_bus_emit_properties_changed_strv'',
     ''sd_bus_emit_signal'', ''sd_bus_error_add_map'', ''sd_bus_error_copy'',
     ''sd_bus_error_free'', ''sd_bus_error_get_errno'', ''sd_bus_error_has_name'',
     ''sd_bus_error_is_set'', ''sd_bus_error_set'', ''sd_bus_error_set_const'',
     ''sd_bus_error_set_errno'', ''sd_bus_error_set_errnof'', ''sd_bus_error_set_errnofv'',
     ''sd_bus_error_setf'', ''sd_bus_flush'']"

definition block_4 :: "string list" where
  "block_4 =
    [''sd_bus_get_address'', ''sd_bus_get_allow_interactive_authorization'', ''sd_bus_get_bus_id'',
     ''sd_bus_get_creds_mask'', ''sd_bus_get_current_handler'', ''sd_bus_get_current_message'',
     ''sd_bus_get_current_slot'', ''sd_bus_get_current_userdata'', ''sd_bus_get_description'',
     ''sd_bus_get_event'', ''sd_bus_get_events'']"

definition block_5 :: "string list" where
  "block_5 =
    [''sd_bus_get_fd'', ''sd_bus_get_name_creds'', ''sd_bus_get_name_machine_id'',
     ''sd_bus_get_owner_creds'', ''sd_bus_get_property'', ''sd_bus_get_property_string'',
     ''sd_bus_get_property_strv'', ''sd_bus_get_property_trivial'', ''sd_bus_get_scope'',
     ''sd_bus_get_tid'', ''sd_bus_get_timeout'', ''sd_bus_get_unique_name'',
     ''sd_bus_is_anonymous'', ''sd_bus_is_bus_client'', ''sd_bus_is_monitor'', ''sd_bus_is_open'',
     ''sd_bus_is_server'', ''sd_bus_is_trusted'', ''sd_bus_list_names'', ''sd_bus_message_append'',
     ''sd_bus_message_append_array'', ''sd_bus_message_append_array_iovec'',
     ''sd_bus_message_append_array_memfd'', ''sd_bus_message_append_array_space'',
     ''sd_bus_message_append_basic'', ''sd_bus_message_append_string_iovec'',
     ''sd_bus_message_append_string_memfd'', ''sd_bus_message_append_string_space'',
     ''sd_bus_message_append_strv'', ''sd_bus_message_at_end'', ''sd_bus_message_close_container'',
     ''sd_bus_message_copy'', ''sd_bus_message_enter_container'',
     ''sd_bus_message_exit_container'', ''sd_bus_message_get_allow_interactive_authorization'',
     ''sd_bus_message_get_auto_start'', ''sd_bus_message_get_bus'', ''sd_bus_message_get_cookie'',
     ''sd_bus_message_get_creds'', ''sd_bus_message_get_destination'',
     ''sd_bus_message_get_errno'', ''sd_bus_message_get_error'',
     ''sd_bus_message_get_expect_reply'', ''sd_bus_message_get_interface'',
     ''sd_bus_message_get_member'', ''sd_bus_message_get_monotonic_usec'',
     ''sd_bus_message_get_path'', ''sd_bus_message_get_priority'',
     ''sd_bus_message_get_realtime_usec'', ''sd_bus_message_get_reply_cookie'',
     ''sd_bus_message_get_sender'', ''sd_bus_message_get_seqnum'',
     ''sd_bus_message_get_signature'', ''sd_bus_message_get_type'']"

definition block_6 :: "string list" where
  "block_6 =
    [''sd_bus_message_has_signature'', ''sd_bus_message_is_empty'',
     ''sd_bus_message_is_method_call'', ''sd_bus_message_is_method_error'',
     ''sd_bus_message_is_signal'', ''sd_bus_message_new_method_call'',
     ''sd_bus_message_new_method_errno'', ''sd_bus_message_new_method_errnof'',
     ''sd_bus_message_new_method_error'', ''sd_bus_message_new_method_errorf'',
     ''sd_bus_message_new_method_return'', ''sd_bus_message_new_signal'',
     ''sd_bus_message_open_container'', ''sd_bus_message_peek_type'', ''sd_bus_message_read'',
     ''sd_bus_message_read_array'', ''sd_bus_message_read_basic'', ''sd_bus_message_read_strv'',
     ''sd_bus_message_ref'', ''sd_bus_message_rewind'',
     ''sd_bus_message_set_allow_interactive_authorization'', ''sd_bus_message_set_auto_start'',
     ''sd_bus_message_set_destination'', ''sd_bus_message_set_expect_reply'',
     ''sd_bus_message_set_priority'', ''sd_bus_message_skip'', ''sd_bus_message_unref'',
     ''sd_bus_message_verify_type'', ''sd_bus_negotiate_creds'', ''sd_bus_negotiate_fds'',
     ''sd_bus_negotiate_timestamp'', ''sd_bus_new'', ''sd_bus_open'', ''sd_bus_open_system'',
     ''sd_bus_open_system_machine'', ''sd_bus_open_system_remote'', ''sd_bus_open_user'',
     ''sd_bus_path_decode'']"

definition block_7 :: "string list" where
  "block_7 =
    [''sd_bus_process'', ''sd_bus_process_priority'', ''sd_bus_query_sender_creds'',
     ''sd_bus_query_sender_privilege'', ''sd_bus_ref'', ''sd_bus_release_name'',
     ''sd_bus_reply_method_errno'', ''sd_bus_reply_method_errnof'', ''sd_bus_reply_method_error'',
     ''sd_bus_reply_method_errorf'', ''sd_bus_reply_method_return'', ''sd_bus_request_name'',
     ''sd_bus_send'', ''sd_bus_send_to'', ''sd_bus_set_address'',
     ''sd_bus_set_allow_interactive_authorization'', ''sd_bus_set_anonymous'',
     ''sd_bus_set_bus_client'', ''sd_bus_set_description'', ''sd_bus_set_exec'']"

definition block_8 :: "string list" where
  "block_8 =
    [''sd_bus_set_fd'', ''sd_bus_set_monitor'', ''sd_bus_set_property'', ''sd_bus_set_server'',
     ''sd_bus_set_trusted'', ''sd_bus_slot_get_bus'', ''sd_bus_slot_get_current_handler'',
     ''sd_bus_slot_get_current_message'', ''sd_bus_slot_get_current_userdata'',
     ''sd_bus_slot_get_description'', ''sd_bus_slot_get_userdata'', ''sd_bus_slot_ref'',
     ''sd_bus_slot_set_description'', ''sd_bus_slot_set_userdata'', ''sd_bus_slot_unref'',
     ''sd_bus_start'', ''sd_bus_track_add_name'', ''sd_bus_track_add_sender'',
     ''sd_bus_track_contains'', ''sd_bus_track_count'']"

definition block_9 :: "string list" where
  "block_9 =
    [''sd_bus_track_get_userdata'', ''sd_bus_track_new'', ''sd_bus_track_next'',
     ''sd_bus_track_ref'', ''sd_bus_track_remove_name'', ''sd_bus_track_remove_sender'']"

definition block_10 :: "string list" where
  "block_10 =
    [''sd_bus_track_set_userdata'', ''sd_bus_track_unref'', ''sd_bus_try_close'', ''sd_bus_unref'',
     ''sd_bus_wait'', ''sd_event_add_child'', ''sd_event_add_defer'', ''sd_event_add_exit'',
     ''sd_event_add_io'', ''sd_event_add_post'', ''sd_event_add_signal'', ''sd_event_add_time'',
     ''sd_event_default'', ''sd_event_dispatch'', ''sd_event_exit'', ''sd_event_get_exit_code'',
     ''sd_event_get_fd'']"

definition block_11 :: "string list" where
  "block_11 =
    [''sd_event_get_state'', ''sd_event_get_tid'', ''sd_event_get_watchdog'', ''sd_event_loop'',
     ''sd_event_new'', ''sd_event_now'', ''sd_event_prepare'', ''sd_event_ref'', ''sd_event_run'',
     ''sd_event_set_watchdog'', ''sd_event_source_get_child_pid'',
     ''sd_event_source_get_description'', ''sd_event_source_get_enabled'',
     ''sd_event_source_get_event'', ''sd_event_source_get_io_events'',
     ''sd_event_source_get_io_fd'', ''sd_event_source_get_io_revents'',
     ''sd_event_source_get_pending'', ''sd_event_source_get_priority'',
     ''sd_event_source_get_signal'', ''sd_event_source_get_time'',
     ''sd_event_source_get_time_accuracy'', ''sd_event_source_get_time_clock'',
     ''sd_event_source_get_userdata'', ''sd_event_source_ref'',
     ''sd_event_source_set_description'', ''sd_event_source_set_enabled'',
     ''sd_event_source_set_io_events'', ''sd_event_source_set_io_fd'',
     ''sd_event_source_set_prepare'', ''sd_event_source_set_priority'',
     ''sd_event_source_set_time'', ''sd_event_source_set_time_accuracy'',
     ''sd_event_source_set_userdata'', ''sd_event_source_unref'', ''sd_event_unref'',
     ''sd_event_wait'']"

definition block_12 :: "string list" where
  "block_12 =
    [''sd_get_seats'', ''sd_get_sessions'', ''sd_get_uids'', ''sd_id128_from_string'',
     ''sd_id128_get_boot'']"

definition block_13 :: "string list" where
  "block_13 =
    [''sd_id128_get_machine'', ''sd_id128_randomize'', ''sd_id128_to_string'', ''sd_is_fifo'',
     ''sd_is_mq'', ''sd_is_socket'', ''sd_is_socket_inet'', ''sd_is_socket_unix'',
     ''sd_is_special'', ''sd_journal_add_conjunction'', ''sd_journal_add_disjunction'',
     ''sd_journal_add_match'', ''sd_journal_close'', ''sd_journal_enumerate_data'']"

definition block_14 :: "string list" where
  "block_14 =
    [''sd_journal_enumerate_unique'', ''sd_journal_flush_matches'', ''sd_journal_get_catalog'',
     ''sd_journal_get_catalog_for_message_id'', ''sd_journal_get_cursor'',
     ''sd_journal_get_cutoff_monotonic_usec'', ''sd_journal_get_cutoff_realtime_usec'',
     ''sd_journal_get_data'', ''sd_journal_get_data_threshold'', ''sd_journal_get_events'',
     ''sd_journal_get_fd'', ''sd_journal_get_monotonic_usec'', ''sd_journal_get_realtime_usec'',
     ''sd_journal_get_timeout'', ''sd_journal_get_usage'']"

definition block_15 :: "string list" where
  "block_15 =
    [''sd_journal_next'', ''sd_journal_next_skip'', ''sd_journal_open'',
     ''sd_journal_open_container'', ''sd_journal_open_directory'']"

definition block_16 :: "string list" where
  "block_16 =
    [''sd_journal_perror'', ''sd_journal_perror_with_location'', ''sd_journal_previous'',
     ''sd_journal_previous_skip'', ''sd_journal_print'', ''sd_journal_print_with_location'',
     ''sd_journal_printv'', ''sd_journal_printv_with_location'', ''sd_journal_process'',
     ''sd_journal_query_unique'', ''sd_journal_reliable_fd'', ''sd_journal_restart_data'']"

definition block_17 :: "string list" where
  "block_17 =
    [''sd_journal_restart_unique'', ''sd_journal_seek_cursor'', ''sd_journal_seek_head'',
     ''sd_journal_seek_monotonic_usec'', ''sd_journal_seek_realtime_usec'',
     ''sd_journal_seek_tail'', ''sd_journal_send'', ''sd_journal_send_with_location'',
     ''sd_journal_sendv'', ''sd_journal_sendv_with_location'', ''sd_journal_set_data_threshold'',
     ''sd_journal_stream_fd'', ''sd_journal_test_cursor'', ''sd_journal_wait'', ''sd_listen_fds'']"

definition block_18 :: "string list" where
  "block_18 =
    [''sd_login_monitor_flush'', ''sd_login_monitor_get_events'', ''sd_login_monitor_get_fd'',
     ''sd_login_monitor_get_timeout'', ''sd_login_monitor_new'', ''sd_login_monitor_unref'']"

definition block_19 :: "string list" where
  "block_19 =
    [''sd_peer_get_machine_name'', ''sd_peer_get_owner_uid'', ''sd_peer_get_session'',
     ''sd_peer_get_slice'', ''sd_peer_get_unit'']"

definition block_20 :: "string list" where
  "block_20 =
    [''sd_pid_get_machine_name'', ''sd_pid_get_owner_uid'', ''sd_pid_get_session'',
     ''sd_pid_get_slice'', ''sd_pid_get_unit'']"

definition block_21 :: "string list" where
  "block_21 =
    [''sd_seat_can_graphical'', ''sd_seat_can_multi_session'', ''sd_seat_can_tty'',
     ''sd_seat_get_active'', ''sd_seat_get_sessions'', ''sd_session_get_class'']"

definition block_22 :: "string list" where
  "block_22 =
    [''sd_session_get_display'', ''sd_session_get_remote_host'', ''sd_session_get_remote_user'',
     ''sd_session_get_seat'', ''sd_session_get_service'', ''sd_session_get_state'',
     ''sd_session_get_tty'', ''sd_session_get_type'', ''sd_session_get_uid'',
     ''sd_session_get_vt'', ''sd_session_is_active'', ''sd_session_is_remote'']"

definition block_23 :: "string list" where
  "block_23 =
    [''sd_uid_get_seats'', ''sd_uid_get_sessions'', ''sd_uid_get_state'', ''sd_uid_is_on_seat'',
     ''sd_watchdog_enabled'']"

section \<open>The functions\<close>

text \<open>Each has the body \<open>{return 0;}\<close>; the names, in the order of the file.\<close>

definition stub_functions_1 :: "string list" where
  "stub_functions_1 =
    [''sd_booted''] @ block_1 @ [''sd_bus_default_flush_close''] @ block_2 @
    [''sd_bus_emit_object_added'', ''sd_bus_emit_object_removed''] @ block_3 @
    [''sd_bus_flush_close_unref''] @ block_4 @ [''sd_bus_get_exit_on_disconnect''] @ block_5"

definition stub_functions_2 :: "string list" where
  "stub_functions_2 =
    block_6 @ [''sd_bus_path_decode_many'', ''sd_bus_path_encode'', ''sd_bus_path_encode_many''] @
    block_7 @ [''sd_bus_set_exit_on_disconnect''] @ block_8 @
    [''sd_bus_track_count_name'', ''sd_bus_track_count_sender'', ''sd_bus_track_first'',
     ''sd_bus_track_get_bus'', ''sd_bus_track_get_recursive''] @
    block_9 @ [''sd_bus_track_set_recursive''] @ block_10 @ [''sd_event_get_iteration''] @
    block_11 @ [''sd_get_machine_names'']"

definition stub_functions_3 :: "string list" where
  "stub_functions_3 =
    block_12 @ [''sd_id128_get_invocation''] @ block_13 @ [''sd_journal_enumerate_fields''] @
    block_14 @ [''sd_journal_has_persistent_files'', ''sd_journal_has_runtime_files''] @ block_15 @
    [''sd_journal_open_directory_fd'', ''sd_journal_open_files'', ''sd_journal_open_files_fd''] @
    block_16 @ [''sd_journal_restart_fields''] @ block_17 @ [''sd_listen_fds_with_names''] @
    block_18 @
    [''sd_machine_get_class'', ''sd_machine_get_ifindices'', ''sd_notify'', ''sd_notifyf'',
     ''sd_peer_get_cgroup''] @
    block_19 @ [''sd_peer_get_user_slice'', ''sd_peer_get_user_unit'', ''sd_pid_get_cgroup''] @
    block_20 @
    [''sd_pid_get_user_slice'', ''sd_pid_get_user_unit'', ''sd_pid_notify'',
     ''sd_pid_notify_with_fds'', ''sd_pid_notifyf''] @
    block_21 @ [''sd_session_get_desktop''] @ block_22 @ [''sd_uid_get_display''] @ block_23"

definition stub_functions :: "string list" where
  "stub_functions = stub_functions_1 @ stub_functions_2 @ stub_functions_3"

text \<open>What a call of a function of the library returns; none when the library has no such function.\<close>

definition stub_call :: "string \<Rightarrow> int option" where
  "stub_call f = (if f \<in> set stub_functions then Some 0 else None)"

section \<open>The version script\<close>

record version_node =
  node :: string
  symbols :: "string list"
  parent :: "string option"
  rest_local :: bool     \<comment> \<open>the clause \<open>local: *\<close>, which hides what no node names\<close>

definition symbols_209 :: "string list" where
  "symbols_209 =
    [''sd_booted'', ''sd_get_machine_names''] @ block_12 @ block_13 @ block_14 @ block_15 @
    [''sd_journal_open_files''] @ block_16 @ block_17 @ block_18 @
    [''sd_notify'', ''sd_notifyf''] @ block_20 @ [''sd_pid_get_user_unit''] @ block_21 @ block_22 @
    block_23"

definition symbols_221 :: "string list" where
  "symbols_221 =
    block_1 @ block_2 @ block_3 @ block_4 @ block_5 @ block_6 @ [''sd_bus_path_encode''] @
    block_7 @ block_8 @ [''sd_bus_track_first'', ''sd_bus_track_get_bus''] @ block_9 @ block_10 @
    block_11"

definition version_script :: "version_node list" where
  "version_script =
    [\<lparr>node = ''LIBSYSTEMD_209'', symbols = symbols_209,
       parent = None, rest_local = True\<rparr>,
     \<lparr>node = ''LIBSYSTEMD_211'', symbols = [''sd_machine_get_class''] @ block_19 @ [''sd_peer_get_user_unit''],
       parent = Some ''LIBSYSTEMD_209'', rest_local = False\<rparr>,
     \<lparr>node = ''LIBSYSTEMD_213'', symbols = [''sd_uid_get_display''],
       parent = Some ''LIBSYSTEMD_211'', rest_local = False\<rparr>,
     \<lparr>node = ''LIBSYSTEMD_214'', symbols = [''sd_pid_notify'', ''sd_pid_notifyf''],
       parent = Some ''LIBSYSTEMD_213'', rest_local = False\<rparr>,
     \<lparr>node = ''LIBSYSTEMD_216'', symbols = [''sd_machine_get_ifindices''],
       parent = Some ''LIBSYSTEMD_214'', rest_local = False\<rparr>,
     \<lparr>node = ''LIBSYSTEMD_217'', symbols = [''sd_session_get_desktop''],
       parent = Some ''LIBSYSTEMD_216'', rest_local = False\<rparr>,
     \<lparr>node = ''LIBSYSTEMD_219'', symbols = [''sd_pid_notify_with_fds''],
       parent = Some ''LIBSYSTEMD_217'', rest_local = False\<rparr>,
     \<lparr>node = ''LIBSYSTEMD_220'', symbols = [''sd_peer_get_user_slice'', ''sd_pid_get_user_slice''],
       parent = Some ''LIBSYSTEMD_219'', rest_local = False\<rparr>,
     \<lparr>node = ''LIBSYSTEMD_221'', symbols = symbols_221,
       parent = Some ''LIBSYSTEMD_220'', rest_local = False\<rparr>,
     \<lparr>node = ''LIBSYSTEMD_222'', symbols = [''sd_bus_emit_object_added'', ''sd_bus_emit_object_removed'', ''sd_bus_flush_close_unref''],
       parent = Some ''LIBSYSTEMD_221'', rest_local = False\<rparr>,
     \<lparr>node = ''LIBSYSTEMD_226'', symbols = [''sd_peer_get_cgroup'', ''sd_pid_get_cgroup''],
       parent = Some ''LIBSYSTEMD_222'', rest_local = False\<rparr>,
     \<lparr>node = ''LIBSYSTEMD_227'', symbols = [''sd_bus_default_flush_close'', ''sd_bus_path_decode_many'', ''sd_bus_path_encode_many'',
         ''sd_listen_fds_with_names''],
       parent = Some ''LIBSYSTEMD_226'', rest_local = False\<rparr>,
     \<lparr>node = ''LIBSYSTEMD_229'', symbols = [''sd_journal_enumerate_fields'', ''sd_journal_has_persistent_files'',
         ''sd_journal_has_runtime_files'', ''sd_journal_restart_fields''],
       parent = Some ''LIBSYSTEMD_227'', rest_local = False\<rparr>,
     \<lparr>node = ''LIBSYSTEMD_230'', symbols = [''sd_journal_open_directory_fd'', ''sd_journal_open_files_fd''],
       parent = Some ''LIBSYSTEMD_229'', rest_local = False\<rparr>,
     \<lparr>node = ''LIBSYSTEMD_231'', symbols = [''sd_event_get_iteration''],
       parent = Some ''LIBSYSTEMD_230'', rest_local = False\<rparr>,
     \<lparr>node = ''LIBSYSTEMD_232'', symbols = [''sd_bus_get_exit_on_disconnect'', ''sd_bus_set_exit_on_disconnect'',
         ''sd_bus_track_count_name'', ''sd_bus_track_count_sender'',
         ''sd_bus_track_get_recursive'', ''sd_bus_track_set_recursive'',
         ''sd_id128_get_invocation''],
       parent = Some ''LIBSYSTEMD_231'', rest_local = False\<rparr>]"

section \<open>What the library offers\<close>

text \<open>The order of strings by their first difference, and lists that ascend in it.\<close>

fun str_less :: "string \<Rightarrow> string \<Rightarrow> bool" where
  "str_less xs [] = False"
| "str_less [] (y # ys) = True"
| "str_less (x # xs) (y # ys) = (if x = y then str_less xs ys else (of_char x :: nat) < of_char y)"

fun ascending :: "string list \<Rightarrow> bool" where
  "ascending (x # y # xs) = (str_less x y \<and> ascending (y # xs))"
| "ascending _ = True"

lemma str_less_irrefl: "\<not> str_less xs xs"
  by (induction xs) simp_all

lemma str_less_trans: "str_less xs ys \<Longrightarrow> str_less ys zs \<Longrightarrow> str_less xs zs"
proof (induction xs ys arbitrary: zs rule: str_less.induct)
  case (2 y ys)
  then show ?case by (cases zs) simp_all
next
  case (3 x xs y ys)
  then show ?case by (cases zs) (auto split: if_splits)
qed simp

lemma ascending_above: "ascending (x # xs) \<Longrightarrow> y \<in> set xs \<Longrightarrow> str_less x y"
  by (induction xs arbitrary: x) (auto intro: str_less_trans)

lemma ascending_Cons: "ascending (x # xs) \<Longrightarrow> ascending xs"
  by (cases xs) simp_all

lemma ascending_distinct: "ascending xs \<Longrightarrow> distinct xs"
proof (induction xs)
  case (Cons x xs)
  then show ?case
    using ascending_above [OF Cons.prems] ascending_Cons [OF Cons.prems] str_less_irrefl [of x] by auto
qed simp

lemma ascending_append:
  "ascending xs \<Longrightarrow> ascending ys \<Longrightarrow> xs \<noteq> [] \<Longrightarrow> ys \<noteq> [] \<Longrightarrow> str_less (last xs) (hd ys) \<Longrightarrow>
   ascending (xs @ ys)"
proof (induction xs)
  case (Cons x xs)
  then show ?case by (cases xs; cases ys) simp_all
qed simp

lemma ascending_1: "ascending stub_functions_1 \<and> stub_functions_1 \<noteq> [] \<and> last stub_functions_1 = ''sd_bus_message_get_type''"
  by code_simp

lemma ascending_2: "ascending stub_functions_2 \<and> stub_functions_2 \<noteq> [] \<and> hd stub_functions_2 = ''sd_bus_message_has_signature'' \<and>
    last stub_functions_2 = ''sd_get_machine_names''"
  by code_simp

lemma ascending_3: "ascending stub_functions_3 \<and> stub_functions_3 \<noteq> [] \<and> hd stub_functions_3 = ''sd_get_seats''"
  by code_simp

lemma ascending_stub: "ascending stub_functions"
  unfolding stub_functions_def
  using ascending_1 ascending_2 ascending_3 by (intro ascending_append) simp_all

lemma mset_items: "mset [x] = {#x#}" "mset (x # y # xs) = {#x#} + mset (y # xs)"
  by simp_all

lemma mset_stub: "mset stub_functions = mset (concat (map symbols version_script))"
  unfolding stub_functions_def stub_functions_1_def stub_functions_2_def stub_functions_3_def
    version_script_def symbols_209_def symbols_221_def
  by (simp only: list.map version_node.simps concat.simps append_Nil2 mset_append mset_items ac_simps)

text \<open>
  C39. The stub stands in for the whole library and for nothing else: the functions it has are exactly
  the symbols of the version script, each exported once and under one version; a call of any of them
  returns 0; and the versions form one chain, each built on the one before.
\<close>

theorem stub_complete:
  "distinct (concat (map symbols version_script)) \<and> mset stub_functions = mset (concat (map symbols version_script)) \<and>
   stub_call f = (if \<exists>v \<in> set version_script. f \<in> set (symbols v) then Some 0 else None) \<and>
   map parent version_script = None # map (\<lambda>v. Some (node v)) (butlast version_script)"
proof (intro conjI)
  have "distinct stub_functions" by (rule ascending_distinct [OF ascending_stub])
  then show "distinct (concat (map symbols version_script))"
    using mset_eq_imp_distinct_iff [OF mset_stub] by blast
  have "set stub_functions = set (concat (map symbols version_script))"
    by (rule mset_eq_setD [OF mset_stub])
  then show "stub_call f = (if \<exists>v \<in> set version_script. f \<in> set (symbols v) then Some 0 else None)"
    by (auto simp: stub_call_def)
  show "map parent version_script = None # map (\<lambda>v. Some (node v)) (butlast version_script)"
    by (simp add: version_script_def)
qed (rule mset_stub)

end
