(* ===== verification/Spec2Isabelle.thy ===== *)
theory Spec2Isabelle
  imports Llmnr_Wire Wsd_Answers Main_Identity Main_Safety Main_Types Systemd_Stub
begin

text \<open>
  A verification of the C programs of this repository: the daemon wsdd2, which answers LLMNR name
  queries and Web Services for Devices (WSD) discovery so that Windows hosts find the NAS, and the
  library libsystemd-stub.

  \<^bold>\<open>The program.\<close> \<open>main\<close> of \<^verbatim>\<open>src/wsdd2/wsdd2.c\<close> opens, for each service of a table and each usable network
  interface, an endpoint (a bound socket, member of a multicast group where the service has one),
  starts the service, and waits in \<open>select\<close>. A ready endpoint is given to the receive handler of its
  service: \<open>wsd_recv\<close> (\<^verbatim>\<open>wsd.c\<close>), \<open>llmnr_recv\<close> (\<^verbatim>\<open>llmnr.c\<close>) or \<open>netlink_recv\<close>. A handler that fails, an
  address change or a signal ends the loop; all endpoints are closed, and the daemon starts again or
  terminates. The device target is a 32-bit little-endian ARM, so \<open>size_t\<close> has 32 bits.

  \<^bold>\<open>How C is modelled.\<close> A C function is a computation \<open>world \<Rightarrow> fault + ('a \<times> world)\<close> (theory Prelude): it
  returns a value and a new state, or a memory fault where C has undefined behaviour. Buffers are
  lists with every access checked, strings are character lists without NUL, C library functions the
  code uses are written out (Clib, Netif, Endpoint). The record \<open>os\<close> (World) is the parameter of the model:
  what each system call returns, as a function of the number of calls made so far and its arguments;
  the theorems hold for every such record, or state what they need of it (\<open>mem_ok\<close>, \<open>accept_ok\<close>,
  \<open>ifs_ok\<close>, \<open>willing\<close>). The record \<open>world\<close> holds the static variables of the program and the trace of
  its visible actions, on which most properties are stated.

  \<^bold>\<open>Theories and the code they model.\<close>
  \<^item> Netif: \<open>connected_if\<close> and \<open>ip2uri\<close> of wsdd2.c, \<open>inet_ntop\<close>.
  \<^item> Llmnr, Llmnr_Wire: llmnr.c. The wire format as an encoder; the exact answer to a query for our
    name; what any packet can make the responder send; safety for labels under 64 bytes, but for the
    untested result of \<open>realloc\<close>, and the stack overflow for longer ones.
  \<^item> Wsd_Uuid, Wsd_Params: \<open>set_seed\<close> to \<open>init_getresp\<close> of wsd.c. The device identity from machine-id;
    the table of device data, where the first setting wins.
  \<^item> Wsd_Xml: \<open>wsd_tag_find\<close>, \<open>wsd_req_parse\<close>, \<open>wsd_action_id\<close>. Soundness and completeness of the search.
  \<^item> Wsd_Send, Wsd_Text, Wsd_Messages: the message builders of wsd.c with their templates; the bytes
    sent, memory safety, and that the parser reads back what the builders write.
  \<^item> Wsd_Http: \<open>wsd_parse_http_header\<close>, with the refilling loop and its faults.
  \<^item> Wsd_Recv, Wsd_Answers: \<open>wsd_init\<close>, \<open>wsd_recv\<close>, \<open>wsd_exit\<close>; the answers to whole datagrams and
    connections, descriptors, and where faults can come from.
  \<^item> Wsd_Identity: the parts of the state that make the device recognisable, and what leaves them alone.
  \<^item> Netlink: \<open>is_new_addr\<close> and \<open>netlink_recv\<close>, a refinement of a watch on a list of abstract messages.
  \<^item> Descriptors: the contract \<open>receiver\<close> between the main loop and a handler, a locale that the three
    handlers interpret; the accounting of descriptors on the trace.
  \<^item> Endpoint, Endpoint_Props: \<open>open_ep\<close> and \<open>close_ep\<close> of wsdd2.c.
  \<^item> Main_Loop: the table of services, the options and \<open>main\<close>. Its control points are the datatype
    \<open>mstate\<close>, its parts are the steps \<open>start_step\<close>, \<open>select_step\<close>, \<open>dispatch_step\<close>, \<open>end_step\<close>; signals are
    steps of their own in the relation \<open>mstep\<close>.
  \<^item> Main_Props, Main_Types, Main_Options, Main_Identity, Main_Safety, Main_Clients: invariants of the
    reachable states (descriptors, the addresses of the endpoints, identity), termination of shutdown,
    what becomes of a termination request, the options, where memory faults can come from, and what
    one client can do to the whole. Claims on what the daemon does by itself are on \<open>main_work\<close>, a number
    of its steps without a signal; invariants are on \<open>reachable\<close>, with signals anywhere.
  \<^item> Systemd_Stub: libsystemd-stub.c and libsystemd.map.

  \<^bold>\<open>Frames.\<close> A frame is a reflexive, transitive relation on states; what a frame relates, sequences and
  branches relate too (locale \<open>frame\<close> in Prelude). Its interpretations: the trace grows (\<open>extends\<close>),
  nothing visible happens (\<open>silent\<close>), only bookkeeping changes (\<open>steady\<close>), no descriptor is made or
  closed (\<open>calm\<close>), the descriptors held are the same (\<open>balanced\<close>), settings stay (\<open>boot_le\<close>), identity
  stays (\<open>same_identity\<close>, \<open>fixed\<close>, \<open>settled\<close>).

  \<^bold>\<open>Termination.\<close> No fuel is used. Every loop is a total function with its measure (bytes left in a
  packet or buffer, input still to come), with one exception: the loop over the boot parameters of
  option \<open>b\<close> may run for ever and is a partial function, with a theorem for each side.

  \<^bold>\<open>Not modelled.\<close> The help text, \<open>DEBUG\<close> and the dumps, which only write to terminal and log; \<open>strerror\<close>
  in log messages; the freeing of memory (allocation may fail, but addresses are not modelled, so use
  after free is outside the model); the fields \<open>probe\<close> and \<open>resolve\<close> of \<open>wsd_req_info\<close>, which no code
  uses; signals in the middle of a step, other than by the failure of the call they interrupt. Of the
  rest of the repository (image build, flashing, web panel, overlay) nothing is C code.
\<close>

end
